theory Spec2Isabelle
  imports Complex_Main "HOL-Library.Word" "HOL-Library.Monad_Syntax"
begin

section \<open>The image worker (img-worker.js)\<close>

text \<open>
  A shallow embedding of the worker. JavaScript numbers that hold byte offsets, sizes
  and counters are natural numbers or integers here; an exception thrown inside a
  \<^verbatim>\<open>try\<close> block is the value \<open>None\<close> of an option or the \<open>Inl\<close> of a sum, and the
  \<^verbatim>\<open>catch\<close> clause is the case distinction on it. A handler runs from its message to
  its response without another handler in between, so \<^verbatim>\<open>RUNTIME\<close> is the same at
  every read within one request.
\<close>

subsection \<open>DataView reads\<close>

text \<open>
  A \<^verbatim>\<open>DataView\<close> over an \<^verbatim>\<open>ArrayBuffer\<close> is the list of its bytes.
  \<^verbatim>\<open>getUint16(o, little)\<close> and \<^verbatim>\<open>getUint32(o, little)\<close> throw a RangeError when the
  read would pass the end of the buffer: that is \<open>None\<close>.
\<close>

type_synonym byte = "8 word"
type_synonym DataView = "byte list"

definition byteLength :: "DataView \<Rightarrow> nat" where
  "byteLength dv = length dv"

definition getUint16 :: "DataView \<Rightarrow> nat \<Rightarrow> bool \<Rightarrow> nat option" where
  "getUint16 dv p little =
     (if p + 2 \<le> byteLength dv then
        (let b0 = unat (dv ! p); b1 = unat (dv ! (p + 1))
         in Some (if little then b0 + 256 * b1 else 256 * b0 + b1))
      else None)"

definition getUint32 :: "DataView \<Rightarrow> nat \<Rightarrow> bool \<Rightarrow> nat option" where
  "getUint32 dv p little =
     (if p + 4 \<le> byteLength dv then
        (let b0 = unat (dv ! p); b1 = unat (dv ! (p + 1));
             b2 = unat (dv ! (p + 2)); b3 = unat (dv ! (p + 3))
         in Some (if little then b0 + 256 * b1 + 65536 * b2 + 16777216 * b3
                  else 16777216 * b0 + 65536 * b1 + 256 * b2 + b3))
      else None)"

subsection \<open>EXIF orientation (readJpegExifOrientation)\<close>

text \<open>
  The \<^verbatim>\<open>for\<close> loop over the entries of IFD0 (12 bytes each), from entry \<open>i\<close> on.
  Leaving the loop by \<^verbatim>\<open>break\<close> or by its condition reaches \<^verbatim>\<open>return 1\<close>.
\<close>

function scanIfd :: "DataView \<Rightarrow> bool \<Rightarrow> nat \<Rightarrow> nat \<Rightarrow> nat \<Rightarrow> nat option" where
  "scanIfd dv little ifd0 entries i =
     (if i < entries then
        (let entry = ifd0 + i * 12 in
         if entry + 12 > byteLength dv then Some 1
         else do {
           tag \<leftarrow> getUint16 dv entry little;
           if tag = 0x0112 then do {
             type \<leftarrow> getUint16 dv (entry + 2) little;
             count \<leftarrow> getUint32 dv (entry + 4) little;
             if type \<noteq> 3 \<or> count \<noteq> 1 then Some 1
             else do {
               value \<leftarrow> getUint16 dv (entry + 8) little;
               if value \<ge> 1 \<and> value \<le> 8 then Some value else Some 1
             }
           }
           else scanIfd dv little ifd0 entries (i + 1)
         })
      else Some 1)"
  by pat_completeness auto
termination
  by (relation "measure (\<lambda>(dv, little, ifd0, entries, i). entries - i)") auto

text \<open>The test for the signature \<^verbatim>\<open>Exif\0\0\<close>; \<^verbatim>\<open>&&\<close> reads the second
  operand only when the first holds.\<close>

definition exifHeader :: "DataView \<Rightarrow> nat \<Rightarrow> bool option" where
  "exifHeader dv offset = do {
     a \<leftarrow> getUint32 dv offset False;
     if a = 0x45786966 then do {
       b \<leftarrow> getUint16 dv (offset + 4) False;
       Some (b = 0x0000)
     } else Some False
   }"

text \<open>The body of the APP1 branch once the signature is there: the TIFF header at
  \<open>offset + 6\<close>, then IFD0.\<close>

definition parseExif :: "DataView \<Rightarrow> nat \<Rightarrow> nat option" where
  "parseExif dv offset =
     (let tiffOffset = offset + 6 in do {
        bo \<leftarrow> getUint16 dv tiffOffset False;
        let little = (bo = 0x4949);
        magic \<leftarrow> getUint16 dv (tiffOffset + 2) little;
        if magic \<noteq> 0x002A then Some 1
        else do {
          ifd0Rel \<leftarrow> getUint32 dv (tiffOffset + 4) little;
          let ifd0 = tiffOffset + ifd0Rel;
          if ifd0 + 2 > byteLength dv then Some 1
          else do {
            entries \<leftarrow> getUint16 dv ifd0 little;
            scanIfd dv little (ifd0 + 2) entries 0
          }
        }
      })"

text \<open>The \<^verbatim>\<open>while\<close> loop over the marker segments, from \<open>offset\<close> on.\<close>

function walkSegments :: "DataView \<Rightarrow> nat \<Rightarrow> nat option" where
  "walkSegments dv offset =
     (if offset + 4 < byteLength dv then do {
        marker \<leftarrow> getUint16 dv offset False;
        if marker = 0xFFD9 \<or> marker = 0xFFDA then Some 1
        else do {
          size \<leftarrow> getUint16 dv (offset + 2) False;
          if size < 2 then Some 1
          else if marker = 0xFFE1 then do {
            hdr \<leftarrow> exifHeader dv (offset + 4);
            if \<not> hdr then walkSegments dv (offset + 4 + (size - 2))
            else parseExif dv (offset + 4)
          }
          else walkSegments dv (offset + 4 + (size - 2))
        }
      }
      else Some 1)"
  by pat_completeness auto
termination
  by (relation "measure (\<lambda>(dv, offset). byteLength dv - offset)") auto

definition readJpegExifOrientation :: "DataView \<Rightarrow> nat" where
  "readJpegExifOrientation dv =
     (case (do {
              soi \<leftarrow> getUint16 dv 0 False;
              if soi \<noteq> 0xFFD8 then Some 1 else walkSegments dv 2
            })
      of Some v \<Rightarrow> v
       | None \<Rightarrow> 1)"

text \<open>
  The offsets at which the \<^verbatim>\<open>while\<close> loop starts a turn. It starts at 2, and from an
  offset \<open>offset\<close> it goes on to \<open>offset + 4 + (size - 2)\<close> when the segment there is
  skipped: the loop condition holds, the marker is neither EOI nor SOS, the size is at
  least 2, and the segment is not an APP1 segment with the Exif signature. An offset
  where the loop finds an APP1 segment with the signature (\<open>exifSegmentAt\<close>) is where it
  leaves for the TIFF header, never to come back: every path from there returns.
\<close>

definition exifSegmentAt :: "DataView \<Rightarrow> nat \<Rightarrow> bool" where
  "exifSegmentAt dv offset =
     (offset + 4 < byteLength dv \<and> getUint16 dv offset False = Some 0xFFE1 \<and>
      (case getUint16 dv (offset + 2) False of Some len \<Rightarrow> 2 \<le> len | None \<Rightarrow> False) \<and>
      exifHeader dv (offset + 4) = Some True)"

inductive reaches :: "DataView \<Rightarrow> nat \<Rightarrow> bool" for dv :: DataView where
  start: "reaches dv 2"
| skip: "reaches dv offset \<Longrightarrow> offset + 4 < byteLength dv \<Longrightarrow>
         getUint16 dv offset False = Some marker \<Longrightarrow> marker \<noteq> 0xFFD9 \<Longrightarrow> marker \<noteq> 0xFFDA \<Longrightarrow>
         getUint16 dv (offset + 2) False = Some len \<Longrightarrow> 2 \<le> len \<Longrightarrow>
         marker \<noteq> 0xFFE1 \<or> exifHeader dv (offset + 4) = Some False \<Longrightarrow>
         reaches dv (offset + 4 + (len - 2))"

code_pred reaches .

text \<open>Byte streams to run the reader on: a JPEG whose IFD0 holds orientation 6
  (big-endian TIFF header); the first bytes of a PNG file; a JPEG whose first APP1
  segment has the Exif signature and the TIFF magic number 0x002B, followed by a
  well-formed Exif segment holding orientation 6; and a JPEG with an APP0 segment before
  an Exif segment with a little-endian TIFF header holding orientation 8.\<close>

definition exampleJpeg :: DataView where
  "exampleJpeg = [0xFF, 0xD8, 0xFF, 0xE1, 0x00, 0x22, 0x45, 0x78, 0x69, 0x66, 0x00, 0x00,
            0x4D, 0x4D, 0x00, 0x2A, 0x00, 0x00, 0x00, 0x08,
            0x00, 0x01, 0x01, 0x12, 0x00, 0x03, 0x00, 0x00, 0x00, 0x01, 0x00, 0x06, 0x00, 0x00,
            0x00, 0x00, 0x00, 0x00, 0xFF, 0xD9]"

definition examplePng :: DataView where
  "examplePng = [0x89, 0x50, 0x4E, 0x47, 0x0D, 0x0A, 0x1A, 0x0A]"

definition badMagicJpeg :: DataView where
  "badMagicJpeg = [0xFF, 0xD8,
     0xFF, 0xE1, 0x00, 0x10, 0x45, 0x78, 0x69, 0x66, 0x00, 0x00,
     0x4D, 0x4D, 0x00, 0x2B, 0x00, 0x00, 0x00, 0x08,
     0xFF, 0xE1, 0x00, 0x22, 0x45, 0x78, 0x69, 0x66, 0x00, 0x00,
     0x4D, 0x4D, 0x00, 0x2A, 0x00, 0x00, 0x00, 0x08,
     0x00, 0x01, 0x01, 0x12, 0x00, 0x03, 0x00, 0x00, 0x00, 0x01, 0x00, 0x06, 0x00, 0x00,
     0x00, 0x00, 0x00, 0x00, 0xFF, 0xD9]"

definition littleEndianJpeg :: DataView where
  "littleEndianJpeg = [0xFF, 0xD8,
     0xFF, 0xE0, 0x00, 0x04, 0x00, 0x00,
     0xFF, 0xE1, 0x00, 0x22, 0x45, 0x78, 0x69, 0x66, 0x00, 0x00,
     0x49, 0x49, 0x2A, 0x00, 0x08, 0x00, 0x00, 0x00,
     0x01, 0x00, 0x12, 0x01, 0x03, 0x00, 0x01, 0x00, 0x00, 0x00, 0x08, 0x00, 0x00, 0x00,
     0x00, 0x00, 0x00, 0x00, 0xFF, 0xD9]"

subsection \<open>JavaScript values and the runtime configuration\<close>

text \<open>
  Numbers that take part in arithmetic (scale, quality, byte budget, loop bounds) are
  real numbers: the model computes with them exactly, where the program computes with
  IEEE doubles. A configuration value read from a message can be any JavaScript value
  (\<open>OtherValue\<close> stands for the values that are not of type number: strings, booleans,
  objects); \<^verbatim>\<open>isFiniteNumber\<close> holds of the finite numbers alone.
\<close>

datatype jsval = Undefined | Null | Number real | NaN | PosInfinity | NegInfinity | OtherValue

fun isFiniteNumber :: "jsval \<Rightarrow> bool" where
  "isFiniteNumber (Number r) = True"
| "isFiniteNumber _ = False"

text \<open>The value of a finite number (read only after \<open>isFiniteNumber\<close> has held).\<close>

fun numberOf :: "jsval \<Rightarrow> real" where
  "numberOf (Number r) = r"
| "numberOf _ = 0"

text \<open>A decoded raster: its pixel dimensions and a token for its content.\<close>

record ImageBitmap =
  bitmapWidth :: nat
  bitmapHeight :: nat
  bitmapPixels :: nat

text \<open>
  What \<^verbatim>\<open>decodeToRGBA\<close> of an external HEIC decoder resolves to: \<open>None\<close> models a
  null result, a zero width or height is falsy, \<open>rgba\<close> is the length in bytes of the
  pixel buffer when one is present (\<open>payloadPixels\<close> a token for its content), and a
  missing orientation is 0, which is falsy.
\<close>

record WasmPayload =
  payloadWidth :: nat
  payloadHeight :: nat
  rgba :: "nat option"
  payloadPixels :: nat
  payloadOrientation :: nat

text \<open>
  The handle passed at initialization. \<open>decodeToRGBA = None\<close> is a handle without such a
  function; the function itself may throw (\<open>Inl\<close> its message).
\<close>

record HeicWasm =
  decodeToRGBA :: "(DataView \<Rightarrow> string + WasmPayload option) option"

text \<open>
  \<^verbatim>\<open>RUNTIME\<close>. Its numeric fields hold finite numbers at every moment (the initial
  literals, and overrides that passed \<open>isFiniteNumber\<close>); \<open>targetMaxBytes\<close> is a finite
  number or \<^verbatim>\<open>null\<close> (\<open>None\<close>).
\<close>

record RUNTIME =
  ready :: bool
  maxLongSidePx :: real
  targetMaxBytes :: "real option"
  jpegQualityStart :: real
  jpegMinQuality :: real
  jpegQualityStep :: real
  maxQualityIters :: real
  maxResizePasses :: real
  resizeDownFactor :: real
  heicWasm :: "HeicWasm option"

definition RUNTIME_initial :: RUNTIME where
  "RUNTIME_initial =
     \<lparr>ready = False, maxLongSidePx = 2560, targetMaxBytes = None,
      jpegQualityStart = 0.95, jpegMinQuality = 0.65, jpegQualityStep = 0.05,
      maxQualityIters = 8, maxResizePasses = 4, resizeDownFactor = 0.9,
      heicWasm = None\<rparr>"

subsection \<open>Orientation and the canvas\<close>

definition orientedSize :: "nat \<Rightarrow> nat \<Rightarrow> nat \<Rightarrow> nat \<times> nat" where
  "orientedSize w h orientation =
     (if orientation \<ge> 5 \<and> orientation \<le> 8 then (h, w) else (w, h))"

text \<open>
  A 2D context: the canvas dimensions, the current transformation matrix, the stack of
  \<^verbatim>\<open>save()\<close>, the fill style, and what has been painted, in canvas (device)
  coordinates. A matrix \<open>(a, b, c, d, e, f)\<close> maps \<open>(x, y)\<close> to
  \<open>(a x + c y + e, b x + d y + f)\<close>. Each of \<^verbatim>\<open>translate\<close>, \<^verbatim>\<open>scale\<close> and
  \<^verbatim>\<open>rotate\<close> multiplies the current matrix on the right, so the call made last acts
  first on a point. The three angles the worker uses are quarter turns, whose sine and
  cosine are taken exactly.
\<close>

type_synonym matrix = "int \<times> int \<times> int \<times> int \<times> int \<times> int"
type_synonym point = "int \<times> int"

datatype angle = PI | HALF_PI | NEG_HALF_PI

text \<open>A painted rectangle: the images of its top-left, top-right and bottom-left corners.\<close>

datatype paint =
    FillRect string point point point
  | DrawImage ImageBitmap point point point

record ctx2d =
  canvasWidth :: int
  canvasHeight :: int
  ctm :: matrix
  fillStyle :: string
  saved :: "(matrix \<times> string) list"
  painted :: "paint list"

definition identityMatrix :: matrix where
  "identityMatrix = (1, 0, 0, 1, 0, 0)"

fun multiply :: "matrix \<Rightarrow> matrix \<Rightarrow> matrix" where
  "multiply (a, b, c, d, e, f) (a', b', c', d', e', f') =
     (a * a' + c * b', b * a' + d * b', a * c' + c * d', b * c' + d * d',
      a * e' + c * f' + e, b * e' + d * f' + f)"

fun apply_matrix :: "matrix \<Rightarrow> point \<Rightarrow> point" where
  "apply_matrix (a, b, c, d, e, f) (x, y) = (a * x + c * y + e, b * x + d * y + f)"

fun cosine :: "angle \<Rightarrow> int" where
  "cosine PI = -1"
| "cosine HALF_PI = 0"
| "cosine NEG_HALF_PI = 0"

fun sine :: "angle \<Rightarrow> int" where
  "sine PI = 0"
| "sine HALF_PI = 1"
| "sine NEG_HALF_PI = -1"

text \<open>\<^verbatim>\<open>new OffscreenCanvas(w, h)\<close> and \<^verbatim>\<open>getContext("2d")\<close>: a fresh context.\<close>

definition OffscreenCanvas :: "int \<Rightarrow> int \<Rightarrow> ctx2d" where
  "OffscreenCanvas w h =
     \<lparr>canvasWidth = w, canvasHeight = h, ctm = identityMatrix, fillStyle = ''#000000'',
      saved = [], painted = []\<rparr>"

definition ctx_save :: "ctx2d \<Rightarrow> ctx2d" where
  "ctx_save ctx = ctx\<lparr>saved := (ctm ctx, fillStyle ctx) # saved ctx\<rparr>"

definition ctx_restore :: "ctx2d \<Rightarrow> ctx2d" where
  "ctx_restore ctx =
     (case saved ctx of
        [] \<Rightarrow> ctx
      | (m, s) # rest \<Rightarrow> ctx\<lparr>ctm := m, fillStyle := s, saved := rest\<rparr>)"

definition ctx_translate :: "int \<Rightarrow> int \<Rightarrow> ctx2d \<Rightarrow> ctx2d" where
  "ctx_translate tx ty ctx = ctx\<lparr>ctm := multiply (ctm ctx) (1, 0, 0, 1, tx, ty)\<rparr>"

definition ctx_scale :: "int \<Rightarrow> int \<Rightarrow> ctx2d \<Rightarrow> ctx2d" where
  "ctx_scale sx sy ctx = ctx\<lparr>ctm := multiply (ctm ctx) (sx, 0, 0, sy, 0, 0)\<rparr>"

definition ctx_rotate :: "angle \<Rightarrow> ctx2d \<Rightarrow> ctx2d" where
  "ctx_rotate t ctx =
     ctx\<lparr>ctm := multiply (ctm ctx) (cosine t, sine t, - sine t, cosine t, 0, 0)\<rparr>"

definition ctx_fillRect :: "int \<Rightarrow> int \<Rightarrow> int \<Rightarrow> int \<Rightarrow> ctx2d \<Rightarrow> ctx2d" where
  "ctx_fillRect x y w h ctx =
     ctx\<lparr>painted := painted ctx @
        [FillRect (fillStyle ctx) (apply_matrix (ctm ctx) (x, y))
           (apply_matrix (ctm ctx) (x + w, y)) (apply_matrix (ctm ctx) (x, y + h))]\<rparr>"

definition ctx_drawImage :: "ImageBitmap \<Rightarrow> int \<Rightarrow> int \<Rightarrow> int \<Rightarrow> int \<Rightarrow> ctx2d \<Rightarrow> ctx2d" where
  "ctx_drawImage bitmap x y w h ctx =
     ctx\<lparr>painted := painted ctx @
        [DrawImage bitmap (apply_matrix (ctm ctx) (x, y))
           (apply_matrix (ctm ctx) (x + w, y)) (apply_matrix (ctm ctx) (x, y + h))]\<rparr>"

text \<open>The \<^verbatim>\<open>switch\<close> on the orientation, between \<^verbatim>\<open>save\<close> and \<^verbatim>\<open>restore\<close>;
  the calls are in the order of the source.\<close>

definition orientationTransform :: "ImageBitmap \<Rightarrow> nat \<Rightarrow> int \<Rightarrow> int \<Rightarrow> ctx2d \<Rightarrow> ctx2d" where
  "orientationTransform bitmap orientation outW outH ctx =
     (if orientation = 2 then
        (let ctx = ctx_translate outW 0 ctx;
             ctx = ctx_scale (-1) 1 ctx
         in ctx_drawImage bitmap 0 0 outW outH ctx)
      else if orientation = 3 then
        (let ctx = ctx_translate outW outH ctx;
             ctx = ctx_rotate PI ctx
         in ctx_drawImage bitmap 0 0 outW outH ctx)
      else if orientation = 4 then
        (let ctx = ctx_translate 0 outH ctx;
             ctx = ctx_scale 1 (-1) ctx
         in ctx_drawImage bitmap 0 0 outW outH ctx)
      else if orientation = 5 then
        (let ctx = ctx_rotate NEG_HALF_PI ctx;
             ctx = ctx_scale (-1) 1 ctx;
             ctx = ctx_translate (- outH) 0 ctx
         in ctx_drawImage bitmap 0 0 outH outW ctx)
      else if orientation = 6 then
        (let ctx = ctx_rotate HALF_PI ctx;
             ctx = ctx_translate 0 (- outW) ctx
         in ctx_drawImage bitmap 0 0 outH outW ctx)
      else if orientation = 7 then
        (let ctx = ctx_rotate HALF_PI ctx;
             ctx = ctx_scale (-1) 1 ctx;
             ctx = ctx_translate (- outH) (- outW) ctx
         in ctx_drawImage bitmap 0 0 outH outW ctx)
      else if orientation = 8 then
        (let ctx = ctx_rotate NEG_HALF_PI ctx;
             ctx = ctx_translate (- outH) 0 ctx
         in ctx_drawImage bitmap 0 0 outH outW ctx)
      else ctx_drawImage bitmap 0 0 outW outH ctx)"

definition drawBitmapWithOrientation ::
    "ctx2d \<Rightarrow> ImageBitmap \<Rightarrow> nat \<Rightarrow> int \<Rightarrow> int \<Rightarrow> ctx2d" where
  "drawBitmapWithOrientation ctx bitmap orientation outW outH =
     (let ctx = ctx_save ctx;
          ctx = ctx\<lparr>fillStyle := ''#ffffff''\<rparr>;
          ctx = ctx_fillRect 0 0 outW outH ctx;
          ctx = orientationTransform bitmap orientation outW outH ctx
      in ctx_restore ctx)"

subsection \<open>The size-constrained encoder (renderResizedJpeg)\<close>

text \<open>
  The platform the worker runs on. \<open>convertToBlob\<close> gives the size in bytes of the JPEG
  that \<^verbatim>\<open>canvas.convertToBlob\<close> encodes from a canvas at a quality: any function at
  all, and taken to succeed. The two \<open>createImageBitmap\<close> fields are the call with
  \<^verbatim>\<open>imageOrientation: "from-image"\<close> (\<open>None\<close> when the promise is rejected) and the
  plain call (\<open>Inl\<close> the message of the rejection). \<open>imageDecoder\<close> is \<open>None\<close> when
  \<^verbatim>\<open>ImageDecoder\<close> is undefined; otherwise it is the whole first strategy of the HEIC
  path on a file and a MIME type, \<open>None\<close> when any step of it throws. A file is its
  \<^verbatim>\<open>type\<close>, \<^verbatim>\<open>name\<close> and \<^verbatim>\<open>size\<close> and the bytes that \<^verbatim>\<open>arrayBuffer()\<close> gives.
\<close>

record File =
  fileType :: string
  fileName :: string
  fileSize :: nat
  arrayBuffer :: DataView

record env =
  hasOffscreenCanvas :: bool
  convertToBlob :: "ctx2d \<Rightarrow> real \<Rightarrow> nat"
  createImageBitmapFromImage :: "File \<Rightarrow> ImageBitmap option"
  createImageBitmap :: "File \<Rightarrow> string + ImageBitmap"
  imageDecoder :: "(File \<Rightarrow> string \<Rightarrow> ImageBitmap option) option"

text \<open>
  The platform calls a request makes, in order: a decode attempt (by the name of its
  strategy), a render of the raster at a scale into a canvas of a width and height, an
  encode at a quality with the size of the blob it gave.
\<close>

datatype event =
    Decode string
  | Render real int int
  | Encode real nat

text \<open>
  The quality loop of one resize pass, from quality \<open>q\<close> and iteration \<open>iter\<close> on. It
  returns \<^verbatim>\<open>best\<close> (quality, iteration and blob size) when a blob fits, and the
  events so far.
\<close>

function qualityLoop ::
    "RUNTIME \<Rightarrow> (real \<Rightarrow> nat) \<Rightarrow> real \<Rightarrow> real \<Rightarrow> nat \<Rightarrow> event list
      \<Rightarrow> (real \<times> nat \<times> nat) option \<times> event list" where
  "qualityLoop rt encode target q iter evs =
     (if real iter < maxQualityIters rt then
        (let jpegBlob = encode q;
             evs = evs @ [Encode q jpegBlob]
         in if real jpegBlob \<le> target then (Some (q, iter, jpegBlob), evs)
            else (let nextQ = max (jpegMinQuality rt) (q - jpegQualityStep rt)
                  in if nextQ = q then (None, evs)
                     else qualityLoop rt encode target nextQ (iter + 1) evs))
      else (None, evs))"
  by pat_completeness auto
termination
proof (relation "measure (\<lambda>(rt, encode, target, q, iter, evs). nat \<lceil>maxQualityIters rt\<rceil> - iter)",
    goal_cases)
  case 1
  show ?case by simp
next
  case (2 rt encode target q iter evs)
  from \<open>real iter < maxQualityIters rt\<close> have "iter < nat \<lceil>maxQualityIters rt\<rceil>"
    by linarith
  then show ?case by simp
qed

declare qualityLoop.simps [simp del]

text \<open>
  What \<^verbatim>\<open>renderResizedJpeg\<close> returns: the fields \<^verbatim>\<open>blob.size\<close>, \<^verbatim>\<open>width\<close>,
  \<^verbatim>\<open>height\<close>, \<^verbatim>\<open>quality\<close>, \<^verbatim>\<open>scale\<close>, \<^verbatim>\<open>pass\<close> and \<^verbatim>\<open>iter\<close> under the
  prefix \<open>res\<close>; \<open>bestEffortOverLimit = None\<close> is an object without that property.
\<close>

record RenderResult =
  resBlobSize :: nat
  resWidth :: int
  resHeight :: int
  resQuality :: real
  resScale :: real
  resPass :: real
  resIter :: real
  bestEffortOverLimit :: "bool option"

text \<open>A fresh canvas of the size, with the raster composited on it.\<close>

definition renderCanvas :: "ImageBitmap \<Rightarrow> nat \<Rightarrow> int \<Rightarrow> int \<Rightarrow> ctx2d" where
  "renderCanvas bitmap orientation outW outH =
     drawBitmapWithOrientation (OffscreenCanvas outW outH) bitmap orientation outW outH"

text \<open>The resize loop from pass \<open>pass\<close> on, and the final render after it.\<close>

function resizeLoop ::
    "RUNTIME \<Rightarrow> env \<Rightarrow> ImageBitmap \<Rightarrow> nat \<Rightarrow> real \<Rightarrow> nat \<times> nat \<Rightarrow> real \<Rightarrow> nat \<Rightarrow> event list
      \<Rightarrow> RenderResult \<times> event list" where
  "resizeLoop rt e bitmap orientation target oSize scale pass evs =
     (if real pass < maxResizePasses rt then
        (let outW = max 1 (round (real (fst oSize) * scale));
             outH = max 1 (round (real (snd oSize) * scale));
             canvas = renderCanvas bitmap orientation outW outH;
             evs = evs @ [Render scale outW outH]
         in case qualityLoop rt (convertToBlob e canvas) target (jpegQualityStart rt) 0 evs of
              (Some (q, iter, jpegBlob), evs) \<Rightarrow>
                (\<lparr>resBlobSize = jpegBlob, resWidth = outW, resHeight = outH, resQuality = q,
                  resScale = scale, resPass = real pass, resIter = real iter,
                  bestEffortOverLimit = None\<rparr>, evs)
            | (None, evs) \<Rightarrow>
                resizeLoop rt e bitmap orientation target oSize
                  (scale * resizeDownFactor rt) (pass + 1) evs)
      else
        (let outW = max 1 (round (real (fst oSize) * scale));
             outH = max 1 (round (real (snd oSize) * scale));
             canvas = renderCanvas bitmap orientation outW outH;
             jpegBlob = convertToBlob e canvas (jpegMinQuality rt)
         in (\<lparr>resBlobSize = jpegBlob, resWidth = outW, resHeight = outH,
              resQuality = jpegMinQuality rt, resScale = scale,
              resPass = maxResizePasses rt, resIter = maxQualityIters rt,
              bestEffortOverLimit = Some (real jpegBlob > target)\<rparr>,
             evs @ [Render scale outW outH, Encode (jpegMinQuality rt) jpegBlob])))"
  by pat_completeness auto
termination
proof (relation "measure (\<lambda>(rt, e, bitmap, orientation, target, oSize, scale, pass, evs).
        nat \<lceil>maxResizePasses rt\<rceil> - pass)", goal_cases)
  case 1
  show ?case by simp
next
  case (2 rt e bitmap orientation target oSize scale pass evs)
  from \<open>real pass < maxResizePasses rt\<close> have "pass < nat \<lceil>maxResizePasses rt\<rceil>"
    by linarith
  then show ?case by simp
qed

declare resizeLoop.simps [simp del]

text \<open>Thrown errors are \<open>Inl\<close> of their message.\<close>

definition renderResizedJpeg ::
    "RUNTIME \<Rightarrow> env \<Rightarrow> ImageBitmap \<Rightarrow> nat \<Rightarrow> jsval \<Rightarrow> jsval
      \<Rightarrow> string + RenderResult \<times> event list" where
  "renderResizedJpeg rt e bitmap orientation maxLongSide targetMax =
     (if \<not> isFiniteNumber maxLongSide \<or> numberOf maxLongSide \<le> 0 then
        Inl ''Invalid maxLongSidePx''
      else if \<not> isFiniteNumber targetMax \<or> numberOf targetMax \<le> 0 then
        Inl ''Invalid targetMaxBytes''
      else if \<not> hasOffscreenCanvas e then
        Inl ''OffscreenCanvas is required for worker pipeline''
      else
        (let srcW = bitmapWidth bitmap;
             srcH = bitmapHeight bitmap;
             oSize = orientedSize srcW srcH orientation;
             longSide = max (fst oSize) (snd oSize);
             scale = (if real longSide > numberOf maxLongSide
                      then numberOf maxLongSide / real longSide else 1)
         in Inr (resizeLoop rt e bitmap orientation (numberOf targetMax) oSize scale 0 [])))"

subsection \<open>MIME sniffing\<close>

text \<open>
  Strings are byte strings (UTF-8); \<^verbatim>\<open>toLowerCase\<close> is modelled on the ASCII letters,
  which is all that the comparisons with the MIME types and the file suffixes look at.
\<close>

definition toLowerCase :: "string \<Rightarrow> string" where
  "toLowerCase s =
     map (\<lambda>c. if 65 \<le> (of_char c :: nat) \<and> (of_char c :: nat) \<le> 90
              then char_of ((of_char c :: nat) + 32) else c) s"

definition endsWith :: "string \<Rightarrow> string \<Rightarrow> bool" where
  "endsWith s suf = (length suf \<le> length s \<and> drop (length s - length suf) s = suf)"

definition inferMime :: "File \<Rightarrow> string" where
  "inferMime file =
     (let t = fileType file in
      if t \<noteq> [] then toLowerCase t
      else
        (let name = toLowerCase (fileName file) in
         if endsWith name ''.heic'' then ''image/heic''
         else if endsWith name ''.heif'' then ''image/heif''
         else if endsWith name ''.jpg'' \<or> endsWith name ''.jpeg'' then ''image/jpeg''
         else if endsWith name ''.png'' then ''image/png''
         else if endsWith name ''.webp'' then ''image/webp''
         else []))"

definition isHeicLike :: "string \<Rightarrow> bool" where
  "isHeicLike mime =
     (mime = ''image/heic'' \<or> mime = ''image/heif'' \<or> mime = ''image/heic-sequence''
      \<or> mime = ''image/heif-sequence'')"

subsection \<open>Decode strategies\<close>

record Decoded =
  decodedBitmap :: ImageBitmap
  decodedOrientation :: nat
  orientationMode :: string

text \<open>
  The first \<^verbatim>\<open>createImageBitmap\<close> call is inside \<^verbatim>\<open>try\<close>; the second is not, and its
  rejection leaves the function (\<open>Inl\<close>). Each call made is an event.
\<close>

definition bitmapFromNonHeic :: "env \<Rightarrow> File \<Rightarrow> (string + Decoded) \<times> event list" where
  "bitmapFromNonHeic e file =
     (case createImageBitmapFromImage e file of
        Some bm \<Rightarrow>
          (Inr \<lparr>decodedBitmap = bm, decodedOrientation = 1, orientationMode = ''native_from-image''\<rparr>,
           [Decode ''native_from-image''])
      | None \<Rightarrow>
          (let mime = inferMime file;
               orientation = (if mime = ''image/jpeg''
                              then readJpegExifOrientation (arrayBuffer file) else 1)
           in (case createImageBitmap e file of
                 Inr bm \<Rightarrow>
                   Inr \<lparr>decodedBitmap = bm, decodedOrientation = orientation,
                        orientationMode = ''manual_exif_or_unknown''\<rparr>
               | Inl err \<Rightarrow> Inl err,
               [Decode ''native_from-image'', Decode ''manual_exif_or_unknown''])))"

text \<open>
  The second strategy of the HEIC path, on the decoder's function: a payload that is
  null or has a falsy width, height or pixel buffer is an error; the canvas needs
  \<^verbatim>\<open>OffscreenCanvas\<close>, and \<^verbatim>\<open>ImageData\<close> throws unless the buffer has four bytes a
  pixel (the texts of these two errors are the platform's).
\<close>

definition wasmDecode :: "env \<Rightarrow> (DataView \<Rightarrow> string + WasmPayload option) \<Rightarrow> File \<Rightarrow> string + Decoded" where
  "wasmDecode e decode file =
     (case decode (arrayBuffer file) of
        Inl err \<Rightarrow> Inl err
      | Inr None \<Rightarrow> Inl ''HEIC WASM decoder returned invalid payload''
      | Inr (Some decoded) \<Rightarrow>
          (if payloadWidth decoded = 0 \<or> payloadHeight decoded = 0 \<or> rgba decoded = None then
             Inl ''HEIC WASM decoder returned invalid payload''
           else
             (let w = payloadWidth decoded;
                  h = payloadHeight decoded;
                  orientation = (if payloadOrientation decoded = 0 then 1
                                 else payloadOrientation decoded)
              in if \<not> hasOffscreenCanvas e then Inl ''OffscreenCanvas is not defined''
                 else if rgba decoded \<noteq> Some (4 * w * h) then
                   Inl ''ImageData: the input data length is not equal to (4 * width * height)''
                 else
                   Inr \<lparr>decodedBitmap = \<lparr>bitmapWidth = w, bitmapHeight = h,
                                  bitmapPixels = payloadPixels decoded\<rparr>,
                        decodedOrientation = orientation, orientationMode = ''wasm_rgba''\<rparr>)))"

definition bitmapFromHeic :: "RUNTIME \<Rightarrow> env \<Rightarrow> File \<Rightarrow> (string + Decoded) \<times> event list" where
  "bitmapFromHeic rt e file =
     (let first =
            (case imageDecoder e of
               None \<Rightarrow> (None, [])
             | Some decode \<Rightarrow>
                 (decode file (if inferMime file \<noteq> [] then inferMime file else ''image/heic''),
                  [Decode ''webcodecs_imagedecoder'']))
      in case fst first of
           Some bm \<Rightarrow>
             (Inr \<lparr>decodedBitmap = bm, decodedOrientation = 1,
                   orientationMode = ''webcodecs_imagedecoder''\<rparr>, snd first)
         | None \<Rightarrow>
             (case (case heicWasm rt of None \<Rightarrow> None | Some h \<Rightarrow> decodeToRGBA h) of
                Some decode \<Rightarrow>
                  (wasmDecode e decode file, snd first @ [Decode ''wasm_rgba''])
              | None \<Rightarrow>
                  (Inl ''HEIC decode not available (no WebCodecs ImageDecoder and no WASM decoder provided)'',
                   snd first)))"

subsection \<open>Messages and responses\<close>

record Overrides =
  oJpegQualityStart :: jsval
  oJpegMinQuality :: jsval
  oJpegQualityStep :: jsval
  oMaxQualityIters :: jsval
  oMaxResizePasses :: jsval
  oResizeDownFactor :: jsval

text \<open>
  A message: \<open>msgType\<close> is \<^verbatim>\<open>String(msg.type)\<close>; the two \<open>cfg\<close> fields are what the
  optional chains \<^verbatim>\<open>config?.constraints?.images?.max_long_side_px\<close> and
  \<^verbatim>\<open>...?.target_max_bytes\<close> give (\<open>Undefined\<close> when a link is missing); \<open>overrides\<close> is
  \<^verbatim>\<open>msg.overrides || {}\<close>; \<open>msgRequestId\<close> is \<^verbatim>\<open>msg.requestId || ""\<close>; \<open>msgFile\<close> is
  \<open>None\<close> for a falsy \<^verbatim>\<open>msg.file\<close>.
\<close>

record Message =
  msgType :: string
  cfgMaxLongSidePx :: jsval
  cfgTargetMaxBytes :: jsval
  overrides :: Overrides
  heicWasmDecoder :: "HeicWasm option"
  msgRequestId :: string
  msgFile :: "File option"

text \<open>\<^verbatim>\<open>err(code, message, extra)\<close>: the properties of \<open>extra\<close> are optional.\<close>

record ErrorResponse =
  code :: string
  message :: string
  errType :: "string option"
  errRequestId :: "string option"
  detail :: "string option"

record InitOk =
  okMaxLongSidePx :: real
  okTargetMaxBytes :: "real option"
  hasHeicWasm :: bool
  hasWebCodecsImageDecoder :: bool
  warnings :: "string list"

record DebugOutput =
  outBytes :: nat
  outWidth :: int
  outHeight :: int
  outQuality :: real
  outScale :: real
  outPass :: real
  outIter :: real
  outBestEffortOverLimit :: bool

record ProcessOk =
  okRequestId :: string
  originalMime :: string
  originalBytes :: nat
  normalizedBytes :: nat
  normalizedWidth :: int
  normalizedHeight :: int
  debugInputMime :: string
  debugOrientation :: nat
  debugMode :: string
  debugSrcW :: nat
  debugSrcH :: nat
  debugOutput :: DebugOutput
  debugLimitMaxLongSidePx :: real
  debugLimitTargetMaxBytes :: "real option"

datatype Response =
    Err ErrorResponse
  | OkInit InitOk
  | OkProcess ProcessOk

definition err :: "string \<Rightarrow> string \<Rightarrow> string option \<Rightarrow> string option \<Rightarrow> string option \<Rightarrow> Response" where
  "err c m t r d = Err \<lparr>code = c, message = m, errType = t, errRequestId = r, detail = d\<rparr>"

text \<open>The texts that are not ASCII, as UTF-8. The first is the warning of
  \<^verbatim>\<open>init\<close> (with a dash), the other two are in Russian: "Config.DB has no
  constraints.images.target_max_bytes. Add this parameter, or the size of the JPEG cannot
  be guaranteed." and "Could not convert HEIC/HEIF offline. Choose a photo in JPEG/PNG."\<close>

definition warningTargetMissing :: string where
  "warningTargetMissing =
     ''Missing constraints.images.target_max_bytes in Config.DB '' @
     map char_of [226, 128, 148 :: nat] @
     '' processing will fail until provided.''"

definition messageTargetMissing :: string where
  "messageTargetMissing =
     map char_of [208, 146, 32 :: nat] @
     ''Config.DB'' @
     map char_of [32, 208, 189, 208, 181, 209, 130, 32 :: nat] @
     ''constraints.images.target_max_bytes.'' @
     map char_of [32, 208, 148, 208, 190, 208, 177, 208, 176, 208, 178, 209, 140, 32, 209, 141, 209, 130, 208, 190, 209, 130, 32, 208, 191, 208, 176, 209, 128, 208, 176, 208, 188, 208, 181, 209, 130, 209, 128, 44, 32, 208, 184, 208, 189, 208, 176, 209, 135, 208, 181, 32, 208, 189, 208, 181, 208, 187, 209, 140, 208, 183, 209, 143, 32, 208, 179, 208, 176, 209, 128, 208, 176, 208, 189, 209, 130, 208, 184, 209, 128, 208, 190, 208, 178, 208, 176, 209, 130, 209, 140, 32, 209, 128, 208, 176, 208, 183, 208, 188, 208, 181, 209, 128, 32 :: nat] @
     ''JPEG.''"

definition messageHeicFailed :: string where
  "messageHeicFailed =
     map char_of [208, 157, 208, 181, 32, 209, 131, 208, 180, 208, 176, 208, 187, 208, 190, 209, 129, 209, 140, 32, 208, 186, 208, 190, 208, 189, 208, 178, 208, 181, 209, 128, 209, 130, 208, 184, 209, 128, 208, 190, 208, 178, 208, 176, 209, 130, 209, 140, 32 :: nat] @
     ''HEIC/HEIF'' @
     map char_of [32, 208, 190, 209, 132, 208, 187, 208, 176, 208, 185, 208, 189, 46, 32, 208, 146, 209, 139, 208, 177, 208, 181, 209, 128, 208, 184, 209, 130, 208, 181, 32, 209, 132, 208, 190, 209, 130, 208, 190, 32, 208, 178, 32 :: nat] @
     ''JPEG/PNG.''"

subsection \<open>The message handler (onmessage)\<close>

text \<open>The \<^verbatim>\<open>init\<close> branch: the assignments to \<^verbatim>\<open>RUNTIME\<close>, then the acknowledgment.\<close>

definition initRuntime :: "RUNTIME \<Rightarrow> Message \<Rightarrow> RUNTIME" where
  "initRuntime rt msg =
     (let maxLongSide = cfgMaxLongSidePx msg;
          targetMax = cfgTargetMaxBytes msg;
          rt = rt\<lparr>maxLongSidePx := (if isFiniteNumber maxLongSide then numberOf maxLongSide else 2560)\<rparr>;
          rt = rt\<lparr>targetMaxBytes := (if isFiniteNumber targetMax then Some (numberOf targetMax) else None)\<rparr>;
          ov = overrides msg;
          rt = (if isFiniteNumber (oJpegQualityStart ov)
                then rt\<lparr>jpegQualityStart := numberOf (oJpegQualityStart ov)\<rparr> else rt);
          rt = (if isFiniteNumber (oJpegMinQuality ov)
                then rt\<lparr>jpegMinQuality := numberOf (oJpegMinQuality ov)\<rparr> else rt);
          rt = (if isFiniteNumber (oJpegQualityStep ov)
                then rt\<lparr>jpegQualityStep := numberOf (oJpegQualityStep ov)\<rparr> else rt);
          rt = (if isFiniteNumber (oMaxQualityIters ov)
                then rt\<lparr>maxQualityIters := numberOf (oMaxQualityIters ov)\<rparr> else rt);
          rt = (if isFiniteNumber (oMaxResizePasses ov)
                then rt\<lparr>maxResizePasses := numberOf (oMaxResizePasses ov)\<rparr> else rt);
          rt = (if isFiniteNumber (oResizeDownFactor ov)
                then rt\<lparr>resizeDownFactor := numberOf (oResizeDownFactor ov)\<rparr> else rt);
          rt = (case heicWasmDecoder msg of
                  Some d \<Rightarrow> rt\<lparr>heicWasm := Some d\<rparr>
                | None \<Rightarrow> rt)
      in rt\<lparr>ready := True\<rparr>)"

text \<open>\<^verbatim>\<open>!RUNTIME.targetMaxBytes\<close>: \<^verbatim>\<open>null\<close> and 0 are falsy.\<close>

definition targetMissing :: "RUNTIME \<Rightarrow> bool" where
  "targetMissing rt = (targetMaxBytes rt = None \<or> targetMaxBytes rt = Some 0)"

definition initResponse :: "RUNTIME \<Rightarrow> env \<Rightarrow> Response" where
  "initResponse rt e =
     (let warnings = (if targetMissing rt then [warningTargetMissing] else [])
      in OkInit \<lparr>okMaxLongSidePx = maxLongSidePx rt, okTargetMaxBytes = targetMaxBytes rt,
                 hasHeicWasm = (heicWasm rt \<noteq> None),
                 hasWebCodecsImageDecoder = (imageDecoder e \<noteq> None),
                 warnings = warnings\<rparr>)"

text \<open>The \<^verbatim>\<open>process\<close> branch after the decode: render, then the success payload. A
  throw of \<^verbatim>\<open>renderResizedJpeg\<close> reaches the outer \<^verbatim>\<open>catch\<close>.\<close>

definition processDecoded ::
    "RUNTIME \<Rightarrow> env \<Rightarrow> string \<Rightarrow> File \<Rightarrow> string \<Rightarrow> Decoded \<Rightarrow> event list
      \<Rightarrow> Response \<times> event list" where
  "processDecoded rt e requestId file mime decoded evs =
     (let bitmap = decodedBitmap decoded;
          orientation = (if decodedOrientation decoded = 0 then 1
                         else decodedOrientation decoded)
      in case renderResizedJpeg rt e bitmap orientation (Number (maxLongSidePx rt))
                (case targetMaxBytes rt of None \<Rightarrow> Null | Some b \<Rightarrow> Number b) of
           Inl m \<Rightarrow>
             (err ''E_WORKER_EXCEPTION'' ''Unhandled worker exception'' None None (Some m), evs)
         | Inr (normalized, revs) \<Rightarrow>
             (OkProcess
                \<lparr>okRequestId = requestId,
                 originalMime = (if mime \<noteq> [] then mime else fileType file),
                 originalBytes = fileSize file,
                 normalizedBytes = resBlobSize normalized,
                 normalizedWidth = resWidth normalized,
                 normalizedHeight = resHeight normalized,
                 debugInputMime = mime,
                 debugOrientation = orientation,
                 debugMode = orientationMode decoded,
                 debugSrcW = bitmapWidth bitmap,
                 debugSrcH = bitmapHeight bitmap,
                 debugOutput =
                   \<lparr>outBytes = resBlobSize normalized, outWidth = resWidth normalized,
                    outHeight = resHeight normalized, outQuality = resQuality normalized,
                    outScale = resScale normalized, outPass = resPass normalized,
                    outIter = resIter normalized,
                    outBestEffortOverLimit =
                      (case bestEffortOverLimit normalized of Some b \<Rightarrow> b | None \<Rightarrow> False)\<rparr>,
                 debugLimitMaxLongSidePx = maxLongSidePx rt,
                 debugLimitTargetMaxBytes = targetMaxBytes rt\<rparr>,
              evs @ revs))"

definition processRequest :: "RUNTIME \<Rightarrow> env \<Rightarrow> Message \<Rightarrow> Response \<times> event list" where
  "processRequest rt e msg =
     (if \<not> ready rt then
        (err ''E_NOT_INITIALIZED'' ''Worker is not initialized. Call init() first.''
           (Some ''process_err'') None None, [])
      else if targetMissing rt then
        (err ''E_CONFIG_TARGET_MAX_BYTES_MISSING'' messageTargetMissing
           (Some ''process_err'') None None, [])
      else
        (let requestId = msgRequestId msg in
         case msgFile msg of
           None \<Rightarrow>
             (err ''E_NO_FILE'' ''No file provided'' (Some ''process_err'') (Some requestId) None, [])
         | Some file \<Rightarrow>
             (let mime = inferMime file in
              if isHeicLike mime then
                (case bitmapFromHeic rt e file of
                   (Inl m, evs) \<Rightarrow>
                     (err ''E_HEIC_CONVERT_FAILED'' messageHeicFailed
                        (Some ''process_err'') (Some requestId) (Some m), evs)
                 | (Inr decoded, evs) \<Rightarrow> processDecoded rt e requestId file mime decoded evs)
              else
                (case bitmapFromNonHeic e file of
                   (Inl m, evs) \<Rightarrow>
                     (err ''E_WORKER_EXCEPTION'' ''Unhandled worker exception'' None None (Some m),
                      evs)
                 | (Inr decoded, evs) \<Rightarrow> processDecoded rt e requestId file mime decoded evs))))"

text \<open>
  One message: the new \<^verbatim>\<open>RUNTIME\<close>, the response posted, and the platform calls made.
\<close>

definition onmessage :: "RUNTIME \<Rightarrow> env \<Rightarrow> Message \<Rightarrow> RUNTIME \<times> Response \<times> event list" where
  "onmessage rt e msg =
     (if msgType msg = ''init'' then
        (let rt = initRuntime rt msg in (rt, initResponse rt e, []))
      else if msgType msg = ''process'' then
        (rt, processRequest rt e msg)
      else
        (rt, err ''E_UNKNOWN_MESSAGE'' (''Unknown message type: '' @ msgType msg)
               (Some ''unknown_err'') None None, []))"

text \<open>
  The worker handles its messages one after the other, each handler running to its end
  before the next message is taken: the runtime left by the last message, and the
  response and platform calls of each.
\<close>

fun worker :: "RUNTIME \<Rightarrow> env \<Rightarrow> Message list \<Rightarrow> RUNTIME \<times> (Response \<times> event list) list" where
  "worker rt e [] = (rt, [])"
| "worker rt e (msg # msgs) =
     (case onmessage rt e msg of
        (rt', out) \<Rightarrow> (case worker rt' e msgs of (rt'', outs) \<Rightarrow> (rt'', out # outs)))"

subsection \<open>Reading the log of platform calls\<close>

text \<open>The qualities of the encodes and the scales of the renders of a log, in order, and
  the side of a canvas for a side of the oriented raster at a scale.\<close>

fun encodeQualities :: "event list \<Rightarrow> real list" where
  "encodeQualities [] = []"
| "encodeQualities (Encode q sz # evs) = q # encodeQualities evs"
| "encodeQualities (_ # evs) = encodeQualities evs"

fun renderScales :: "event list \<Rightarrow> real list" where
  "renderScales [] = []"
| "renderScales (Render s w h # evs) = s # renderScales evs"
| "renderScales (_ # evs) = renderScales evs"

definition outDim :: "nat \<Rightarrow> real \<Rightarrow> int" where
  "outDim side scale = max 1 (round (real side * scale))"

text \<open>A stretch of the log as the renderer writes it for a raster of oriented size
  \<open>oSize\<close>: every render is of a canvas with the sides of \<open>oSize\<close> at its scale, every
  encode gives the size that the platform's encoder gives for a canvas rendered in the
  stretch at the quality of the encode, and nothing is decoded.\<close>

definition genuineLog :: "env \<Rightarrow> ImageBitmap \<Rightarrow> nat \<Rightarrow> nat \<times> nat \<Rightarrow> event list \<Rightarrow> bool" where
  "genuineLog e bitmap orientation oSize new =
     ((\<forall>s w h. Render s w h \<in> set new \<longrightarrow>
        w = outDim (fst oSize) s \<and> h = outDim (snd oSize) s) \<and>
      (\<forall>q sz. Encode q sz \<in> set new \<longrightarrow>
        (\<exists>s w h. Render s w h \<in> set new \<and>
           sz = convertToBlob e (renderCanvas bitmap orientation w h) q)) \<and>
      (\<forall>m. Decode m \<notin> set new))"

subsection \<open>Example inputs\<close>

text \<open>Rasters, a platform whose encoder gives 1000 bytes whatever the canvas and the
  quality, and two configurations: one with a single pass of a single quality iteration
  and a resize factor of 2, one with two passes of one iteration.\<close>

definition smallBitmap :: ImageBitmap where
  "smallBitmap = \<lparr>bitmapWidth = 100, bitmapHeight = 50, bitmapPixels = 0\<rparr>"

definition largeBlobs :: env where
  "largeBlobs =
     \<lparr>hasOffscreenCanvas = True, convertToBlob = (\<lambda>canvas q. 1000),
      createImageBitmapFromImage = (\<lambda>file. Some smallBitmap),
      createImageBitmap = (\<lambda>file. Inr smallBitmap), imageDecoder = None\<rparr>"

definition upscaling :: RUNTIME where
  "upscaling = RUNTIME_initial\<lparr>maxQualityIters := 1, maxResizePasses := 1, resizeDownFactor := 2\<rparr>"

definition photoBitmap :: ImageBitmap where
  "photoBitmap = \<lparr>bitmapWidth = 4000, bitmapHeight = 3000, bitmapPixels = 1\<rparr>"

definition twoPasses :: RUNTIME where
  "twoPasses = RUNTIME_initial\<lparr>maxQualityIters := 1, maxResizePasses := 2\<rparr>"

text \<open>What the two configurations give on these inputs, with a long-side limit of 2560
  and a byte limit of 10 (shown below).\<close>

definition upscalingResult :: RenderResult where
  "upscalingResult =
     \<lparr>resBlobSize = 1000, resWidth = 200, resHeight = 100, resQuality = 0.65,
      resScale = 2, resPass = 1, resIter = 1, bestEffortOverLimit = Some True\<rparr>"

definition upscalingEvents :: "event list" where
  "upscalingEvents = [Render 1 100 50, Encode 0.95 1000, Render 2 200 100, Encode 0.65 1000]"

definition twoPassesResult :: RenderResult where
  "twoPassesResult =
     \<lparr>resBlobSize = 1000, resWidth = 1555, resHeight = 2074, resQuality = 0.65,
      resScale = 0.5184, resPass = 2, resIter = 1, bestEffortOverLimit = Some True\<rparr>"

definition twoPassesEvents :: "event list" where
  "twoPassesEvents =
     [Render 0.64 1920 2560, Encode 0.95 1000, Render 0.576 1728 2304, Encode 0.95 1000,
      Render 0.5184 1555 2074, Encode 0.65 1000]"

text \<open>A configuration whose starting quality 0.5 is below the floor 0.65 (an override
  \<^verbatim>\<open>jpegQualityStart\<close> that \<^verbatim>\<open>init\<close> accepts), and what it gives for the small raster
  with a byte limit of 500000.\<close>

definition lowStart :: RUNTIME where
  "lowStart = RUNTIME_initial\<lparr>jpegQualityStart := 0.5\<rparr>"

definition lowStartResult :: RenderResult where
  "lowStartResult =
     \<lparr>resBlobSize = 1000, resWidth = 100, resHeight = 50, resQuality = 0.5,
      resScale = 1, resPass = 0, resIter = 0, bestEffortOverLimit = None\<rparr>"

text \<open>Messages, files and states of the worker: an \<^verbatim>\<open>init\<close> message with the two
  configured limits and nothing else, a \<^verbatim>\<open>process\<close> message with a request identifier
  and a file, the states after an \<^verbatim>\<open>init\<close> with a byte budget of -1, of 500000 and
  with none, a platform whose \<^verbatim>\<open>ImageDecoder\<close> fails, and an external HEIC decoder.\<close>

definition noOverrides :: Overrides where
  "noOverrides =
     \<lparr>oJpegQualityStart = Undefined, oJpegMinQuality = Undefined, oJpegQualityStep = Undefined,
      oMaxQualityIters = Undefined, oMaxResizePasses = Undefined, oResizeDownFactor = Undefined\<rparr>"

definition initMessage :: "jsval \<Rightarrow> jsval \<Rightarrow> Message" where
  "initMessage maxLongSide targetMax =
     \<lparr>msgType = ''init'', cfgMaxLongSidePx = maxLongSide, cfgTargetMaxBytes = targetMax,
      overrides = noOverrides, heicWasmDecoder = None, msgRequestId = [], msgFile = None\<rparr>"

definition processMessage :: "string \<Rightarrow> File option \<Rightarrow> Message" where
  "processMessage rid file =
     \<lparr>msgType = ''process'', cfgMaxLongSidePx = Undefined, cfgTargetMaxBytes = Undefined,
      overrides = noOverrides, heicWasmDecoder = None, msgRequestId = rid, msgFile = file\<rparr>"

definition pngFile :: File where
  "pngFile = \<lparr>fileType = ''image/png'', fileName = ''photo.png'', fileSize = 8,
              arrayBuffer = examplePng\<rparr>"

definition heicFile :: File where
  "heicFile = \<lparr>fileType = [], fileName = ''IMG_0001.HEIC'', fileSize = 0, arrayBuffer = []\<rparr>"

definition negativeBudget :: RUNTIME where
  "negativeBudget = RUNTIME_initial\<lparr>targetMaxBytes := Some (- 1), ready := True\<rparr>"

definition budget500k :: RUNTIME where
  "budget500k = RUNTIME_initial\<lparr>targetMaxBytes := Some 500000, ready := True\<rparr>"

definition noBudget :: RUNTIME where
  "noBudget = RUNTIME_initial\<lparr>ready := True\<rparr>"

definition failingImageDecoder :: env where
  "failingImageDecoder = largeBlobs\<lparr>imageDecoder := Some (\<lambda>file mime. None)\<rparr>"

definition examplePayload :: WasmPayload where
  "examplePayload =
     \<lparr>payloadWidth = 2, payloadHeight = 1, rgba = Some 8, payloadPixels = 7,
      payloadOrientation = 6\<rparr>"

definition exampleDecoder :: HeicWasm where
  "exampleDecoder = \<lparr>decodeToRGBA = Some (\<lambda>bytes. Inr (Some examplePayload))\<rparr>"

definition withWasm :: RUNTIME where
  "withWasm = budget500k\<lparr>heicWasm := Some exampleDecoder\<rparr>"

section \<open>Properties\<close>

subsection \<open>The EXIF orientation reader\<close>

declare scanIfd.simps [simp del] walkSegments.simps [simp del]

lemma scanIfd_range:
  "scanIfd dv little ifd0 entries i = Some v \<Longrightarrow> 1 \<le> v \<and> v \<le> 8"
proof (induction dv little ifd0 entries i rule: scanIfd.induct)
  case (1 dv little ifd0 entries i)
  from "1.prems" show ?case
    apply (subst (asm) scanIfd.simps)
    apply (auto simp: Let_def split: if_splits Option.bind_splits dest: "1.IH"[OF _ refl])
    done
qed

lemma scanIfd_entry:
  "scanIfd dv little ifd0 entries i = Some v \<Longrightarrow> v \<noteq> 1 \<Longrightarrow>
   \<exists>k. i \<le> k \<and> k < entries \<and>
       (\<forall>j. i \<le> j \<and> j < k \<longrightarrow> getUint16 dv (ifd0 + j * 12) little \<noteq> Some 0x0112) \<and>
       getUint16 dv (ifd0 + k * 12) little = Some 0x0112 \<and>
       getUint16 dv (ifd0 + k * 12 + 2) little = Some 3 \<and>
       getUint32 dv (ifd0 + k * 12 + 4) little = Some 1 \<and>
       getUint16 dv (ifd0 + k * 12 + 8) little = Some v"
proof (induction dv little ifd0 entries i rule: scanIfd.induct)
  case (1 dv little ifd0 entries i)
  let ?entry = "ifd0 + i * 12"
  from "1.prems" have lt: "i < entries" and inr: "\<not> ?entry + 12 > byteLength dv"
    by (subst (asm) scanIfd.simps, auto simp: Let_def split: if_splits)+
  then obtain tag where tag: "getUint16 dv ?entry little = Some tag"
    by (auto simp: getUint16_def Let_def)
  show ?case
  proof (cases "tag = 0x0112")
    case True
    with "1.prems" lt inr tag show ?thesis
      apply (subst (asm) scanIfd.simps)
      apply (rule exI[of _ i])
      apply (auto simp: Let_def split: if_splits Option.bind_splits)
      done
  next
    case False
    with "1.prems" lt inr tag have "scanIfd dv little ifd0 entries (i + 1) = Some v"
      by (subst (asm) scanIfd.simps) (auto simp: Let_def)
    from "1.IH"[OF lt refl inr tag False this \<open>v \<noteq> 1\<close>] obtain k where
      k: "i + 1 \<le> k" "k < entries"
        "\<forall>j. i + 1 \<le> j \<and> j < k \<longrightarrow> getUint16 dv (ifd0 + j * 12) little \<noteq> Some 0x0112"
        "getUint16 dv (ifd0 + k * 12) little = Some 0x0112"
        "getUint16 dv (ifd0 + k * 12 + 2) little = Some 3"
        "getUint32 dv (ifd0 + k * 12 + 4) little = Some 1"
        "getUint16 dv (ifd0 + k * 12 + 8) little = Some v"
      by blast
    have "\<forall>j. i \<le> j \<and> j < k \<longrightarrow> getUint16 dv (ifd0 + j * 12) little \<noteq> Some 0x0112"
    proof (intro allI impI)
      fix j assume "i \<le> j \<and> j < k"
      then consider "j = i" | "i + 1 \<le> j \<and> j < k" by linarith
      then show "getUint16 dv (ifd0 + j * 12) little \<noteq> Some 0x0112"
        using tag False k(3) by cases auto
    qed
    with k show ?thesis by (intro exI[of _ k]) auto
  qed
qed

lemma parseExif_range: "parseExif dv off = Some v \<Longrightarrow> 1 \<le> v \<and> v \<le> 8"
  by (auto simp: parseExif_def Let_def split: if_splits Option.bind_splits dest: scanIfd_range)

lemma walkSegments_range: "walkSegments dv offset = Some v \<Longrightarrow> 1 \<le> v \<and> v \<le> 8"
proof (induction dv offset rule: walkSegments.induct)
  case (1 dv offset)
  from "1.prems" show ?case
    apply (subst (asm) walkSegments.simps)
    apply (auto split: if_splits Option.bind_splits dest: parseExif_range "1.IH")
    done
qed

lemma parseExif_entry:
  assumes "parseExif dv off = Some v" and "v \<noteq> 1"
  shows "\<exists>little ifd0Rel entries k.
       little = (getUint16 dv (off + 6) False = Some 0x4949) \<and>
       getUint16 dv (off + 8) little = Some 0x002A \<and>
       getUint32 dv (off + 10) little = Some ifd0Rel \<and>
       getUint16 dv (off + 6 + ifd0Rel) little = Some entries \<and> k < entries \<and>
       (\<forall>j<k. getUint16 dv (off + 8 + ifd0Rel + j * 12) little \<noteq> Some 0x0112) \<and>
       getUint16 dv (off + 8 + ifd0Rel + k * 12) little = Some 0x0112 \<and>
       getUint16 dv (off + 8 + ifd0Rel + k * 12 + 2) little = Some 3 \<and>
       getUint32 dv (off + 8 + ifd0Rel + k * 12 + 4) little = Some 1 \<and>
       getUint16 dv (off + 8 + ifd0Rel + k * 12 + 8) little = Some v"
proof -
  from assms obtain bo ifd0Rel entries where
    bo: "getUint16 dv (off + 6) False = Some bo" and
    magic: "getUint16 dv (off + 8) (bo = 0x4949) = Some 0x002A" and
    rel: "getUint32 dv (off + 10) (bo = 0x4949) = Some ifd0Rel" and
    ent: "getUint16 dv (off + 6 + ifd0Rel) (bo = 0x4949) = Some entries" and
    scan: "scanIfd dv (bo = 0x4949) (off + 6 + ifd0Rel + 2) entries 0 = Some v"
    by (fastforce simp: parseExif_def Let_def ac_simps split: if_splits Option.bind_splits)
  from scanIfd_entry[OF scan assms(2)] obtain k where
    k: "k < entries"
      "(\<forall>j. 0 \<le> j \<and> j < k \<longrightarrow> getUint16 dv (off + 6 + ifd0Rel + 2 + j * 12) (bo = 0x4949) \<noteq> Some 0x0112)"
      "getUint16 dv (off + 6 + ifd0Rel + 2 + k * 12) (bo = 0x4949) = Some 0x0112"
      "getUint16 dv (off + 6 + ifd0Rel + 2 + k * 12 + 2) (bo = 0x4949) = Some 3"
      "getUint32 dv (off + 6 + ifd0Rel + 2 + k * 12 + 4) (bo = 0x4949) = Some 1"
      "getUint16 dv (off + 6 + ifd0Rel + 2 + k * 12 + 8) (bo = 0x4949) = Some v"
    by blast
  have e: "off + 6 + ifd0Rel + 2 = off + 8 + ifd0Rel" by simp
  from bo have l: "(bo = 0x4949) = (getUint16 dv (off + 6) False = Some 0x4949)" by auto
  show ?thesis
    apply (rule exI[of _ "bo = 0x4949"], rule exI[of _ ifd0Rel], rule exI[of _ entries],
           rule exI[of _ k])
    using k magic rel ent unfolding e l by auto
qed

lemma walk_skip:
  assumes "offset + 4 < byteLength dv" and "getUint16 dv offset False = Some marker"
    and "marker \<noteq> 0xFFD9" and "marker \<noteq> 0xFFDA"
    and "getUint16 dv (offset + 2) False = Some len" and "2 \<le> len"
    and "marker \<noteq> 0xFFE1 \<or> exifHeader dv (offset + 4) = Some False"
  shows "walkSegments dv offset = walkSegments dv (offset + 4 + (len - 2))"
  using assms by (subst walkSegments.simps) auto

lemma reaches_walk:
  "reaches dv offset \<Longrightarrow> walkSegments dv 2 = walkSegments dv offset"
proof (induction rule: reaches.induct)
  case start
  show ?case by simp
next
  case (skip offset marker len)
  from walk_skip[OF skip.hyps(2-8)] skip.IH show ?case by simp
qed

lemma walk_exifSegment:
  "exifSegmentAt dv offset \<Longrightarrow> walkSegments dv offset = parseExif dv (offset + 4)"
  by (subst walkSegments.simps) (auto simp: exifSegmentAt_def split: option.splits)

lemma walkSegments_reaches:
  "walkSegments dv offset = Some v \<Longrightarrow> v \<noteq> 1 \<Longrightarrow> reaches dv offset \<Longrightarrow>
   \<exists>off. reaches dv off \<and> exifSegmentAt dv off \<and> parseExif dv (off + 4) = Some v"
proof (induction dv offset rule: walkSegments.induct)
  case (1 dv offset)
  from "1.prems"(1,2) have lt: "offset + 4 < byteLength dv"
    by (subst (asm) walkSegments.simps) (auto split: if_splits)
  then obtain marker len where m: "getUint16 dv offset False = Some marker"
    and s: "getUint16 dv (offset + 2) False = Some len"
    by (auto simp: getUint16_def Let_def)
  from "1.prems"(1,2) lt m s have ok: "marker \<noteq> 0xFFD9" "marker \<noteq> 0xFFDA" "2 \<le> len"
    by (subst (asm) walkSegments.simps, auto split: if_splits)+
  show ?case
  proof (cases "marker = 0xFFE1 \<and> exifHeader dv (offset + 4) = Some True")
    case True
    then have seg: "exifSegmentAt dv offset"
      using lt m s ok by (simp add: exifSegmentAt_def)
    from walk_exifSegment[OF seg] "1.prems"(1) have "parseExif dv (offset + 4) = Some v" by simp
    with seg "1.prems"(3) show ?thesis by blast
  next
    case False
    have hdr: "marker = 0xFFE1 \<Longrightarrow> exifHeader dv (offset + 4) = Some False"
    proof -
      assume e: "marker = 0xFFE1"
      from "1.prems"(1,2) lt m s ok e have "exifHeader dv (offset + 4) \<noteq> None"
        by (subst (asm) walkSegments.simps) (auto split: if_splits Option.bind_splits)
      with False e show ?thesis by (cases "exifHeader dv (offset + 4)") auto
    qed
    then have cont: "marker \<noteq> 0xFFE1 \<or> exifHeader dv (offset + 4) = Some False" by blast
    have next_walk: "walkSegments dv (offset + 4 + (len - 2)) = Some v"
      using walk_skip[OF lt m ok(1,2) s ok(3) cont] "1.prems"(1) by simp
    have r: "reaches dv (offset + 4 + (len - 2))"
      using reaches.skip[OF "1.prems"(3) lt m ok(1,2) s ok(3) cont] .
    show ?thesis
    proof (cases "marker = 0xFFE1")
      case True
      with hdr have h: "exifHeader dv (offset + 4) = Some False" by simp
      from "1.IH"(1)[OF lt m _ s _ True h _ next_walk "1.prems"(2) r] ok
      show ?thesis by simp
    next
      case ne: False
      from "1.IH"(2)[OF lt m _ s _ ne next_walk "1.prems"(2) r] ok
      show ?thesis by simp
    qed
  qed
qed

text \<open>What the scan of IFD0 gives when its first entry with tag 0x0112 is the entry \<open>k\<close>.\<close>

lemma scanIfd_first:
  assumes "i \<le> k" and "k < entries"
    and "\<forall>j. i \<le> j \<and> j < k \<longrightarrow> getUint16 dv (ifd0 + j * 12) little \<noteq> Some 0x0112"
    and "getUint16 dv (ifd0 + k * 12) little = Some 0x0112"
  shows "scanIfd dv little ifd0 entries i =
     (if ifd0 + k * 12 + 12 > byteLength dv then Some 1
      else do {
        type \<leftarrow> getUint16 dv (ifd0 + k * 12 + 2) little;
        count \<leftarrow> getUint32 dv (ifd0 + k * 12 + 4) little;
        value \<leftarrow> getUint16 dv (ifd0 + k * 12 + 8) little;
        Some (if type = 3 \<and> count = 1 \<and> 1 \<le> value \<and> value \<le> 8 then value else 1)
      })"
  using assms
proof (induction "k - i" arbitrary: i)
  case 0
  then have ik: "i = k" by simp
  show ?case
    unfolding ik using "0.prems"(2,4)
    by (subst scanIfd.simps) (auto simp: Let_def getUint16_def getUint32_def)
next
  case (Suc n)
  then have lt: "i < k" by simp
  from "Suc.prems"(4) have inr: "ifd0 + k * 12 + 2 \<le> byteLength dv"
    by (simp add: getUint16_def split: if_splits)
  have "i * 12 + 12 \<le> k * 12" using lt by simp
  with inr have ir: "\<not> ifd0 + i * 12 + 12 > byteLength dv" by simp
  then obtain tag where tag: "getUint16 dv (ifd0 + i * 12) little = Some tag"
    by (auto simp: getUint16_def Let_def)
  from "Suc.prems"(3) lt tag have ne: "tag \<noteq> 0x0112" by auto
  have step: "scanIfd dv little ifd0 entries i = scanIfd dv little ifd0 entries (i + 1)"
    using lt "Suc.prems"(2) ir tag ne by (subst scanIfd.simps) (simp add: Let_def)
  have a: "n = k - (i + 1)" using Suc.hyps(2) by simp
  have b: "i + 1 \<le> k" using lt by simp
  have c: "\<forall>j. i + 1 \<le> j \<and> j < k \<longrightarrow> getUint16 dv (ifd0 + j * 12) little \<noteq> Some 0x0112"
    using "Suc.prems"(3) by auto
  from Suc.hyps(1)[OF a b "Suc.prems"(2) c "Suc.prems"(4)] step show ?case by simp
qed

lemma parseExif_bad_magic:
  assumes "little = (getUint16 dv (off + 6) False = Some 0x4949)"
    and "getUint16 dv (off + 8) little \<noteq> Some 0x002A"
  shows "parseExif dv off = None \<or> parseExif dv off = Some 1"
  using assms
  by (auto simp: parseExif_def Let_def ac_simps split: Option.bind_splits)

lemma parseExif_first_entry:
  assumes "little = (getUint16 dv (off + 6) False = Some 0x4949)"
    and "getUint16 dv (off + 8) little = Some 0x002A"
    and "getUint32 dv (off + 10) little = Some ifd0Rel"
    and "getUint16 dv (off + 6 + ifd0Rel) little = Some entries"
    and "k < entries"
    and "\<forall>j<k. getUint16 dv (off + 8 + ifd0Rel + j * 12) little \<noteq> Some 0x0112"
    and "getUint16 dv (off + 8 + ifd0Rel + k * 12) little = Some 0x0112"
  shows "parseExif dv off =
     (if off + 8 + ifd0Rel + k * 12 + 12 > byteLength dv then Some 1
      else do {
        type \<leftarrow> getUint16 dv (off + 8 + ifd0Rel + k * 12 + 2) little;
        count \<leftarrow> getUint32 dv (off + 8 + ifd0Rel + k * 12 + 4) little;
        value \<leftarrow> getUint16 dv (off + 8 + ifd0Rel + k * 12 + 8) little;
        Some (if type = 3 \<and> count = 1 \<and> 1 \<le> value \<and> value \<le> 8 then value else 1)
      })"
proof -
  from assms(2) have r8: "off + 10 \<le> byteLength dv"
    by (simp add: getUint16_def split: if_splits)
  then obtain bo where bo: "getUint16 dv (off + 6) False = Some bo"
    by (auto simp: getUint16_def Let_def)
  with assms(1) have l: "little = (bo = 0x4949)" by auto
  from assms(4) have r: "\<not> off + 6 + ifd0Rel + 2 > byteLength dv"
    by (simp add: getUint16_def split: if_splits)
  have e: "off + 6 + ifd0Rel + 2 = off + 8 + ifd0Rel" by simp
  have pe: "parseExif dv off = scanIfd dv little (off + 8 + ifd0Rel) entries 0"
    using bo assms(2,3,4) r unfolding l
    by (simp add: parseExif_def Let_def ac_simps)
  have pre: "\<forall>j. 0 \<le> j \<and> j < k \<longrightarrow>
      getUint16 dv (off + 8 + ifd0Rel + j * 12) little \<noteq> Some 0x0112"
    using assms(6) by auto
  show ?thesis
    unfolding pe by (rule scanIfd_first[OF _ assms(5) pre assms(7)]) simp
qed

lemma reader_at_segment:
  assumes "getUint16 dv 0 False = Some 0xFFD8" and "reaches dv off" and "exifSegmentAt dv off"
  shows "readJpegExifOrientation dv = (case parseExif dv (off + 4) of None \<Rightarrow> 1 | Some v \<Rightarrow> v)"
  using reaches_walk[OF assms(2)] walk_exifSegment[OF assms(3)] assms(1)
  by (simp add: readJpegExifOrientation_def)

lemma reader_segment:
  assumes "readJpegExifOrientation dv \<noteq> 1"
  shows "getUint16 dv 0 False = Some 0xFFD8 \<and>
    (\<exists>off. reaches dv off \<and> exifSegmentAt dv off \<and>
       parseExif dv (off + 4) = Some (readJpegExifOrientation dv))"
proof -
  let ?r = "readJpegExifOrientation dv"
  from assms have soi: "getUint16 dv 0 False = Some 0xFFD8" and walk: "walkSegments dv 2 = Some ?r"
    by (auto simp: readJpegExifOrientation_def split: option.splits if_splits Option.bind_splits)
  from walkSegments_reaches[OF walk assms reaches.start] soi show ?thesis by blast
qed

lemmas eval_reads = getUint16_def getUint32_def byteLength_def exifHeader_def exifSegmentAt_def
  Let_def

lemma reaches_littleEndianJpeg: "reaches littleEndianJpeg 8"
proof -
  have "reaches littleEndianJpeg (2 + 4 + (4 - 2))"
    by (rule reaches.skip[OF reaches.start, where marker = "0xFFE0"])
       (simp_all add: eval_reads littleEndianJpeg_def)
  then show ?thesis by simp
qed

text \<open>
  Claim C2. For every byte stream the reader returns a value between 1 and 8 (the model
  is a total function, and every RangeError of a read is the \<open>None\<close> that the
  \<^verbatim>\<open>catch\<close> clause turns into 1). The result is 1 when the stream does not start
  with the SOI marker, when no offset of the stream carries the Exif signature, and when
  the walk over the marker segments reaches no APP1 segment with the signature. When it
  reaches one, that segment decides the result, with \<open>p\<close> the offset of its signature
  and the byte order \<open>little\<close> read from its TIFF header: the result is 1 when the magic
  number read in that byte order is not 0x002A; and with the magic number there and
  \<open>k\<close> the first IFD0 entry with tag 0x0112, the result is 1 when the 12 bytes of the
  entry do not fit in the stream, and otherwise is the value of the entry when its type is
  3 (short), its count is 1 and the value lies in 1..8, and 1 in every other case. So a
  result other than 1 is the value of such an entry of the segment that the walk reaches.
\<close>

theorem readJpegExifOrientation_total:
  "1 \<le> readJpegExifOrientation dv \<and> readJpegExifOrientation dv \<le> 8 \<and>
   (getUint16 dv 0 False \<noteq> Some 0xFFD8 \<longrightarrow> readJpegExifOrientation dv = 1) \<and>
   ((\<forall>off. exifHeader dv off \<noteq> Some True) \<longrightarrow> readJpegExifOrientation dv = 1) \<and>
   ((\<forall>off. \<not> (reaches dv off \<and> exifSegmentAt dv off)) \<longrightarrow> readJpegExifOrientation dv = 1) \<and>
   (\<forall>off p little.
      getUint16 dv 0 False = Some 0xFFD8 \<and> reaches dv off \<and> exifSegmentAt dv off \<and>
      p = off + 4 \<and> little = (getUint16 dv (p + 6) False = Some 0x4949) \<longrightarrow>
      (getUint16 dv (p + 8) little \<noteq> Some 0x002A \<longrightarrow> readJpegExifOrientation dv = 1) \<and>
      (\<forall>ifd0Rel entries k.
         getUint16 dv (p + 8) little = Some 0x002A \<and>
         getUint32 dv (p + 10) little = Some ifd0Rel \<and>
         getUint16 dv (p + 6 + ifd0Rel) little = Some entries \<and> k < entries \<and>
         (\<forall>j<k. getUint16 dv (p + 8 + ifd0Rel + j * 12) little \<noteq> Some 0x0112) \<and>
         getUint16 dv (p + 8 + ifd0Rel + k * 12) little = Some 0x0112 \<longrightarrow>
         (p + 8 + ifd0Rel + k * 12 + 12 > byteLength dv \<longrightarrow> readJpegExifOrientation dv = 1) \<and>
         (\<forall>type count value.
            p + 8 + ifd0Rel + k * 12 + 12 \<le> byteLength dv \<and>
            getUint16 dv (p + 8 + ifd0Rel + k * 12 + 2) little = Some type \<and>
            getUint32 dv (p + 8 + ifd0Rel + k * 12 + 4) little = Some count \<and>
            getUint16 dv (p + 8 + ifd0Rel + k * 12 + 8) little = Some value \<longrightarrow>
            readJpegExifOrientation dv =
              (if type = 3 \<and> count = 1 \<and> 1 \<le> value \<and> value \<le> 8 then value else 1)))) \<and>
   (readJpegExifOrientation dv \<noteq> 1 \<longrightarrow>
      (\<exists>off p little ifd0Rel entries k.
         reaches dv off \<and> exifSegmentAt dv off \<and> p = off + 4 \<and>
         exifHeader dv p = Some True \<and>
         little = (getUint16 dv (p + 6) False = Some 0x4949) \<and>
         getUint16 dv (p + 8) little = Some 0x002A \<and>
         getUint32 dv (p + 10) little = Some ifd0Rel \<and>
         getUint16 dv (p + 6 + ifd0Rel) little = Some entries \<and> k < entries \<and>
         (\<forall>j<k. getUint16 dv (p + 8 + ifd0Rel + j * 12) little \<noteq> Some 0x0112) \<and>
         getUint16 dv (p + 8 + ifd0Rel + k * 12) little = Some 0x0112 \<and>
         getUint16 dv (p + 8 + ifd0Rel + k * 12 + 2) little = Some 3 \<and>
         getUint32 dv (p + 8 + ifd0Rel + k * 12 + 4) little = Some 1 \<and>
         getUint16 dv (p + 8 + ifd0Rel + k * 12 + 8) little =
           Some (readJpegExifOrientation dv)))"
  (is "?range1 \<and> ?range2 \<and> ?soi \<and> ?nosig \<and> ?noseg \<and> ?decided \<and> ?entry")
proof -
  let ?r = "readJpegExifOrientation dv"
  have range: "1 \<le> ?r \<and> ?r \<le> 8"
    by (auto simp: readJpegExifOrientation_def
             split: option.splits if_splits Option.bind_splits dest: walkSegments_range)
  then have r1: ?range1 and r2: ?range2 by simp_all
  have soi: ?soi
    by (auto simp: readJpegExifOrientation_def split: option.splits Option.bind_splits)
  have noseg: ?noseg using reader_segment[of dv] by blast
  have nosig: ?nosig
  proof
    assume a: "\<forall>off. exifHeader dv off \<noteq> Some True"
    show "?r = 1"
    proof (rule ccontr)
      assume "?r \<noteq> 1"
      from reader_segment[OF this] obtain off where "exifSegmentAt dv off" by blast
      then have "exifHeader dv (off + 4) = Some True" by (simp add: exifSegmentAt_def)
      with a show False by blast
    qed
  qed
  have decided: ?decided
  proof (intro allI impI, elim conjE)
    fix off p little
    assume s: "getUint16 dv 0 False = Some 0xFFD8" "reaches dv off" "exifSegmentAt dv off"
      and p: "p = off + 4" and l: "little = (getUint16 dv (p + 6) False = Some 0x4949)"
    have at: "?r = (case parseExif dv p of None \<Rightarrow> 1 | Some v \<Rightarrow> v)"
      unfolding p by (rule reader_at_segment[OF s])
    have bad: "getUint16 dv (p + 8) little \<noteq> Some 0x002A \<longrightarrow> ?r = 1"
    proof
      assume "getUint16 dv (p + 8) little \<noteq> Some 0x002A"
      from parseExif_bad_magic[OF l this] show "?r = 1" unfolding at by auto
    qed
    have ent: "\<forall>ifd0Rel entries k.
         getUint16 dv (p + 8) little = Some 0x002A \<and>
         getUint32 dv (p + 10) little = Some ifd0Rel \<and>
         getUint16 dv (p + 6 + ifd0Rel) little = Some entries \<and> k < entries \<and>
         (\<forall>j<k. getUint16 dv (p + 8 + ifd0Rel + j * 12) little \<noteq> Some 0x0112) \<and>
         getUint16 dv (p + 8 + ifd0Rel + k * 12) little = Some 0x0112 \<longrightarrow>
         (p + 8 + ifd0Rel + k * 12 + 12 > byteLength dv \<longrightarrow> ?r = 1) \<and>
         (\<forall>type count value.
            p + 8 + ifd0Rel + k * 12 + 12 \<le> byteLength dv \<and>
            getUint16 dv (p + 8 + ifd0Rel + k * 12 + 2) little = Some type \<and>
            getUint32 dv (p + 8 + ifd0Rel + k * 12 + 4) little = Some count \<and>
            getUint16 dv (p + 8 + ifd0Rel + k * 12 + 8) little = Some value \<longrightarrow>
            ?r = (if type = 3 \<and> count = 1 \<and> 1 \<le> value \<and> value \<le> 8 then value else 1))"
    proof (intro allI impI, elim conjE)
      fix ifd0Rel entries k
      assume h: "getUint16 dv (p + 8) little = Some 0x002A"
        "getUint32 dv (p + 10) little = Some ifd0Rel"
        "getUint16 dv (p + 6 + ifd0Rel) little = Some entries" "k < entries"
        "\<forall>j<k. getUint16 dv (p + 8 + ifd0Rel + j * 12) little \<noteq> Some 0x0112"
        "getUint16 dv (p + 8 + ifd0Rel + k * 12) little = Some 0x0112"
      note pe = parseExif_first_entry[OF l h]
      have trunc: "p + 8 + ifd0Rel + k * 12 + 12 > byteLength dv \<longrightarrow> ?r = 1"
        unfolding at pe by simp
      have full: "\<forall>type count value.
            p + 8 + ifd0Rel + k * 12 + 12 \<le> byteLength dv \<and>
            getUint16 dv (p + 8 + ifd0Rel + k * 12 + 2) little = Some type \<and>
            getUint32 dv (p + 8 + ifd0Rel + k * 12 + 4) little = Some count \<and>
            getUint16 dv (p + 8 + ifd0Rel + k * 12 + 8) little = Some value \<longrightarrow>
            ?r = (if type = 3 \<and> count = 1 \<and> 1 \<le> value \<and> value \<le> 8 then value else 1)"
        unfolding at pe by simp
      from trunc full show "(p + 8 + ifd0Rel + k * 12 + 12 > byteLength dv \<longrightarrow> ?r = 1) \<and>
         (\<forall>type count value.
            p + 8 + ifd0Rel + k * 12 + 12 \<le> byteLength dv \<and>
            getUint16 dv (p + 8 + ifd0Rel + k * 12 + 2) little = Some type \<and>
            getUint32 dv (p + 8 + ifd0Rel + k * 12 + 4) little = Some count \<and>
            getUint16 dv (p + 8 + ifd0Rel + k * 12 + 8) little = Some value \<longrightarrow>
            ?r = (if type = 3 \<and> count = 1 \<and> 1 \<le> value \<and> value \<le> 8 then value else 1))"
        by (rule conjI)
    qed
    from bad ent show "(getUint16 dv (p + 8) little \<noteq> Some 0x002A \<longrightarrow> ?r = 1) \<and>
      (\<forall>ifd0Rel entries k.
         getUint16 dv (p + 8) little = Some 0x002A \<and>
         getUint32 dv (p + 10) little = Some ifd0Rel \<and>
         getUint16 dv (p + 6 + ifd0Rel) little = Some entries \<and> k < entries \<and>
         (\<forall>j<k. getUint16 dv (p + 8 + ifd0Rel + j * 12) little \<noteq> Some 0x0112) \<and>
         getUint16 dv (p + 8 + ifd0Rel + k * 12) little = Some 0x0112 \<longrightarrow>
         (p + 8 + ifd0Rel + k * 12 + 12 > byteLength dv \<longrightarrow> ?r = 1) \<and>
         (\<forall>type count value.
            p + 8 + ifd0Rel + k * 12 + 12 \<le> byteLength dv \<and>
            getUint16 dv (p + 8 + ifd0Rel + k * 12 + 2) little = Some type \<and>
            getUint32 dv (p + 8 + ifd0Rel + k * 12 + 4) little = Some count \<and>
            getUint16 dv (p + 8 + ifd0Rel + k * 12 + 8) little = Some value \<longrightarrow>
            ?r = (if type = 3 \<and> count = 1 \<and> 1 \<le> value \<and> value \<le> 8 then value else 1)))"
      by (rule conjI)
  qed
  have entry: ?entry
  proof
    assume ne: "?r \<noteq> 1"
    from reader_segment[OF ne] obtain off where
      s: "reaches dv off" "exifSegmentAt dv off" and pe: "parseExif dv (off + 4) = Some ?r"
      by blast
    from s(2) have h: "exifHeader dv (off + 4) = Some True" by (simp add: exifSegmentAt_def)
    from parseExif_entry[OF pe ne] obtain little ifd0Rel entries k where e:
      "little = (getUint16 dv (off + 4 + 6) False = Some 0x4949)"
      "getUint16 dv (off + 4 + 8) little = Some 0x002A"
      "getUint32 dv (off + 4 + 10) little = Some ifd0Rel"
      "getUint16 dv (off + 4 + 6 + ifd0Rel) little = Some entries" "k < entries"
      "\<forall>j<k. getUint16 dv (off + 4 + 8 + ifd0Rel + j * 12) little \<noteq> Some 0x0112"
      "getUint16 dv (off + 4 + 8 + ifd0Rel + k * 12) little = Some 0x0112"
      "getUint16 dv (off + 4 + 8 + ifd0Rel + k * 12 + 2) little = Some 3"
      "getUint32 dv (off + 4 + 8 + ifd0Rel + k * 12 + 4) little = Some 1"
      "getUint16 dv (off + 4 + 8 + ifd0Rel + k * 12 + 8) little = Some ?r"
      by blast
    show "\<exists>off p little ifd0Rel entries k.
         reaches dv off \<and> exifSegmentAt dv off \<and> p = off + 4 \<and>
         exifHeader dv p = Some True \<and>
         little = (getUint16 dv (p + 6) False = Some 0x4949) \<and>
         getUint16 dv (p + 8) little = Some 0x002A \<and>
         getUint32 dv (p + 10) little = Some ifd0Rel \<and>
         getUint16 dv (p + 6 + ifd0Rel) little = Some entries \<and> k < entries \<and>
         (\<forall>j<k. getUint16 dv (p + 8 + ifd0Rel + j * 12) little \<noteq> Some 0x0112) \<and>
         getUint16 dv (p + 8 + ifd0Rel + k * 12) little = Some 0x0112 \<and>
         getUint16 dv (p + 8 + ifd0Rel + k * 12 + 2) little = Some 3 \<and>
         getUint32 dv (p + 8 + ifd0Rel + k * 12 + 4) little = Some 1 \<and>
         getUint16 dv (p + 8 + ifd0Rel + k * 12 + 8) little = Some ?r"
      apply (rule exI[of _ off], rule exI[of _ "off + 4"], rule exI[of _ little],
             rule exI[of _ ifd0Rel], rule exI[of _ entries], rule exI[of _ k])
      apply (intro conjI)
      apply (rule s h e refl)+
      done
  qed
  show ?thesis
    by (intro conjI) (rule r1 r2 soi nosig noseg decided entry)+
qed

theorem readJpegExifOrientation_total_witness:
  "getUint16 exampleJpeg 0 False = Some 0xFFD8 \<and> reaches exampleJpeg 2 \<and>
   exifSegmentAt exampleJpeg 2 \<and>
   getUint16 exampleJpeg (6 + 8) False = Some 0x002A \<and>
   getUint16 exampleJpeg (6 + 8 + 8 + 0 * 12) False = Some 0x0112 \<and>
   readJpegExifOrientation exampleJpeg = 6 \<and>
   getUint16 badMagicJpeg 0 False = Some 0xFFD8 \<and> reaches badMagicJpeg 2 \<and>
   exifSegmentAt badMagicJpeg 2 \<and>
   getUint16 badMagicJpeg (6 + 8) False \<noteq> Some 0x002A \<and>
   readJpegExifOrientation badMagicJpeg = 1 \<and>
   getUint16 littleEndianJpeg 0 False = Some 0xFFD8 \<and> reaches littleEndianJpeg 8 \<and>
   exifSegmentAt littleEndianJpeg 8 \<and>
   getUint16 littleEndianJpeg (12 + 8) True = Some 0x002A \<and>
   getUint16 littleEndianJpeg (12 + 8 + 8 + 0 * 12) True = Some 0x0112 \<and>
   readJpegExifOrientation littleEndianJpeg = 8 \<and>
   getUint16 examplePng 0 False \<noteq> Some 0xFFD8 \<and>
   readJpegExifOrientation examplePng = 1"
proof -
  have a1: "getUint16 exampleJpeg 0 False = Some 0xFFD8"
    and a3: "exifSegmentAt exampleJpeg 2"
    and a4: "False = (getUint16 exampleJpeg (6 + 6) False = Some 0x4949)"
    and a5: "getUint16 exampleJpeg (6 + 8) False = Some 0x002A"
    and a6: "getUint32 exampleJpeg (6 + 10) False = Some 8"
    and a7: "getUint16 exampleJpeg (6 + 6 + 8) False = Some 1"
    and a8: "getUint16 exampleJpeg (6 + 8 + 8 + 0 * 12) False = Some 0x0112"
    and a9: "6 + 8 + 8 + 0 * 12 + 12 \<le> byteLength exampleJpeg"
    and a10: "getUint16 exampleJpeg (6 + 8 + 8 + 0 * 12 + 2) False = Some 3"
    and a11: "getUint32 exampleJpeg (6 + 8 + 8 + 0 * 12 + 4) False = Some 1"
    and a12: "getUint16 exampleJpeg (6 + 8 + 8 + 0 * 12 + 8) False = Some 6"
    by (simp_all add: eval_reads exampleJpeg_def)
  have a2: "reaches exampleJpeg 2" by (rule reaches.start)
  have p: "(6::nat) = 2 + 4" by simp
  have none: "\<forall>j<(0::nat). getUint16 exampleJpeg (6 + 8 + 8 + j * 12) False \<noteq> Some 0x0112"
    by simp
  have k: "(0::nat) < 1" by simp
  note t = readJpegExifOrientation_total[of exampleJpeg, THEN conjunct2, THEN conjunct2,
      THEN conjunct2, THEN conjunct2, THEN conjunct2, THEN conjunct1, rule_format, of 2 6 False,
      OF conjI[OF a1 conjI[OF a2 conjI[OF a3 conjI[OF p a4]]]]]
  note t2 = t[THEN conjunct2, rule_format, of 8 1 0,
      OF conjI[OF a5 conjI[OF a6 conjI[OF a7 conjI[OF k conjI[OF none a8]]]]]]
  note t3 = t2[THEN conjunct2, rule_format, of 3 1 6, OF conjI[OF a9 conjI[OF a10 conjI[OF a11 a12]]]]
  from t3 have six: "readJpegExifOrientation exampleJpeg = 6" by simp
  have b1: "getUint16 badMagicJpeg 0 False = Some 0xFFD8"
    and b3: "exifSegmentAt badMagicJpeg 2"
    and b4: "False = (getUint16 badMagicJpeg (6 + 6) False = Some 0x4949)"
    and b5: "getUint16 badMagicJpeg (6 + 8) False \<noteq> Some 0x002A"
    by (simp_all add: eval_reads badMagicJpeg_def)
  have b2: "reaches badMagicJpeg 2" by (rule reaches.start)
  note u = readJpegExifOrientation_total[of badMagicJpeg, THEN conjunct2, THEN conjunct2,
      THEN conjunct2, THEN conjunct2, THEN conjunct2, THEN conjunct1, rule_format, of 2 6 False,
      OF conjI[OF b1 conjI[OF b2 conjI[OF b3 conjI[OF p b4]]]]]
  from u[THEN conjunct1] b5
  have one: "readJpegExifOrientation badMagicJpeg = 1" by simp
  have l1: "getUint16 littleEndianJpeg 0 False = Some 0xFFD8"
    and l3: "exifSegmentAt littleEndianJpeg 8"
    and l4: "True = (getUint16 littleEndianJpeg (12 + 6) False = Some 0x4949)"
    and l5: "getUint16 littleEndianJpeg (12 + 8) True = Some 0x002A"
    and l6: "getUint32 littleEndianJpeg (12 + 10) True = Some 8"
    and l7: "getUint16 littleEndianJpeg (12 + 6 + 8) True = Some 1"
    and l8: "getUint16 littleEndianJpeg (12 + 8 + 8 + 0 * 12) True = Some 0x0112"
    and l9: "12 + 8 + 8 + 0 * 12 + 12 \<le> byteLength littleEndianJpeg"
    and l10: "getUint16 littleEndianJpeg (12 + 8 + 8 + 0 * 12 + 2) True = Some 3"
    and l11: "getUint32 littleEndianJpeg (12 + 8 + 8 + 0 * 12 + 4) True = Some 1"
    and l12: "getUint16 littleEndianJpeg (12 + 8 + 8 + 0 * 12 + 8) True = Some 8"
    by (simp_all add: eval_reads littleEndianJpeg_def)
  have l2: "reaches littleEndianJpeg 8" by (rule reaches_littleEndianJpeg)
  have lp: "(12::nat) = 8 + 4" by simp
  have lnone: "\<forall>j<(0::nat). getUint16 littleEndianJpeg (12 + 8 + 8 + j * 12) True \<noteq> Some 0x0112"
    by simp
  note v = readJpegExifOrientation_total[of littleEndianJpeg, THEN conjunct2, THEN conjunct2,
      THEN conjunct2, THEN conjunct2, THEN conjunct2, THEN conjunct1, rule_format, of 8 12 True,
      OF conjI[OF l1 conjI[OF l2 conjI[OF l3 conjI[OF lp l4]]]]]
  note v2 = v[THEN conjunct2, rule_format, of 8 1 0,
      OF conjI[OF l5 conjI[OF l6 conjI[OF l7 conjI[OF k conjI[OF lnone l8]]]]]]
  note v3 = v2[THEN conjunct2, rule_format, of 3 1 8, OF conjI[OF l9 conjI[OF l10 conjI[OF l11 l12]]]]
  from v3 have eight: "readJpegExifOrientation littleEndianJpeg = 8" by simp
  have c1: "getUint16 examplePng 0 False \<noteq> Some 0xFFD8"
    by (simp add: eval_reads examplePng_def)
  from readJpegExifOrientation_total[of examplePng, THEN conjunct2, THEN conjunct2,
      THEN conjunct1] c1
  have png: "readJpegExifOrientation examplePng = 1" by simp
  show ?thesis
    by (intro conjI)
       (rule a1 a2 a3 a5 a8 six b1 b2 b3 b5 one l1 l2 l3 l5 l8 eight c1 png)+
qed

subsection \<open>The size-constrained encoder\<close>

lemma encodeQualities_append [simp]:
  "encodeQualities (xs @ ys) = encodeQualities xs @ encodeQualities ys"
  by (induction xs rule: encodeQualities.induct) auto

lemma renderScales_append [simp]:
  "renderScales (xs @ ys) = renderScales xs @ renderScales ys"
  by (induction xs rule: renderScales.induct) auto

text \<open>One turn of the quality loop.\<close>

lemma qualityLoop_unfold:
  "qualityLoop rt encode target q iter evs =
     (if real iter < maxQualityIters rt then
        if real (encode q) \<le> target then (Some (q, iter, encode q), evs @ [Encode q (encode q)])
        else if max (jpegMinQuality rt) (q - jpegQualityStep rt) = q
             then (None, evs @ [Encode q (encode q)])
             else qualityLoop rt encode target (max (jpegMinQuality rt) (q - jpegQualityStep rt))
                    (iter + 1) (evs @ [Encode q (encode q)])
      else (None, evs))"
  by (subst qualityLoop.simps) (simp add: Let_def)

text \<open>What a quality loop adds to the log: one encode for each quality of a chain that
  starts at \<open>q\<close>, steps by the rule of the source and stops at the first blob that fits.\<close>

lemma qualityLoop_events:
  "\<exists>qs. snd (qualityLoop rt encode target q iter evs) = evs @ map (\<lambda>q. Encode q (encode q)) qs \<and>
        length qs \<le> nat \<lceil>maxQualityIters rt\<rceil> - iter \<and>
        (qs \<noteq> [] \<longrightarrow> hd qs = q) \<and>
        (\<forall>k. Suc k < length qs \<longrightarrow>
            qs ! Suc k = max (jpegMinQuality rt) (qs ! k - jpegQualityStep rt) \<and>
            qs ! Suc k \<noteq> qs ! k \<and> \<not> real (encode (qs ! k)) \<le> target) \<and>
        (case fst (qualityLoop rt encode target q iter evs) of
           Some (q', i', sz) \<Rightarrow> qs \<noteq> [] \<and> q' = last qs \<and> sz = encode q' \<and> real sz \<le> target
               \<and> i' + 1 = iter + length qs
         | None \<Rightarrow> \<forall>x\<in>set qs. \<not> real (encode x) \<le> target)"
proof (induction rt encode target q iter evs rule: qualityLoop.induct)
  case (1 rt encode target q iter evs)
  let ?nextQ = "max (jpegMinQuality rt) (q - jpegQualityStep rt)"
  let ?e = "Encode q (encode q)"
  show ?case
  proof (cases "real iter < maxQualityIters rt")
    case False
    then show ?thesis
      by (subst (1 2) qualityLoop_unfold) (simp)
  next
    case lt: True
    then have ilt: "iter < nat \<lceil>maxQualityIters rt\<rceil>" by linarith
    show ?thesis
    proof (cases "real (encode q) \<le> target")
      case True
      with lt ilt show ?thesis
        by (subst (1 2) qualityLoop_unfold) (auto intro!: exI[of _ "[q]"])
    next
      case nf: False
      show ?thesis
      proof (cases "?nextQ = q")
        case True
        with lt ilt nf show ?thesis
          by (subst (1 2) qualityLoop_unfold) (auto intro!: exI[of _ "[q]"])
      next
        case ne: False
        have eq: "qualityLoop rt encode target q iter evs =
                  qualityLoop rt encode target ?nextQ (iter + 1) (evs @ [?e])"
          using lt nf ne by (subst qualityLoop_unfold) simp
        from "1.IH"[OF lt refl refl _ refl] nf ne
        obtain qs where qs:
          "snd (qualityLoop rt encode target ?nextQ (iter + 1) (evs @ [?e])) =
             (evs @ [?e]) @ map (\<lambda>q. Encode q (encode q)) qs"
          "length qs \<le> nat \<lceil>maxQualityIters rt\<rceil> - (iter + 1)"
          "qs \<noteq> [] \<longrightarrow> hd qs = ?nextQ"
          "\<forall>k. Suc k < length qs \<longrightarrow>
            qs ! Suc k = max (jpegMinQuality rt) (qs ! k - jpegQualityStep rt) \<and>
            qs ! Suc k \<noteq> qs ! k \<and> \<not> real (encode (qs ! k)) \<le> target"
          "case fst (qualityLoop rt encode target ?nextQ (iter + 1) (evs @ [?e])) of
             Some (q', i', sz) \<Rightarrow> qs \<noteq> [] \<and> q' = last qs \<and> sz = encode q' \<and> real sz \<le> target
               \<and> i' + 1 = iter + 1 + length qs
           | None \<Rightarrow> \<forall>x\<in>set qs. \<not> real (encode x) \<le> target"
          by (auto simp: Let_def)
        have chain: "\<forall>k. Suc k < length (q # qs) \<longrightarrow>
            (q # qs) ! Suc k = max (jpegMinQuality rt) ((q # qs) ! k - jpegQualityStep rt) \<and>
            (q # qs) ! Suc k \<noteq> (q # qs) ! k \<and> \<not> real (encode ((q # qs) ! k)) \<le> target"
        proof (intro allI impI)
          fix k assume k: "Suc k < length (q # qs)"
          show "(q # qs) ! Suc k = max (jpegMinQuality rt) ((q # qs) ! k - jpegQualityStep rt) \<and>
            (q # qs) ! Suc k \<noteq> (q # qs) ! k \<and> \<not> real (encode ((q # qs) ! k)) \<le> target"
          proof (cases k)
            case 0
            with k have "qs \<noteq> []" by auto
            with qs(3) have "hd qs = ?nextQ" by simp
            with \<open>qs \<noteq> []\<close> have "qs ! 0 = ?nextQ" by (simp add: hd_conv_nth)
            with 0 ne nf show ?thesis by simp
          next
            case (Suc j)
            with k have "Suc j < length qs" by simp
            with qs(4) have "qs ! Suc j = max (jpegMinQuality rt) (qs ! j - jpegQualityStep rt) \<and>
              qs ! Suc j \<noteq> qs ! j \<and> \<not> real (encode (qs ! j)) \<le> target" by blast
            with Suc show ?thesis by simp
          qed
        qed
        show ?thesis
          unfolding eq
          apply (rule exI[of _ "q # qs"])
          using qs(1,2,5) ilt chain
          by (auto split: option.splits simp: nf)
      qed
    qed
  qed
qed

lemma resizeLoop_final:
  "\<not> real pass < maxResizePasses rt \<Longrightarrow>
   resizeLoop rt e bitmap orientation target oSize scale pass evs =
     (\<lparr>resBlobSize = convertToBlob e
          (renderCanvas bitmap orientation (outDim (fst oSize) scale) (outDim (snd oSize) scale))
          (jpegMinQuality rt),
       resWidth = outDim (fst oSize) scale, resHeight = outDim (snd oSize) scale,
       resQuality = jpegMinQuality rt, resScale = scale,
       resPass = maxResizePasses rt, resIter = maxQualityIters rt,
       bestEffortOverLimit = Some (real (convertToBlob e
          (renderCanvas bitmap orientation (outDim (fst oSize) scale) (outDim (snd oSize) scale))
          (jpegMinQuality rt)) > target)\<rparr>,
      evs @ [Render scale (outDim (fst oSize) scale) (outDim (snd oSize) scale),
             Encode (jpegMinQuality rt) (convertToBlob e
          (renderCanvas bitmap orientation (outDim (fst oSize) scale) (outDim (snd oSize) scale))
          (jpegMinQuality rt))])"
  unfolding outDim_def by (subst resizeLoop.simps) (simp add: Let_def)

lemma resizeLoop_pass:
  "real pass < maxResizePasses rt \<Longrightarrow>
   resizeLoop rt e bitmap orientation target oSize scale pass evs =
     (case qualityLoop rt
             (convertToBlob e (renderCanvas bitmap orientation
                (outDim (fst oSize) scale) (outDim (snd oSize) scale)))
             target (jpegQualityStart rt) 0
             (evs @ [Render scale (outDim (fst oSize) scale) (outDim (snd oSize) scale)]) of
        (Some (q, iter, jpegBlob), evs') \<Rightarrow>
          (\<lparr>resBlobSize = jpegBlob, resWidth = outDim (fst oSize) scale,
            resHeight = outDim (snd oSize) scale, resQuality = q, resScale = scale,
            resPass = real pass, resIter = real iter, bestEffortOverLimit = None\<rparr>, evs')
      | (None, evs') \<Rightarrow>
          resizeLoop rt e bitmap orientation target oSize (scale * resizeDownFactor rt)
            (pass + 1) evs')"
  unfolding outDim_def by (subst resizeLoop.simps) (simp add: Let_def)

lemma encodeQualities_map_Encode [simp]:
  "encodeQualities (map (\<lambda>q. Encode q (g q)) qs) = qs"
  by (induction qs) auto

lemma renderScales_map_Encode [simp]:
  "renderScales (map (\<lambda>q. Encode q (g q)) qs) = []"
  by (induction qs) auto

lemma chain_floor:
  assumes "qs \<noteq> [] \<longrightarrow> hd qs = q0"
    and "\<forall>k. Suc k < length qs \<longrightarrow> qs ! Suc k = max (m::real) (qs ! k - st) \<and> P k"
    and "x \<in> set qs"
  shows "x = q0 \<or> m \<le> x"
proof -
  from assms(3) obtain i where i: "i < length qs" "qs ! i = x"
    by (auto simp: in_set_conv_nth)
  show ?thesis
  proof (cases i)
    case 0
    with i assms(1) show ?thesis by (cases qs) auto
  next
    case (Suc j)
    with i assms(2) have "qs ! Suc j = max m (qs ! j - st)" by blast
    with Suc i show ?thesis by auto
  qed
qed

lemma scales_shift:
  "s # map (\<lambda>k. s * f * f ^ k) [0..<Suc n] = map (\<lambda>k. s * (f::real) ^ k) [0..<Suc (Suc n)]"
proof -
  have "map (\<lambda>k. s * f ^ k) [0..<Suc (Suc n)] = s # map (\<lambda>k. s * f ^ k) (map Suc [0..<Suc n])"
    by (subst upt_conv_Cons, simp) (simp only: map_Suc_upt list.map power_0 mult_1_right)
  also have "map (\<lambda>k. s * f ^ k) (map Suc [0..<Suc n]) = map (\<lambda>k. s * f * f ^ k) [0..<Suc n]"
    by (simp add: mult.assoc)
  finally show ?thesis by simp
qed

lemma resizeLoop_spec:
  "\<exists>new n.
     snd (resizeLoop rt e bitmap orientation target oSize scale pass evs) = evs @ new \<and>
     n \<le> nat \<lceil>maxResizePasses rt\<rceil> - pass \<and>
     renderScales new = map (\<lambda>k. scale * resizeDownFactor rt ^ k) [0..<Suc n] \<and>
     resScale (fst (resizeLoop rt e bitmap orientation target oSize scale pass evs)) =
       scale * resizeDownFactor rt ^ n \<and>
     length (encodeQualities new) \<le>
       (nat \<lceil>maxResizePasses rt\<rceil> - pass) * nat \<lceil>maxQualityIters rt\<rceil> + 1 \<and>
     (\<forall>q\<in>set (encodeQualities new). q = jpegQualityStart rt \<or> jpegMinQuality rt \<le> q)"
proof (induction "nat \<lceil>maxResizePasses rt\<rceil> - pass" arbitrary: scale pass evs)
  case 0
  then have fin: "\<not> real pass < maxResizePasses rt" by linarith
  show ?case
    unfolding resizeLoop_final[OF fin]
    by (rule exI[of _ "[Render scale (outDim (fst oSize) scale) (outDim (snd oSize) scale),
             Encode (jpegMinQuality rt) (convertToBlob e
          (renderCanvas bitmap orientation (outDim (fst oSize) scale) (outDim (snd oSize) scale))
          (jpegMinQuality rt))]"], rule exI[of _ 0]) simp
next
  case (Suc N)
  let ?P = "nat \<lceil>maxResizePasses rt\<rceil>" and ?I = "nat \<lceil>maxQualityIters rt\<rceil>"
  let ?f = "resizeDownFactor rt"
  from Suc.hyps(2) have lt: "real pass < maxResizePasses rt" by linarith
  from Suc.hyps(2) have N: "N = ?P - (pass + 1)" by simp
  let ?enc = "convertToBlob e (renderCanvas bitmap orientation
                (outDim (fst oSize) scale) (outDim (snd oSize) scale))"
  let ?R = "Render scale (outDim (fst oSize) scale) (outDim (snd oSize) scale)"
  let ?ql = "qualityLoop rt ?enc target (jpegQualityStart rt) 0 (evs @ [?R])"
  from qualityLoop_events[of rt ?enc target "jpegQualityStart rt" 0 "evs @ [?R]"]
  obtain qs where qs:
    "snd ?ql = (evs @ [?R]) @ map (\<lambda>q. Encode q (?enc q)) qs"
    "length qs \<le> ?I"
    "qs \<noteq> [] \<longrightarrow> hd qs = jpegQualityStart rt"
    "\<forall>k. Suc k < length qs \<longrightarrow>
        qs ! Suc k = max (jpegMinQuality rt) (qs ! k - jpegQualityStep rt) \<and>
        (qs ! Suc k \<noteq> qs ! k \<and> \<not> real (?enc (qs ! k)) \<le> target)"
    by auto
  have floor: "\<forall>q\<in>set qs. q = jpegQualityStart rt \<or> jpegMinQuality rt \<le> q"
    using chain_floor[OF qs(3) qs(4)] by blast
  let ?E = "map (\<lambda>q. Encode q (?enc q)) qs"
  have one: "length qs \<le> (?P - pass) * ?I + 1"
  proof -
    have "?P - pass = Suc (?P - (pass + 1))" using Suc.hyps(2) by simp
    then have "(?P - pass) * ?I = ?I + (?P - (pass + 1)) * ?I" by simp
    with qs(2) show ?thesis by linarith
  qed
  show ?case
  proof (cases "fst ?ql")
    case (Some b)
    obtain q i sz where b: "b = (q, i, sz)" by (cases b)
    have ql: "?ql = (Some (q, i, sz), evs @ ?R # ?E)"
      using Some b qs(1) by (cases ?ql) simp
    show ?thesis
      unfolding resizeLoop_pass[OF lt] ql
      apply (rule exI[of _ "?R # ?E"], rule exI[of _ 0])
      using qs(2) floor one
      by simp
  next
    case None
    have ql: "?ql = (None, evs @ ?R # ?E)"
      using None qs(1) by (cases ?ql) simp
    from Suc.hyps(1)[OF N, of "scale * ?f" "evs @ ?R # ?E"]
    obtain new n where IH:
      "snd (resizeLoop rt e bitmap orientation target oSize (scale * ?f) (pass + 1) (evs @ ?R # ?E))
         = (evs @ ?R # ?E) @ new"
      "n \<le> ?P - (pass + 1)"
      "renderScales new = map (\<lambda>k. scale * ?f * ?f ^ k) [0..<Suc n]"
      "resScale (fst (resizeLoop rt e bitmap orientation target oSize (scale * ?f) (pass + 1)
          (evs @ ?R # ?E))) = scale * ?f * ?f ^ n"
      "length (encodeQualities new) \<le> (?P - (pass + 1)) * ?I + 1"
      "\<forall>q\<in>set (encodeQualities new). q = jpegQualityStart rt \<or> jpegMinQuality rt \<le> q"
      by blast
    have cnt: "length qs + length (encodeQualities new) \<le> (?P - pass) * ?I + 1"
    proof -
      have "?P - pass = Suc (?P - (pass + 1))" using Suc.hyps(2) by simp
      then have "(?P - pass) * ?I = ?I + (?P - (pass + 1)) * ?I" by simp
      with qs(2) IH(5) show ?thesis by linarith
    qed
    show ?thesis
      unfolding resizeLoop_pass[OF lt] ql
      apply (rule exI[of _ "?R # ?E @ new"], rule exI[of _ "Suc n"])
      using IH(1,2,4,6) floor cnt Suc.hyps(2)
      apply (simp add: IH(3) scales_shift del: upt_Suc)
      apply auto
      done
  qed
qed

lemma resizeLoop_result:
  "resizeLoop rt e bitmap orientation target oSize scale pass evs = (r, evs') \<Longrightarrow>
   resWidth r = outDim (fst oSize) (resScale r) \<and>
   resHeight r = outDim (snd oSize) (resScale r) \<and>
   resBlobSize r =
     convertToBlob e (renderCanvas bitmap orientation (resWidth r) (resHeight r)) (resQuality r) \<and>
   (case bestEffortOverLimit r of
      None \<Rightarrow> real (resBlobSize r) \<le> target
    | Some b \<Rightarrow> b = (real (resBlobSize r) > target))"
proof (induction "nat \<lceil>maxResizePasses rt\<rceil> - pass" arbitrary: scale pass evs)
  case 0
  then have fin: "\<not> real pass < maxResizePasses rt" by linarith
  from "0.prems" show ?case
    unfolding resizeLoop_final[OF fin] by auto
next
  case (Suc N)
  from Suc.hyps(2) have lt: "real pass < maxResizePasses rt" by linarith
  from Suc.hyps(2) have N: "N = nat \<lceil>maxResizePasses rt\<rceil> - (pass + 1)" by simp
  let ?enc = "convertToBlob e (renderCanvas bitmap orientation
                (outDim (fst oSize) scale) (outDim (snd oSize) scale))"
  let ?R = "Render scale (outDim (fst oSize) scale) (outDim (snd oSize) scale)"
  let ?ql = "qualityLoop rt ?enc target (jpegQualityStart rt) 0 (evs @ [?R])"
  from qualityLoop_events[of rt ?enc target "jpegQualityStart rt" 0 "evs @ [?R]"]
  have res: "case fst ?ql of
           Some (q', i', sz) \<Rightarrow> sz = ?enc q' \<and> real sz \<le> target
         | None \<Rightarrow> True"
    by (auto split: option.splits)
  show ?case
  proof (cases "fst ?ql")
    case (Some b)
    obtain q i sz where b: "b = (q, i, sz)" by (cases b)
    obtain l where ql: "?ql = (Some (q, i, sz), l)"
      using Some b by (cases ?ql) simp
    from res Some b have sz: "sz = ?enc q" "real sz \<le> target" by simp_all
    have "resizeLoop rt e bitmap orientation target oSize scale pass evs =
          (\<lparr>resBlobSize = sz, resWidth = outDim (fst oSize) scale,
            resHeight = outDim (snd oSize) scale, resQuality = q, resScale = scale,
            resPass = real pass, resIter = real i, bestEffortOverLimit = None\<rparr>, l)"
      unfolding resizeLoop_pass[OF lt] ql by simp
    with Suc.prems sz show ?thesis by auto
  next
    case None
    obtain l where ql: "?ql = (None, l)"
      using None by (cases ?ql) simp
    have "resizeLoop rt e bitmap orientation target oSize scale pass evs =
          resizeLoop rt e bitmap orientation target oSize (scale * resizeDownFactor rt)
            (pass + 1) l"
      unfolding resizeLoop_pass[OF lt] ql by simp
    with Suc.prems have "resizeLoop rt e bitmap orientation target oSize
        (scale * resizeDownFactor rt) (pass + 1) l = (r, evs')" by simp
    from Suc.hyps(1)[OF N this] show ?thesis .
  qed
qed

lemma renderResizedJpeg_Inr:
  assumes "0 < m" "0 < B" "hasOffscreenCanvas e"
  shows "renderResizedJpeg rt e bitmap orientation (Number m) (Number B) =
     Inr (resizeLoop rt e bitmap orientation B
            (orientedSize (bitmapWidth bitmap) (bitmapHeight bitmap) orientation)
            (if real (max (fst (orientedSize (bitmapWidth bitmap) (bitmapHeight bitmap) orientation))
                          (snd (orientedSize (bitmapWidth bitmap) (bitmapHeight bitmap) orientation))) > m
             then m / real (max (fst (orientedSize (bitmapWidth bitmap) (bitmapHeight bitmap) orientation))
                          (snd (orientedSize (bitmapWidth bitmap) (bitmapHeight bitmap) orientation)))
             else 1) 0 [])"
  using assms by (simp add: renderResizedJpeg_def Let_def)

lemma renderResizedJpeg_InrD:
  assumes "renderResizedJpeg rt e bitmap orientation maxLongSide targetMax = Inr res"
  shows "\<exists>m B. maxLongSide = Number m \<and> targetMax = Number B \<and> 0 < m \<and> 0 < B \<and>
           hasOffscreenCanvas e"
proof -
  from assms have a: "isFiniteNumber maxLongSide" "0 < numberOf maxLongSide"
    "isFiniteNumber targetMax" "0 < numberOf targetMax" "hasOffscreenCanvas e"
    by (auto simp: renderResizedJpeg_def split: if_splits)
  then show ?thesis
    by (cases maxLongSide; cases targetMax) auto
qed

lemma butlast_chain_over:
  assumes "\<forall>k. Suc k < length qs \<longrightarrow> P k \<and> Q k \<and> \<not> real (enc (qs ! k)) \<le> target"
    and "x \<in> set (butlast qs)"
  shows "\<not> real (enc x) \<le> (target::real)"
proof -
  from assms(2) obtain i where i: "i < length (butlast qs)" "butlast qs ! i = x"
    by (auto simp: in_set_conv_nth)
  then have "Suc i < length qs" by simp
  moreover have "qs ! i = x" using i by (simp add: nth_butlast)
  ultimately show ?thesis using assms(1) by auto
qed

text \<open>The log of a run of the resize loop ends with the encode that gave the result.\<close>

lemma resizeLoop_log:
  "resizeLoop rt e bitmap orientation target oSize scale pass evs = (r, evs') \<Longrightarrow>
   \<exists>pre. evs' = evs @ pre @ [Encode (resQuality r) (resBlobSize r)] \<and>
     Render (resScale r) (resWidth r) (resHeight r) \<in> set pre \<and>
     (\<forall>q sz. Encode q sz \<in> set pre \<longrightarrow> \<not> real sz \<le> target) \<and>
     (bestEffortOverLimit r \<noteq> None \<longrightarrow>
        length (renderScales pre) = nat \<lceil>maxResizePasses rt\<rceil> - pass + 1 \<and>
        resQuality r = jpegMinQuality rt)"
proof (induction "nat \<lceil>maxResizePasses rt\<rceil> - pass" arbitrary: scale pass evs)
  case 0
  then have fin: "\<not> real pass < maxResizePasses rt" by linarith
  from "0.prems" "0.hyps" show ?case
    unfolding resizeLoop_final[OF fin]
    by (intro exI[of _ "[Render scale (outDim (fst oSize) scale) (outDim (snd oSize) scale)]"])
       auto
next
  case (Suc N)
  from Suc.hyps(2) have lt: "real pass < maxResizePasses rt" by linarith
  from Suc.hyps(2) have N: "N = nat \<lceil>maxResizePasses rt\<rceil> - (pass + 1)" by simp
  let ?enc = "convertToBlob e (renderCanvas bitmap orientation
                (outDim (fst oSize) scale) (outDim (snd oSize) scale))"
  let ?R = "Render scale (outDim (fst oSize) scale) (outDim (snd oSize) scale)"
  let ?ql = "qualityLoop rt ?enc target (jpegQualityStart rt) 0 (evs @ [?R])"
  from qualityLoop_events[of rt ?enc target "jpegQualityStart rt" 0 "evs @ [?R]"]
  obtain qs where qs:
    "snd ?ql = (evs @ [?R]) @ map (\<lambda>q. Encode q (?enc q)) qs"
    "\<forall>k. Suc k < length qs \<longrightarrow>
        qs ! Suc k = max (jpegMinQuality rt) (qs ! k - jpegQualityStep rt) \<and>
        qs ! Suc k \<noteq> qs ! k \<and> \<not> real (?enc (qs ! k)) \<le> target"
    "case fst ?ql of
           Some (q', i', sz) \<Rightarrow> qs \<noteq> [] \<and> q' = last qs \<and> sz = ?enc q' \<and> real sz \<le> target
               \<and> i' + 1 = 0 + length qs
         | None \<Rightarrow> \<forall>x\<in>set qs. \<not> real (?enc x) \<le> target"
    by blast
  show ?case
  proof (cases "fst ?ql")
    case (Some b)
    obtain q i sz where b: "b = (q, i, sz)" by (cases b)
    from qs(3) Some b have ok: "qs \<noteq> []" "q = last qs" "sz = ?enc q" by simp_all
    have ql: "?ql = (Some (q, i, sz), evs @ ?R # map (\<lambda>q. Encode q (?enc q)) qs)"
      using Some b qs(1) by (cases ?ql) simp
    have split: "map (\<lambda>q. Encode q (?enc q)) qs =
        map (\<lambda>q. Encode q (?enc q)) (butlast qs) @ [Encode q sz]"
      using ok by (metis (no_types, lifting) append_butlast_last_id list.simps(8,9) map_append)
    have res: "r = \<lparr>resBlobSize = sz, resWidth = outDim (fst oSize) scale,
            resHeight = outDim (snd oSize) scale, resQuality = q, resScale = scale,
            resPass = real pass, resIter = real i, bestEffortOverLimit = None\<rparr>"
      and ev: "evs' = evs @ ?R # map (\<lambda>q. Encode q (?enc q)) qs"
      using Suc.prems unfolding resizeLoop_pass[OF lt] ql by simp_all
    have over: "\<forall>x\<in>set (butlast qs). \<not> real (?enc x) \<le> target"
      using butlast_chain_over[OF qs(2)] by blast
    show ?thesis
      apply (rule exI[of _ "?R # map (\<lambda>q. Encode q (?enc q)) (butlast qs)"])
      unfolding ev split res using over by auto
  next
    case None
    from qs(3) None have over: "\<forall>x\<in>set qs. \<not> real (?enc x) \<le> target" by simp
    let ?E = "map (\<lambda>q. Encode q (?enc q)) qs"
    have ql: "?ql = (None, evs @ ?R # ?E)"
      using None qs(1) by (cases ?ql) simp
    have "resizeLoop rt e bitmap orientation target oSize scale pass evs =
          resizeLoop rt e bitmap orientation target oSize (scale * resizeDownFactor rt)
            (pass + 1) (evs @ ?R # ?E)"
      unfolding resizeLoop_pass[OF lt] ql by simp
    with Suc.prems have "resizeLoop rt e bitmap orientation target oSize
        (scale * resizeDownFactor rt) (pass + 1) (evs @ ?R # ?E) = (r, evs')" by simp
    from Suc.hyps(1)[OF N this] obtain pre where pre:
      "evs' = (evs @ ?R # ?E) @ pre @ [Encode (resQuality r) (resBlobSize r)]"
      "Render (resScale r) (resWidth r) (resHeight r) \<in> set pre"
      "\<forall>q sz. Encode q sz \<in> set pre \<longrightarrow> \<not> real sz \<le> target"
      "bestEffortOverLimit r \<noteq> None \<longrightarrow>
        length (renderScales pre) = nat \<lceil>maxResizePasses rt\<rceil> - (pass + 1) + 1 \<and>
        resQuality r = jpegMinQuality rt"
      by blast
    have cnt: "nat \<lceil>maxResizePasses rt\<rceil> - pass = Suc (nat \<lceil>maxResizePasses rt\<rceil> - (pass + 1))"
      using Suc.hyps(2) by simp
    show ?thesis
      apply (rule exI[of _ "?R # ?E @ pre"])
      using pre over cnt by auto
  qed
qed

lemma genuineLog_pass:
  "genuineLog e bitmap orientation oSize
     (Render s (outDim (fst oSize) s) (outDim (snd oSize) s) #
      map (\<lambda>q. Encode q (convertToBlob e (renderCanvas bitmap orientation
              (outDim (fst oSize) s) (outDim (snd oSize) s)) q)) qs)"
  unfolding genuineLog_def
proof (intro conjI allI impI)
  fix q sz
  assume "Encode q sz \<in> set (Render s (outDim (fst oSize) s) (outDim (snd oSize) s) #
      map (\<lambda>q. Encode q (convertToBlob e (renderCanvas bitmap orientation
              (outDim (fst oSize) s) (outDim (snd oSize) s)) q)) qs)"
  then have "sz = convertToBlob e (renderCanvas bitmap orientation
              (outDim (fst oSize) s) (outDim (snd oSize) s)) q" by auto
  then show "\<exists>s' w h. Render s' w h \<in> set (Render s (outDim (fst oSize) s) (outDim (snd oSize) s) #
      map (\<lambda>q. Encode q (convertToBlob e (renderCanvas bitmap orientation
              (outDim (fst oSize) s) (outDim (snd oSize) s)) q)) qs) \<and>
           sz = convertToBlob e (renderCanvas bitmap orientation w h) q"
    by (intro exI[of _ s] exI[of _ "outDim (fst oSize) s"] exI[of _ "outDim (snd oSize) s"]) simp
qed auto

lemma genuineLog_append:
  assumes "genuineLog e bitmap orientation oSize a" and "genuineLog e bitmap orientation oSize b"
  shows "genuineLog e bitmap orientation oSize (a @ b)"
  unfolding genuineLog_def
proof (intro conjI allI impI)
  fix s w h assume "Render s w h \<in> set (a @ b)"
  then show "w = outDim (fst oSize) s"
    using assms unfolding genuineLog_def by auto
next
  fix s w h assume "Render s w h \<in> set (a @ b)"
  then show "h = outDim (snd oSize) s"
    using assms unfolding genuineLog_def by auto
next
  fix q sz assume "Encode q sz \<in> set (a @ b)"
  then consider "Encode q sz \<in> set a" | "Encode q sz \<in> set b" by auto
  then show "\<exists>s w h. Render s w h \<in> set (a @ b) \<and>
           sz = convertToBlob e (renderCanvas bitmap orientation w h) q"
  proof cases
    case 1
    with assms(1) obtain s w h where "Render s w h \<in> set a"
      "sz = convertToBlob e (renderCanvas bitmap orientation w h) q"
      unfolding genuineLog_def by blast
    then show ?thesis by (intro exI[of _ s] exI[of _ w] exI[of _ h]) simp
  next
    case 2
    with assms(2) obtain s w h where "Render s w h \<in> set b"
      "sz = convertToBlob e (renderCanvas bitmap orientation w h) q"
      unfolding genuineLog_def by blast
    then show ?thesis by (intro exI[of _ s] exI[of _ w] exI[of _ h]) simp
  qed
next
  fix m show "Decode m \<notin> set (a @ b)"
    using assms unfolding genuineLog_def by simp
qed

lemma resizeLoop_genuine:
  "resizeLoop rt e bitmap orientation target oSize scale pass evs = (r, evs') \<Longrightarrow>
   \<exists>new. evs' = evs @ new \<and> genuineLog e bitmap orientation oSize new"
proof (induction "nat \<lceil>maxResizePasses rt\<rceil> - pass" arbitrary: scale pass evs)
  case 0
  then have fin: "\<not> real pass < maxResizePasses rt" by linarith
  let ?enc = "convertToBlob e (renderCanvas bitmap orientation
                (outDim (fst oSize) scale) (outDim (snd oSize) scale))"
  let ?R = "Render scale (outDim (fst oSize) scale) (outDim (snd oSize) scale)"
  from "0.prems" have "evs' = evs @ ?R # map (\<lambda>q. Encode q (?enc q)) [jpegMinQuality rt]"
    unfolding resizeLoop_final[OF fin] by simp
  with genuineLog_pass[of e bitmap orientation oSize scale "[jpegMinQuality rt]"]
  show ?case by blast
next
  case (Suc N)
  from Suc.hyps(2) have lt: "real pass < maxResizePasses rt" by linarith
  from Suc.hyps(2) have N: "N = nat \<lceil>maxResizePasses rt\<rceil> - (pass + 1)" by simp
  let ?enc = "convertToBlob e (renderCanvas bitmap orientation
                (outDim (fst oSize) scale) (outDim (snd oSize) scale))"
  let ?R = "Render scale (outDim (fst oSize) scale) (outDim (snd oSize) scale)"
  let ?ql = "qualityLoop rt ?enc target (jpegQualityStart rt) 0 (evs @ [?R])"
  from qualityLoop_events[of rt ?enc target "jpegQualityStart rt" 0 "evs @ [?R]"]
  obtain qs where qs: "snd ?ql = (evs @ [?R]) @ map (\<lambda>q. Encode q (?enc q)) qs"
    by blast
  let ?E = "map (\<lambda>q. Encode q (?enc q)) qs"
  note g = genuineLog_pass[of e bitmap orientation oSize scale qs]
  show ?case
  proof (cases "fst ?ql")
    case (Some b)
    obtain q i sz where b: "b = (q, i, sz)" by (cases b)
    have ql: "?ql = (Some (q, i, sz), evs @ ?R # ?E)"
      using Some b qs(1) by (cases ?ql) simp
    have ev: "evs' = evs @ ?R # ?E"
      using Suc.prems unfolding resizeLoop_pass[OF lt] ql by simp
    with g show ?thesis by blast
  next
    case None
    have ql: "?ql = (None, evs @ ?R # ?E)"
      using None qs(1) by (cases ?ql) simp
    have "resizeLoop rt e bitmap orientation target oSize scale pass evs =
          resizeLoop rt e bitmap orientation target oSize (scale * resizeDownFactor rt)
            (pass + 1) (evs @ ?R # ?E)"
      unfolding resizeLoop_pass[OF lt] ql by simp
    with Suc.prems have "resizeLoop rt e bitmap orientation target oSize
        (scale * resizeDownFactor rt) (pass + 1) (evs @ ?R # ?E) = (r, evs')" by simp
    from Suc.hyps(1)[OF N this] obtain new where new:
      "evs' = (evs @ ?R # ?E) @ new" "genuineLog e bitmap orientation oSize new"
      by blast
    from new(1) have "evs' = evs @ ((?R # ?E) @ new)" by simp
    with genuineLog_append[OF g new(2)] show ?thesis by blast
  qed
qed

text \<open>
  Claim C1. With a positive long-side limit and a positive byte limit \<open>B\<close> (and
  \<^verbatim>\<open>OffscreenCanvas\<close> there), \<^verbatim>\<open>renderResizedJpeg\<close> returns a result for every raster,
  orientation, configuration and encoder: the loops are total functions. The result has
  a blob of at most \<open>B\<close> bytes or carries \<^verbatim>\<open>bestEffortOverLimit = true\<close>. The search
  renders at most \<open>\<lceil>maxResizePasses\<rceil> + 1\<close> times and encodes at most
  \<open>\<lceil>maxResizePasses\<rceil> * \<lceil>maxQualityIters\<rceil> + 1\<close> times; for whole-number bounds \<open>p\<close>
  and \<open>i\<close> that is \<open>p\<close> passes of at most \<open>i\<close> quality iterations and one final render.
  The result is what the search made: its blob is the platform's encoding, at the returned
  quality, of the canvas rendered at the returned width and height; the last entry of the
  log is that encode, the render at the returned scale comes before it, and every encode
  before it was over \<open>B\<close>; every encode of the log is of a canvas rendered in the log.
  The flag is set only by the final render, after \<open>\<lceil>maxResizePasses\<rceil>\<close> passes, at the
  quality \<open>jpegMinQuality\<close>, and is true exactly when that blob is over \<open>B\<close>; a result
  without the flag is within \<open>B\<close>.
\<close>

theorem renderResizedJpeg_bounded_search:
  assumes "0 < m" and "0 < B" and "hasOffscreenCanvas e"
  shows "\<exists>r evs.
     renderResizedJpeg rt e bitmap orientation (Number m) (Number B) = Inr (r, evs) \<and>
     (real (resBlobSize r) \<le> B \<or> bestEffortOverLimit r = Some True) \<and>
     length (renderScales evs) \<le> nat \<lceil>maxResizePasses rt\<rceil> + 1 \<and>
     length (encodeQualities evs) \<le>
       nat \<lceil>maxResizePasses rt\<rceil> * nat \<lceil>maxQualityIters rt\<rceil> + 1 \<and>
     (\<forall>p i. maxResizePasses rt = real p \<and> maxQualityIters rt = real i \<longrightarrow>
        length (renderScales evs) \<le> p + 1 \<and> length (encodeQualities evs) \<le> p * i + 1) \<and>
     resBlobSize r =
       convertToBlob e (renderCanvas bitmap orientation (resWidth r) (resHeight r))
         (resQuality r) \<and>
     (\<exists>pre. evs = pre @ [Encode (resQuality r) (resBlobSize r)] \<and>
        Render (resScale r) (resWidth r) (resHeight r) \<in> set pre \<and>
        (\<forall>q sz. Encode q sz \<in> set pre \<longrightarrow> B < real sz)) \<and>
     (\<forall>q sz. Encode q sz \<in> set evs \<longrightarrow>
        (\<exists>s w h. Render s w h \<in> set evs \<and>
           sz = convertToBlob e (renderCanvas bitmap orientation w h) q)) \<and>
     (\<forall>b. bestEffortOverLimit r = Some b \<longrightarrow>
        b = (B < real (resBlobSize r)) \<and> resQuality r = jpegMinQuality rt \<and>
        length (renderScales evs) = nat \<lceil>maxResizePasses rt\<rceil> + 1) \<and>
     (bestEffortOverLimit r = None \<longrightarrow> real (resBlobSize r) \<le> B)"
proof -
  let ?oSize = "orientedSize (bitmapWidth bitmap) (bitmapHeight bitmap) orientation"
  let ?s0 = "if real (max (fst ?oSize) (snd ?oSize)) > m
             then m / real (max (fst ?oSize) (snd ?oSize)) else 1"
  let ?run = "resizeLoop rt e bitmap orientation B ?oSize ?s0 0 []"
  obtain r evs where run: "?run = (r, evs)" by (cases ?run)
  have eq: "renderResizedJpeg rt e bitmap orientation (Number m) (Number B) = Inr (r, evs)"
    using renderResizedJpeg_Inr[OF assms] run by simp
  note res = resizeLoop_result[OF run]
  from res have fit: "real (resBlobSize r) \<le> B \<or> bestEffortOverLimit r = Some True"
    by (cases "bestEffortOverLimit r") auto
  from res have tie: "resBlobSize r =
       convertToBlob e (renderCanvas bitmap orientation (resWidth r) (resHeight r))
         (resQuality r)" by simp
  from res have none: "bestEffortOverLimit r = None \<longrightarrow> real (resBlobSize r) \<le> B"
    by auto
  from res have some: "\<forall>b. bestEffortOverLimit r = Some b \<longrightarrow> b = (B < real (resBlobSize r))"
    by auto
  from resizeLoop_spec[of rt e bitmap orientation B ?oSize ?s0 0 "[]"] run
  obtain n where n: "n \<le> nat \<lceil>maxResizePasses rt\<rceil>"
      "renderScales evs = map (\<lambda>k. ?s0 * resizeDownFactor rt ^ k) [0..<Suc n]"
      "length (encodeQualities evs) \<le>
         nat \<lceil>maxResizePasses rt\<rceil> * nat \<lceil>maxQualityIters rt\<rceil> + 1"
    by auto
  from n(1,2) have rs: "length (renderScales evs) \<le> nat \<lceil>maxResizePasses rt\<rceil> + 1"
    by simp
  have whole: "\<forall>p i. maxResizePasses rt = real p \<and> maxQualityIters rt = real i \<longrightarrow>
        length (renderScales evs) \<le> p + 1 \<and> length (encodeQualities evs) \<le> p * i + 1"
    using rs n(3) by auto
  from resizeLoop_log[OF run] obtain pre where pre:
    "evs = pre @ [Encode (resQuality r) (resBlobSize r)]"
    "Render (resScale r) (resWidth r) (resHeight r) \<in> set pre"
    "\<forall>q sz. Encode q sz \<in> set pre \<longrightarrow> \<not> real sz \<le> B"
    "bestEffortOverLimit r \<noteq> None \<longrightarrow>
        length (renderScales pre) = nat \<lceil>maxResizePasses rt\<rceil> - 0 + 1 \<and>
        resQuality r = jpegMinQuality rt"
    by auto
  have log: "\<exists>pre. evs = pre @ [Encode (resQuality r) (resBlobSize r)] \<and>
        Render (resScale r) (resWidth r) (resHeight r) \<in> set pre \<and>
        (\<forall>q sz. Encode q sz \<in> set pre \<longrightarrow> B < real sz)"
    using pre(1,2,3) by (intro exI[of _ pre]) (auto simp: not_le)
  have exh: "\<forall>b. bestEffortOverLimit r = Some b \<longrightarrow>
        b = (B < real (resBlobSize r)) \<and> resQuality r = jpegMinQuality rt \<and>
        length (renderScales evs) = nat \<lceil>maxResizePasses rt\<rceil> + 1"
    using some pre(4) unfolding pre(1) by auto
  from resizeLoop_genuine[OF run]
  have gen: "\<forall>q sz. Encode q sz \<in> set evs \<longrightarrow>
        (\<exists>s w h. Render s w h \<in> set evs \<and>
           sz = convertToBlob e (renderCanvas bitmap orientation w h) q)"
    unfolding genuineLog_def by simp
  show ?thesis
    apply (rule exI[of _ r], rule exI[of _ evs])
    apply (intro conjI)
    apply (rule eq fit rs n(3) whole tie log gen exh none)+
    done
qed

lemma upscaling_run:
  "renderResizedJpeg upscaling largeBlobs smallBitmap 1 (Number 2560) (Number 10) =
     Inr (upscalingResult, upscalingEvents)"
  by (simp add: renderResizedJpeg_def orientedSize_def upscaling_def RUNTIME_initial_def
        largeBlobs_def smallBitmap_def resizeLoop.simps qualityLoop.simps Let_def
        upscalingResult_def upscalingEvents_def)

lemma twoPasses_run:
  "renderResizedJpeg twoPasses largeBlobs photoBitmap 6 (Number 2560) (Number 10) =
     Inr (twoPassesResult, twoPassesEvents)"
  by (simp add: renderResizedJpeg_def orientedSize_def twoPasses_def RUNTIME_initial_def
        largeBlobs_def photoBitmap_def resizeLoop.simps qualityLoop.simps Let_def round_def
        twoPassesResult_def twoPassesEvents_def)

theorem renderResizedJpeg_bounded_search_witness:
  "(0::real) < 2560 \<and> (0::real) < 10 \<and> hasOffscreenCanvas largeBlobs \<and>
   maxResizePasses twoPasses = real 2 \<and> maxQualityIters twoPasses = real 1 \<and>
   renderResizedJpeg twoPasses largeBlobs photoBitmap 6 (Number 2560) (Number 10) =
     Inr (twoPassesResult, twoPassesEvents) \<and>
   bestEffortOverLimit twoPassesResult = Some True \<and>
   length (renderScales twoPassesEvents) \<le> 2 + 1 \<and>
   length (encodeQualities twoPassesEvents) \<le> 2 * 1 + 1 \<and>
   resBlobSize twoPassesResult =
     convertToBlob largeBlobs
       (renderCanvas photoBitmap 6 (resWidth twoPassesResult) (resHeight twoPassesResult))
       (resQuality twoPassesResult) \<and>
   (\<exists>pre. twoPassesEvents =
      pre @ [Encode (resQuality twoPassesResult) (resBlobSize twoPassesResult)])"
proof -
  have h: "(0::real) < 2560" "(0::real) < 10" "hasOffscreenCanvas largeBlobs"
    by (simp_all add: largeBlobs_def)
  have p1: "maxResizePasses twoPasses = real 2" and p2: "maxQualityIters twoPasses = real 1"
    by (simp_all add: twoPasses_def RUNTIME_initial_def)
  from renderResizedJpeg_bounded_search[OF h, of twoPasses photoBitmap 6]
  obtain r evs where
    run: "renderResizedJpeg twoPasses largeBlobs photoBitmap 6 (Number 2560) (Number 10) =
       Inr (r, evs)"
    and fit: "real (resBlobSize r) \<le> 10 \<or> bestEffortOverLimit r = Some True"
    and whole: "\<forall>p i. maxResizePasses twoPasses = real p \<and> maxQualityIters twoPasses = real i \<longrightarrow>
        length (renderScales evs) \<le> p + 1 \<and> length (encodeQualities evs) \<le> p * i + 1"
    and tie: "resBlobSize r =
       convertToBlob largeBlobs (renderCanvas photoBitmap 6 (resWidth r) (resHeight r))
         (resQuality r)"
    and log: "\<exists>pre. evs = pre @ [Encode (resQuality r) (resBlobSize r)] \<and>
        Render (resScale r) (resWidth r) (resHeight r) \<in> set pre \<and>
        (\<forall>q sz. Encode q sz \<in> set pre \<longrightarrow> 10 < real sz)"
    by - (erule exE, erule exE, elim conjE, rule that)
  from run twoPasses_run have r: "r = twoPassesResult" and e: "evs = twoPassesEvents"
    by simp_all
  from fit have f: "bestEffortOverLimit twoPassesResult = Some True"
    unfolding r by (simp add: twoPassesResult_def)
  from whole p1 p2 have c: "length (renderScales twoPassesEvents) \<le> 2 + 1"
    "length (encodeQualities twoPassesEvents) \<le> 2 * 1 + 1"
    unfolding e by blast+
  from log have l: "\<exists>pre. twoPassesEvents =
      pre @ [Encode (resQuality twoPassesResult) (resBlobSize twoPassesResult)]"
    unfolding r e by blast
  show ?thesis
    by (intro conjI) (rule h p1 p2 twoPasses_run f c tie[unfolded r] l)+
qed

lemma renderResizedJpeg_run:
  assumes "renderResizedJpeg rt e bitmap orientation maxLongSide targetMax = Inr (r, evs)"
  shows "\<exists>m B. maxLongSide = Number m \<and> targetMax = Number B \<and> 0 < m \<and> 0 < B \<and>
     hasOffscreenCanvas e \<and>
     resizeLoop rt e bitmap orientation B
       (orientedSize (bitmapWidth bitmap) (bitmapHeight bitmap) orientation)
       (if real (max (fst (orientedSize (bitmapWidth bitmap) (bitmapHeight bitmap) orientation))
                     (snd (orientedSize (bitmapWidth bitmap) (bitmapHeight bitmap) orientation))) > m
        then m / real (max (fst (orientedSize (bitmapWidth bitmap) (bitmapHeight bitmap) orientation))
                     (snd (orientedSize (bitmapWidth bitmap) (bitmapHeight bitmap) orientation)))
        else 1) 0 [] = (r, evs)"
proof -
  from renderResizedJpeg_InrD[OF assms] obtain m B where
    mB: "maxLongSide = Number m" "targetMax = Number B" "0 < m" "0 < B" "hasOffscreenCanvas e"
    by blast
  from assms show ?thesis
    unfolding mB(1,2) renderResizedJpeg_Inr[OF mB(3,4,5)] using mB by simp
qed

lemma scales_nth:
  "k < Suc n \<Longrightarrow> map (\<lambda>k. s * (f::real) ^ k) [0..<Suc n] ! k = s * f ^ k"
  by (simp only: nth_map_upt diff_zero add_0)

text \<open>
  Claim C6, as amended. In a call that returns, the first render is at the scale
  \<open>maxLongSidePx / longSide\<close> when the long side of the oriented raster exceeds the
  limit and at 1 otherwise, that is \<open>min 1 (maxLongSidePx / longSide)\<close>, at most 1; each
  later render is at the scale of the one before times \<open>resizeDownFactor\<close>, and the scale
  returned is that of the last render. When \<open>resizeDownFactor\<close> lies between 0 and 1,
  the scale never increases from one pass to the next and never exceeds 1, and the output
  is no wider and no higher than the oriented raster (it is never upscaled).
\<close>

theorem renderResizedJpeg_scale:
  assumes "renderResizedJpeg rt e bitmap orientation (Number m) targetMax = Inr (r, evs)"
    and "oSize = orientedSize (bitmapWidth bitmap) (bitmapHeight bitmap) orientation"
    and "longSide = max (fst oSize) (snd oSize)"
    and "ss = renderScales evs"
  shows "ss \<noteq> [] \<and>
     hd ss = (if real longSide > m then m / real longSide else 1) \<and>
     (0 < longSide \<longrightarrow> hd ss = min 1 (m / real longSide)) \<and>
     hd ss \<le> 1 \<and>
     (\<forall>k. Suc k < length ss \<longrightarrow> ss ! Suc k = ss ! k * resizeDownFactor rt) \<and>
     resScale r = last ss \<and>
     (0 \<le> resizeDownFactor rt \<and> resizeDownFactor rt \<le> 1 \<longrightarrow>
        (\<forall>k. Suc k < length ss \<longrightarrow> ss ! Suc k \<le> ss ! k) \<and>
        (\<forall>s\<in>set ss. s \<le> 1) \<and>
        resWidth r \<le> max 1 (int (fst oSize)) \<and> resHeight r \<le> max 1 (int (snd oSize)))"
proof -
  let ?f = "resizeDownFactor rt"
  let ?s0 = "if real longSide > m then m / real longSide else 1"
  from renderResizedJpeg_run[OF assms(1)] obtain B where
    m: "0 < m" and run: "resizeLoop rt e bitmap orientation B oSize ?s0 0 [] = (r, evs)"
    unfolding assms(2,3) by auto
  from resizeLoop_spec[of rt e bitmap orientation B oSize ?s0 0 "[]"] run
  obtain n where n: "ss = map (\<lambda>k. ?s0 * ?f ^ k) [0..<Suc n]" "resScale r = ?s0 * ?f ^ n"
    unfolding assms(4) by auto
  from n(1) have len: "length ss = Suc n" by simp
  have nth: "ss ! k = ?s0 * ?f ^ k" if "k < Suc n" for k
    unfolding n(1) using scales_nth[OF that] .
  have ne: "ss \<noteq> []" using len by auto
  have hd: "hd ss = ?s0" using nth[of 0] ne by (simp add: hd_conv_nth)
  have s0_pos: "0 < ?s0" using m by (auto intro: divide_pos_pos)
  have s0_le: "?s0 \<le> 1" using m by (auto simp: divide_le_eq_1)
  have min: "0 < longSide \<longrightarrow> hd ss = min 1 (m / real longSide)"
    unfolding hd using m by (auto simp: min_def divide_le_eq_1 not_less)
  have step: "\<forall>k. Suc k < length ss \<longrightarrow> ss ! Suc k = ss ! k * ?f"
    using nth len by simp
  have last: "resScale r = last ss"
    using n(2) nth[of n] ne len by (simp add: last_conv_nth)
  have mono: "(\<forall>k. Suc k < length ss \<longrightarrow> ss ! Suc k \<le> ss ! k) \<and> (\<forall>s\<in>set ss. s \<le> 1) \<and>
        resWidth r \<le> max 1 (int (fst oSize)) \<and> resHeight r \<le> max 1 (int (snd oSize))"
    if f: "0 \<le> ?f \<and> ?f \<le> 1"
  proof -
    have pw: "0 \<le> ?f ^ k \<and> ?f ^ k \<le> 1" for k
      using f by (simp add: power_le_one)
    have le1: "?s0 * ?f ^ k \<le> 1" for k
      using mult_mono[of ?s0 1 "?f ^ k" 1] s0_le s0_pos pw[of k] by simp
    have dec: "ss ! Suc k \<le> ss ! k" if "Suc k < length ss" for k
    proof -
      have "0 \<le> ss ! k" using nth[of k] that len s0_pos pw[of k] by simp
      then have "ss ! k * ?f \<le> ss ! k * 1" using f by (intro mult_left_mono) auto
      with step that show ?thesis by simp
    qed
    have all: "\<forall>s\<in>set ss. s \<le> 1"
      using le1 nth len by (auto simp: in_set_conv_nth)
    have rs: "resScale r \<le> 1" using n(2) le1 by simp
    from resizeLoop_result[OF run] have
      w: "resWidth r = outDim (fst oSize) (resScale r)" and
      h: "resHeight r = outDim (snd oSize) (resScale r)" by simp_all
    have dim: "outDim side (resScale r) \<le> max 1 (int side)" for side
    proof -
      have "real side * resScale r \<le> real side * 1"
        using rs by (intro mult_left_mono) auto
      then have "round (real side * resScale r) \<le> round (real side)"
        by (intro round_mono) simp
      then show ?thesis by (simp add: outDim_def)
    qed
    from dec all dim w h show ?thesis by simp
  qed
  from mono have mono': "0 \<le> ?f \<and> ?f \<le> 1 \<longrightarrow>
        (\<forall>k. Suc k < length ss \<longrightarrow> ss ! Suc k \<le> ss ! k) \<and>
        (\<forall>s\<in>set ss. s \<le> 1) \<and>
        resWidth r \<le> max 1 (int (fst oSize)) \<and> resHeight r \<le> max 1 (int (snd oSize))"
    by blast
  from hd s0_le have hle: "hd ss \<le> 1" by simp
  show ?thesis
    by (intro conjI) (rule ne hd min hle step last mono')+
qed

theorem renderResizedJpeg_scale_witness:
  "renderResizedJpeg twoPasses largeBlobs photoBitmap 6 (Number 2560) (Number 10) =
     Inr (twoPassesResult, twoPassesEvents) \<and>
   (3000, 4000) = orientedSize (bitmapWidth photoBitmap) (bitmapHeight photoBitmap) 6 \<and>
   [0.64, 0.576, 0.5184] = renderScales twoPassesEvents \<and>
   0 \<le> resizeDownFactor twoPasses \<and> resizeDownFactor twoPasses \<le> 1 \<and>
   hd [0.64, 0.576, 0.5184 :: real] = min 1 (2560 / real 4000) \<and>
   [0.64, 0.576, 0.5184 :: real] ! Suc 0 \<le> [0.64, 0.576, 0.5184] ! 0 \<and>
   [0.64, 0.576, 0.5184 :: real] ! Suc 1 \<le> [0.64, 0.576, 0.5184] ! 1 \<and>
   resScale twoPassesResult = last [0.64, 0.576, 0.5184] \<and>
   resWidth twoPassesResult \<le> max 1 (int (fst (3000 :: nat, 4000 :: nat)))"
proof -
  let ?ss = "[0.64, 0.576, 0.5184 :: real]"
  have ss: "?ss = renderScales twoPassesEvents" by (simp add: twoPassesEvents_def)
  have os: "(3000, 4000) = orientedSize (bitmapWidth photoBitmap) (bitmapHeight photoBitmap) 6"
    by (simp add: orientedSize_def photoBitmap_def)
  have ls: "4000 = max (fst (3000::nat, 4000::nat)) (snd (3000::nat, 4000::nat))" by simp
  have f: "0 \<le> resizeDownFactor twoPasses \<and> resizeDownFactor twoPasses \<le> 1"
    by (simp add: twoPasses_def RUNTIME_initial_def)
  note t = renderResizedJpeg_scale[OF twoPasses_run os ls ss]
  from t have a: "hd ?ss = min 1 (2560 / real 4000)" by simp
  from t f have b: "\<forall>k. Suc k < length ?ss \<longrightarrow> ?ss ! Suc k \<le> ?ss ! k" by blast
  from b[rule_format, of 0] have b0: "?ss ! Suc 0 \<le> ?ss ! 0" by simp
  from b[rule_format, of 1] have b1: "?ss ! Suc 1 \<le> ?ss ! 1" by simp
  from t have c: "resScale twoPassesResult = last ?ss" by blast
  from t f have d: "resWidth twoPassesResult \<le> max 1 (int (fst (3000 :: nat, 4000 :: nat)))"
    by blast
  from f have f1: "0 \<le> resizeDownFactor twoPasses" and f2: "resizeDownFactor twoPasses \<le> 1"
    by simp_all
  show ?thesis
    by (intro conjI) (rule twoPasses_run os ss f1 f2 a b0 b1 c d)+
qed

text \<open>
  Claim C6 as stated fails when the configured \<open>resizeDownFactor\<close> exceeds 1 (\<^verbatim>\<open>init\<close>
  takes any finite number as the override): with the factor 2 the scale goes from 1 to
  2, and a raster of 100 by 50 comes out 200 by 100.
\<close>

theorem scale_increases_counterexample:
  "renderResizedJpeg upscaling largeBlobs smallBitmap 1 (Number 2560) (Number 10) =
     Inr (upscalingResult, upscalingEvents) \<and>
   resizeDownFactor upscaling = 2 \<and>
   renderScales upscalingEvents = [1, 2] \<and>
   \<not> (renderScales upscalingEvents ! 1 \<le> renderScales upscalingEvents ! 0) \<and>
   \<not> (resScale upscalingResult \<le> 1) \<and>
   int (bitmapWidth smallBitmap) < resWidth upscalingResult \<and>
   int (bitmapHeight smallBitmap) < resHeight upscalingResult"
proof (intro conjI)
  show "renderResizedJpeg upscaling largeBlobs smallBitmap 1 (Number 2560) (Number 10) =
     Inr (upscalingResult, upscalingEvents)"
    by (rule upscaling_run)
qed (simp_all add: upscaling_def smallBitmap_def upscalingResult_def upscalingEvents_def)

lemma renderResizedJpeg_floor:
  assumes "renderResizedJpeg rt e bitmap orientation maxLongSide targetMax = Inr (r, evs')"
  shows "(\<forall>x\<in>set (encodeQualities evs'). x = jpegQualityStart rt \<or> jpegMinQuality rt \<le> x) \<and>
         resQuality r \<in> set (encodeQualities evs')"
proof -
  from renderResizedJpeg_InrD[OF assms] obtain m B where mB:
    "maxLongSide = Number m" "targetMax = Number B" "0 < m" "0 < B" "hasOffscreenCanvas e"
    by blast
  let ?oSize = "orientedSize (bitmapWidth bitmap) (bitmapHeight bitmap) orientation"
  let ?s0 = "if real (max (fst ?oSize) (snd ?oSize)) > m
             then m / real (max (fst ?oSize) (snd ?oSize)) else 1"
  let ?run = "resizeLoop rt e bitmap orientation B ?oSize ?s0 0 []"
  have run: "?run = (r, evs')"
    using renderResizedJpeg_Inr[OF mB(3,4,5), of rt bitmap orientation] assms
    unfolding mB(1,2) by simp
  from resizeLoop_spec[of rt e bitmap orientation B ?oSize ?s0 0 "[]"] run
  have a: "\<forall>x\<in>set (encodeQualities evs'). x = jpegQualityStart rt \<or> jpegMinQuality rt \<le> x"
    by auto
  from resizeLoop_log[OF run] obtain pre where
    "evs' = pre @ [Encode (resQuality r) (resBlobSize r)]" by auto
  then have b: "resQuality r \<in> set (encodeQualities evs')" by simp
  from a b show ?thesis by (intro conjI)
qed

text \<open>
  Claim C7, as amended. The qualities that one quality loop encodes at, from quality \<open>q\<close>
  on: the first is \<open>q\<close>; each later one is \<open>max jpegMinQuality (q' - jpegQualityStep)\<close>
  for the quality \<open>q'\<close> before it, so it is at least the floor \<open>jpegMinQuality\<close>, and
  all of them are when \<open>q\<close> is; an encode at a quality that this step would leave
  unchanged (the floor has been reached) is the last one of the loop; and there are at
  most \<open>\<lceil>maxQualityIters\<rceil>\<close> encodes. In a call of \<^verbatim>\<open>renderResizedJpeg\<close> every encode
  is at \<open>jpegQualityStart\<close> or at a quality that is at least the floor; provided
  \<open>jpegMinQuality \<le> jpegQualityStart\<close>, every encode and the returned quality are at
  least the floor.
\<close>

theorem qualityLoop_quality_floor:
  assumes "qs = encodeQualities (drop (length evs) (snd (qualityLoop rt encode target q iter evs)))"
  shows "(qs \<noteq> [] \<longrightarrow> hd qs = q) \<and>
     (\<forall>k. Suc k < length qs \<longrightarrow>
        qs ! Suc k = max (jpegMinQuality rt) (qs ! k - jpegQualityStep rt) \<and>
        jpegMinQuality rt \<le> qs ! Suc k) \<and>
     (jpegMinQuality rt \<le> q \<longrightarrow> (\<forall>x\<in>set qs. jpegMinQuality rt \<le> x)) \<and>
     (\<forall>k<length qs. max (jpegMinQuality rt) (qs ! k - jpegQualityStep rt) = qs ! k \<longrightarrow>
        Suc k = length qs) \<and>
     length qs \<le> nat \<lceil>maxQualityIters rt\<rceil> - iter \<and>
     (\<forall>e bitmap orientation maxLongSide targetMax r evs'.
        renderResizedJpeg rt e bitmap orientation maxLongSide targetMax = Inr (r, evs') \<longrightarrow>
        (\<forall>x\<in>set (encodeQualities evs'). x = jpegQualityStart rt \<or> jpegMinQuality rt \<le> x) \<and>
        (jpegMinQuality rt \<le> jpegQualityStart rt \<longrightarrow>
           (\<forall>x\<in>set (encodeQualities evs'). jpegMinQuality rt \<le> x) \<and>
           jpegMinQuality rt \<le> resQuality r))"
proof -
  from qualityLoop_events[of rt encode target q iter evs] obtain qs' where qs':
    "snd (qualityLoop rt encode target q iter evs) = evs @ map (\<lambda>q. Encode q (encode q)) qs'"
    "length qs' \<le> nat \<lceil>maxQualityIters rt\<rceil> - iter"
    "qs' \<noteq> [] \<longrightarrow> hd qs' = q"
    "\<forall>k. Suc k < length qs' \<longrightarrow>
        qs' ! Suc k = max (jpegMinQuality rt) (qs' ! k - jpegQualityStep rt) \<and>
        (qs' ! Suc k \<noteq> qs' ! k \<and> \<not> real (encode (qs' ! k)) \<le> target)"
    by auto
  from assms qs'(1) have eq: "qs = qs'" by simp
  have hd: "qs \<noteq> [] \<longrightarrow> hd qs = q" using qs'(3) eq by simp
  have chain: "\<forall>k. Suc k < length qs \<longrightarrow>
        qs ! Suc k = max (jpegMinQuality rt) (qs ! k - jpegQualityStep rt) \<and>
        jpegMinQuality rt \<le> qs ! Suc k"
    using qs'(4) eq by auto
  have floor: "jpegMinQuality rt \<le> q \<longrightarrow> (\<forall>x\<in>set qs. jpegMinQuality rt \<le> x)"
    using chain_floor[OF qs'(3) qs'(4)] eq by auto
  have brk: "\<forall>k<length qs. max (jpegMinQuality rt) (qs ! k - jpegQualityStep rt) = qs ! k \<longrightarrow>
        Suc k = length qs"
  proof (intro allI impI)
    fix k assume k: "k < length qs" and fx: "max (jpegMinQuality rt) (qs ! k - jpegQualityStep rt) = qs ! k"
    show "Suc k = length qs"
    proof (rule ccontr)
      assume "Suc k \<noteq> length qs"
      with k have "Suc k < length qs'" using eq by simp
      with qs'(4) have "qs' ! Suc k = max (jpegMinQuality rt) (qs' ! k - jpegQualityStep rt)"
        "qs' ! Suc k \<noteq> qs' ! k" by blast+
      with fx eq show False by simp
    qed
  qed
  have len: "length qs \<le> nat \<lceil>maxQualityIters rt\<rceil> - iter" using qs'(2) eq by simp
  have whole: "\<forall>e bitmap orientation maxLongSide targetMax r evs'.
        renderResizedJpeg rt e bitmap orientation maxLongSide targetMax = Inr (r, evs') \<longrightarrow>
        (\<forall>x\<in>set (encodeQualities evs'). x = jpegQualityStart rt \<or> jpegMinQuality rt \<le> x) \<and>
        (jpegMinQuality rt \<le> jpegQualityStart rt \<longrightarrow>
           (\<forall>x\<in>set (encodeQualities evs'). jpegMinQuality rt \<le> x) \<and>
           jpegMinQuality rt \<le> resQuality r)"
  proof (intro allI impI)
    fix e bitmap orientation maxLongSide targetMax r evs'
    assume run: "renderResizedJpeg rt e bitmap orientation maxLongSide targetMax = Inr (r, evs')"
    note f = renderResizedJpeg_floor[OF run]
    from f have a: "\<forall>x\<in>set (encodeQualities evs'). x = jpegQualityStart rt \<or> jpegMinQuality rt \<le> x"
      by (rule conjunct1)
    from f have b: "resQuality r \<in> set (encodeQualities evs')" by (rule conjunct2)
    have c: "jpegMinQuality rt \<le> jpegQualityStart rt \<longrightarrow>
           (\<forall>x\<in>set (encodeQualities evs'). jpegMinQuality rt \<le> x) \<and>
           jpegMinQuality rt \<le> resQuality r"
    proof
      assume le: "jpegMinQuality rt \<le> jpegQualityStart rt"
      with a have d: "\<forall>x\<in>set (encodeQualities evs'). jpegMinQuality rt \<le> x" by auto
      with b show "(\<forall>x\<in>set (encodeQualities evs'). jpegMinQuality rt \<le> x) \<and>
           jpegMinQuality rt \<le> resQuality r" by blast
    qed
    from a c show "(\<forall>x\<in>set (encodeQualities evs'). x = jpegQualityStart rt \<or> jpegMinQuality rt \<le> x) \<and>
        (jpegMinQuality rt \<le> jpegQualityStart rt \<longrightarrow>
           (\<forall>x\<in>set (encodeQualities evs'). jpegMinQuality rt \<le> x) \<and>
           jpegMinQuality rt \<le> resQuality r)" by (rule conjI)
  qed
  show ?thesis by (intro conjI) (rule hd chain floor brk len whole)+
qed

theorem qualityLoop_quality_floor_witness:
  "[0.95, 0.9, 0.85, 0.8, 0.75, 0.7, 0.65] =
     encodeQualities (drop (length ([] :: event list))
        (snd (qualityLoop RUNTIME_initial (\<lambda>q. 1000) 10 0.95 0 []))) \<and>
   jpegMinQuality RUNTIME_initial \<le> 0.95 \<and>
   max (jpegMinQuality RUNTIME_initial) ([0.95, 0.9, 0.85, 0.8, 0.75, 0.7, 0.65] ! 6
      - jpegQualityStep RUNTIME_initial) = [0.95, 0.9, 0.85, 0.8, 0.75, 0.7, 0.65 :: real] ! 6 \<and>
   Suc 6 = length [0.95, 0.9, 0.85, 0.8, 0.75, 0.7, 0.65 :: real] \<and>
   jpegMinQuality RUNTIME_initial \<le> [0.95, 0.9, 0.85, 0.8, 0.75, 0.7, 0.65] ! Suc 5 \<and>
   renderResizedJpeg twoPasses largeBlobs photoBitmap 6 (Number 2560) (Number 10) =
     Inr (twoPassesResult, twoPassesEvents) \<and>
   jpegMinQuality twoPasses \<le> jpegQualityStart twoPasses \<and>
   jpegMinQuality twoPasses \<le> resQuality twoPassesResult"
proof -
  let ?qs = "[0.95, 0.9, 0.85, 0.8, 0.75, 0.7, 0.65 :: real]"
  have run: "?qs = encodeQualities (drop (length ([] :: event list))
        (snd (qualityLoop RUNTIME_initial (\<lambda>q. 1000) 10 0.95 0 [])))"
    by (simp add: RUNTIME_initial_def qualityLoop.simps Let_def)
  have fl: "jpegMinQuality RUNTIME_initial \<le> 0.95" by (simp add: RUNTIME_initial_def)
  have fx: "max (jpegMinQuality RUNTIME_initial) (?qs ! 6 - jpegQualityStep RUNTIME_initial) = ?qs ! 6"
    by (simp add: RUNTIME_initial_def)
  have st: "jpegMinQuality twoPasses \<le> jpegQualityStart twoPasses"
    by (simp add: twoPasses_def RUNTIME_initial_def)
  note t = qualityLoop_quality_floor[OF run]
  from t fx have a: "Suc 6 = length ?qs" by simp
  from t have "\<forall>k. Suc k < length ?qs \<longrightarrow> jpegMinQuality RUNTIME_initial \<le> ?qs ! Suc k"
    by blast
  from this[rule_format, of 5] have b: "jpegMinQuality RUNTIME_initial \<le> ?qs ! Suc 5" by simp
  note w = qualityLoop_quality_floor[OF refl, THEN conjunct2, THEN conjunct2, THEN conjunct2,
      THEN conjunct2, THEN conjunct2, rule_format, OF twoPasses_run, THEN conjunct2,
      rule_format, OF st, THEN conjunct2]
  from run fl fx a b twoPasses_run st w show ?thesis by (intro conjI)
qed

lemma lowStart_run:
  "renderResizedJpeg lowStart largeBlobs smallBitmap 1 (Number 2560) (Number 500000) =
     Inr (lowStartResult, [Render 1 100 50, Encode 0.5 1000])"
  by (simp add: renderResizedJpeg_def orientedSize_def lowStart_def RUNTIME_initial_def
        largeBlobs_def smallBitmap_def resizeLoop.simps qualityLoop.simps Let_def
        lowStartResult_def)

text \<open>
  Claim C7 as stated fails when the configured \<open>jpegQualityStart\<close> is below
  \<open>jpegMinQuality\<close> (\<^verbatim>\<open>init\<close> takes any finite number as the override of either):
  every quality loop starts at \<open>jpegQualityStart\<close>, and the floor is applied only to the
  qualities after the first. An \<^verbatim>\<open>init\<close> message with the override
  \<^verbatim>\<open>jpegQualityStart = 0.5\<close> leaves the floor at 0.65; then the first encode is at 0.5,
  and when it fits the byte limit the result is returned at quality 0.5.
\<close>

theorem quality_below_floor_counterexample:
  "jpegQualityStart (initRuntime RUNTIME_initial
      ((initMessage Undefined (Number 500000))
         \<lparr>overrides := noOverrides\<lparr>oJpegQualityStart := Number 0.5\<rparr>\<rparr>)) = 0.5 \<and>
   jpegMinQuality (initRuntime RUNTIME_initial
      ((initMessage Undefined (Number 500000))
         \<lparr>overrides := noOverrides\<lparr>oJpegQualityStart := Number 0.5\<rparr>\<rparr>)) = 0.65 \<and>
   jpegQualityStart lowStart = 0.5 \<and> jpegMinQuality lowStart = 0.65 \<and>
   qualityLoop lowStart (\<lambda>q. 1000) 500000 (jpegQualityStart lowStart) 0 [] =
     (Some (0.5, 0, 1000), [Encode 0.5 1000]) \<and>
   renderResizedJpeg lowStart largeBlobs smallBitmap 1 (Number 2560) (Number 500000) =
     Inr (lowStartResult, [Render 1 100 50, Encode 0.5 1000]) \<and>
   resQuality lowStartResult = 0.5 \<and>
   \<not> (jpegMinQuality lowStart \<le> resQuality lowStartResult)"
proof (intro conjI)
  show "renderResizedJpeg lowStart largeBlobs smallBitmap 1 (Number 2560) (Number 500000) =
     Inr (lowStartResult, [Render 1 100 50, Encode 0.5 1000])"
    by (rule lowStart_run)
  show "qualityLoop lowStart (\<lambda>q. 1000) 500000 (jpegQualityStart lowStart) 0 [] =
     (Some (0.5, 0, 1000), [Encode 0.5 1000])"
    by (simp add: lowStart_def RUNTIME_initial_def qualityLoop.simps Let_def)
qed (simp_all add: lowStart_def RUNTIME_initial_def lowStartResult_def initRuntime_def
       initMessage_def noOverrides_def Let_def)

subsection \<open>The compositor\<close>

lemmas ctx_ops = ctx_save_def ctx_restore_def ctx_translate_def ctx_scale_def ctx_rotate_def
  ctx_fillRect_def ctx_drawImage_def

lemma orientationTransform_size:
  "canvasWidth (orientationTransform bitmap orientation outW outH ctx) = canvasWidth ctx \<and>
   canvasHeight (orientationTransform bitmap orientation outW outH ctx) = canvasHeight ctx \<and>
   saved (orientationTransform bitmap orientation outW outH ctx) = saved ctx"
  by (simp add: orientationTransform_def ctx_ops Let_def)

lemma drawBitmapWithOrientation_size:
  "canvasWidth (drawBitmapWithOrientation ctx bitmap orientation outW outH) = canvasWidth ctx \<and>
   canvasHeight (drawBitmapWithOrientation ctx bitmap orientation outW outH) = canvasHeight ctx"
  by (simp add: drawBitmapWithOrientation_def Let_def ctx_restore_def orientationTransform_size
        ctx_save_def ctx_fillRect_def split: list.splits prod.splits)

text \<open>
  What a render paints: the white rectangle over the whole canvas, then the raster, given
  by where its top-left, top-right and bottom-left corners land. For the tags 1 to 4 and
  6 to 8 the raster covers the canvas from \<open>(0, 0)\<close> to \<open>(W, H)\<close>. For tag 5 the
  \<^verbatim>\<open>translate(-outH, 0)\<close> of the source puts it in the rows from \<open>-H\<close> to 0, above the
  canvas, where the transposition would have its corners at \<open>(0, 0)\<close>, \<open>(0, H)\<close> and
  \<open>(W, 0)\<close>.
\<close>

lemma renderCanvas_painted:
  "painted (renderCanvas bitmap orientation W H) =
     [FillRect ''#ffffff'' (0, 0) (W, 0) (0, H),
      (if orientation = 2 then DrawImage bitmap (W, 0) (0, 0) (W, H)
       else if orientation = 3 then DrawImage bitmap (W, H) (0, H) (W, 0)
       else if orientation = 4 then DrawImage bitmap (0, H) (W, H) (0, 0)
       else if orientation = 5 then DrawImage bitmap (0, - H) (0, 0) (W, - H)
       else if orientation = 6 then DrawImage bitmap (W, 0) (W, H) (0, 0)
       else if orientation = 7 then DrawImage bitmap (W, H) (W, 0) (0, H)
       else if orientation = 8 then DrawImage bitmap (0, H) (0, 0) (W, H)
       else DrawImage bitmap (0, 0) (W, 0) (0, H))]"
  by (simp add: renderCanvas_def drawBitmapWithOrientation_def orientationTransform_def
        OffscreenCanvas_def identityMatrix_def ctx_ops Let_def)

lemma renderCanvas_state:
  "ctm (renderCanvas bitmap orientation W H) = identityMatrix \<and>
   fillStyle (renderCanvas bitmap orientation W H) = ''#000000'' \<and>
   saved (renderCanvas bitmap orientation W H) = []"
  by (simp add: renderCanvas_def drawBitmapWithOrientation_def orientationTransform_def
        OffscreenCanvas_def identityMatrix_def ctx_ops Let_def)

text \<open>
  Claim C3. Compositing leaves the dimensions of the canvas as they are, so the surface
  rendered for an oriented size \<open>(W, H)\<close> is \<open>W\<close> by \<open>H\<close> for every orientation tag,
  and its white background covers it. \<^verbatim>\<open>orientedSize\<close> gives \<open>(h, w)\<close> for the tags 5
  to 8 and \<open>(w, h)\<close> for every other tag. The width and height that
  \<^verbatim>\<open>renderResizedJpeg\<close> returns are the sides of the oriented size at the returned
  scale (rounded, at least 1), and the blob returned is the encoding of the canvas of
  that width and height.
\<close>

theorem compositor_surface_size:
  "canvasWidth (drawBitmapWithOrientation ctx bitmap orientation W H) = canvasWidth ctx \<and>
   canvasHeight (drawBitmapWithOrientation ctx bitmap orientation W H) = canvasHeight ctx \<and>
   canvasWidth (renderCanvas bitmap orientation W H) = W \<and>
   canvasHeight (renderCanvas bitmap orientation W H) = H \<and>
   hd (painted (renderCanvas bitmap orientation W H)) = FillRect ''#ffffff'' (0, 0) (W, 0) (0, H) \<and>
   (5 \<le> orientation \<and> orientation \<le> 8 \<longrightarrow> orientedSize w h orientation = (h, w)) \<and>
   (\<not> (5 \<le> orientation \<and> orientation \<le> 8) \<longrightarrow> orientedSize w h orientation = (w, h)) \<and>
   (\<forall>r evs. renderResizedJpeg rt e bitmap orientation maxLongSide targetMax = Inr (r, evs) \<longrightarrow>
      resWidth r = max 1 (round (real (fst (orientedSize (bitmapWidth bitmap)
                      (bitmapHeight bitmap) orientation)) * resScale r)) \<and>
      resHeight r = max 1 (round (real (snd (orientedSize (bitmapWidth bitmap)
                      (bitmapHeight bitmap) orientation)) * resScale r)) \<and>
      resBlobSize r =
        convertToBlob e (renderCanvas bitmap orientation (resWidth r) (resHeight r))
          (resQuality r))"
proof -
  have run: "\<forall>r evs. renderResizedJpeg rt e bitmap orientation maxLongSide targetMax = Inr (r, evs) \<longrightarrow>
      resWidth r = max 1 (round (real (fst (orientedSize (bitmapWidth bitmap)
                      (bitmapHeight bitmap) orientation)) * resScale r)) \<and>
      resHeight r = max 1 (round (real (snd (orientedSize (bitmapWidth bitmap)
                      (bitmapHeight bitmap) orientation)) * resScale r)) \<and>
      resBlobSize r =
        convertToBlob e (renderCanvas bitmap orientation (resWidth r) (resHeight r))
          (resQuality r)"
  proof (intro allI impI)
    fix r evs
    assume "renderResizedJpeg rt e bitmap orientation maxLongSide targetMax = Inr (r, evs)"
    from renderResizedJpeg_run[OF this] obtain B s0 where
      "resizeLoop rt e bitmap orientation B
         (orientedSize (bitmapWidth bitmap) (bitmapHeight bitmap) orientation) s0 0 [] = (r, evs)"
      by blast
    from resizeLoop_result[OF this] show
      "resWidth r = max 1 (round (real (fst (orientedSize (bitmapWidth bitmap)
                      (bitmapHeight bitmap) orientation)) * resScale r)) \<and>
      resHeight r = max 1 (round (real (snd (orientedSize (bitmapWidth bitmap)
                      (bitmapHeight bitmap) orientation)) * resScale r)) \<and>
      resBlobSize r =
        convertToBlob e (renderCanvas bitmap orientation (resWidth r) (resHeight r))
          (resQuality r)"
      by (simp add: outDim_def)
  qed
  have size: "canvasWidth (renderCanvas bitmap orientation W H) = W"
    "canvasHeight (renderCanvas bitmap orientation W H) = H"
    by (simp_all add: renderCanvas_def drawBitmapWithOrientation_size OffscreenCanvas_def)
  have fill: "hd (painted (renderCanvas bitmap orientation W H)) =
      FillRect ''#ffffff'' (0, 0) (W, 0) (0, H)"
    by (simp add: renderCanvas_painted)
  have os: "5 \<le> orientation \<and> orientation \<le> 8 \<longrightarrow> orientedSize w h orientation = (h, w)"
    "\<not> (5 \<le> orientation \<and> orientation \<le> 8) \<longrightarrow> orientedSize w h orientation = (w, h)"
    by (simp_all add: orientedSize_def)
  show ?thesis
    by (intro conjI) (rule drawBitmapWithOrientation_size[THEN conjunct1]
        drawBitmapWithOrientation_size[THEN conjunct2] size fill os run)+
qed

theorem compositor_surface_size_witness:
  "(5::nat) \<le> 6 \<and> (6::nat) \<le> 8 \<and> orientedSize 4000 3000 6 = (3000, 4000) \<and>
   \<not> ((5::nat) \<le> 3 \<and> (3::nat) \<le> 8) \<and> orientedSize 4000 3000 3 = (4000, 3000) \<and>
   renderResizedJpeg twoPasses largeBlobs photoBitmap 6 (Number 2560) (Number 10) =
     Inr (twoPassesResult, twoPassesEvents) \<and>
   resWidth twoPassesResult =
     max 1 (round (real (fst (orientedSize (bitmapWidth photoBitmap)
                      (bitmapHeight photoBitmap) 6)) * resScale twoPassesResult)) \<and>
   canvasWidth (renderCanvas photoBitmap 6 (resWidth twoPassesResult)
      (resHeight twoPassesResult)) = resWidth twoPassesResult"
proof -
  have a1: "(5::nat) \<le> 6" and a2: "(6::nat) \<le> 8" by simp_all
  have b: "\<not> ((5::nat) \<le> 3 \<and> (3::nat) \<le> 8)" by simp
  from compositor_surface_size[of _ _ 6 _ _ 4000 3000] a1 a2
  have c: "orientedSize 4000 3000 6 = (3000, 4000)" by blast
  from compositor_surface_size[of _ _ 3 _ _ 4000 3000] b
  have d: "orientedSize 4000 3000 3 = (4000, 3000)" by blast
  note t = compositor_surface_size[of _ photoBitmap 6 "resWidth twoPassesResult"
      "resHeight twoPassesResult" _ _ twoPasses largeBlobs "Number 2560" "Number 10"]
  from t twoPasses_run
  have f: "resWidth twoPassesResult =
     max 1 (round (real (fst (orientedSize (bitmapWidth photoBitmap)
                      (bitmapHeight photoBitmap) 6)) * resScale twoPassesResult))"
    by blast
  from t have g: "canvasWidth (renderCanvas photoBitmap 6 (resWidth twoPassesResult)
      (resHeight twoPassesResult)) = resWidth twoPassesResult"
    by blast
  show ?thesis
    by (intro conjI) (rule a1 a2 b c d twoPasses_run f g)+
qed

subsection \<open>The message handler\<close>

lemmas eval_mime = inferMime_def toLowerCase_def char_of_def bit_Suc_0_iff endsWith_def
  isHeicLike_def Let_def

lemma inferMime_pngFile: "inferMime pngFile = ''image/png''"
  by (simp add: eval_mime pngFile_def)

lemma inferMime_heicFile: "inferMime heicFile = ''image/heic''"
  by (simp add: eval_mime heicFile_def)

lemma initRuntime_ready: "ready (initRuntime rt msg)"
  by (simp add: initRuntime_def Let_def split: option.splits)

lemma initRuntime_targetMaxBytes:
  "targetMaxBytes (initRuntime rt msg) =
     (if isFiniteNumber (cfgTargetMaxBytes msg) then Some (numberOf (cfgTargetMaxBytes msg))
      else None)"
  by (simp add: initRuntime_def Let_def split: option.splits)

lemma initRuntime_maxLongSidePx:
  "maxLongSidePx (initRuntime rt msg) =
     (if isFiniteNumber (cfgMaxLongSidePx msg) then numberOf (cfgMaxLongSidePx msg) else 2560)"
  by (simp add: initRuntime_def Let_def split: option.splits)

lemma onmessage_init:
  "msgType msg = ''init'' \<Longrightarrow>
   onmessage rt e msg = (initRuntime rt msg, initResponse (initRuntime rt msg) e, [])"
  by (simp add: onmessage_def Let_def)

lemma onmessage_process:
  "msgType msg = ''process'' \<Longrightarrow> onmessage rt e msg = (rt, processRequest rt e msg)"
  by (simp add: onmessage_def)

lemma onmessage_keeps_runtime:
  "msgType msg \<noteq> ''init'' \<Longrightarrow> fst (onmessage rt e msg) = rt"
  by (simp add: onmessage_def)

lemma worker_runtime_Cons:
  "fst (worker rt e (msg # msgs)) = fst (worker (fst (onmessage rt e msg)) e msgs)"
  by (simp split: prod.splits)

lemma worker_keeps_runtime:
  "(\<forall>m\<in>set msgs. msgType m \<noteq> ''init'') \<Longrightarrow> fst (worker rt e msgs) = rt"
proof (induction msgs arbitrary: rt)
  case Nil
  show ?case by simp
next
  case (Cons msg msgs)
  from Cons.prems have "fst (onmessage rt e msg) = rt"
    by (simp add: onmessage_keeps_runtime)
  with Cons show ?case unfolding worker_runtime_Cons by simp
qed

lemma worker_runtime_inits:
  "fst (worker rt e msgs) = fst (worker rt e (filter (\<lambda>m. msgType m = ''init'') msgs))"
proof (induction msgs arbitrary: rt)
  case Nil
  show ?case by simp
next
  case (Cons msg msgs)
  show ?case
  proof (cases "msgType msg = ''init''")
    case True
    then have "filter (\<lambda>m. msgType m = ''init'') (msg # msgs) =
        msg # filter (\<lambda>m. msgType m = ''init'') msgs" by simp
    then show ?thesis unfolding worker_runtime_Cons using Cons.IH by (simp split: prod.splits)
  next
    case False
    then have k: "fst (onmessage rt e msg) = rt" by (simp add: onmessage_keeps_runtime)
    from False have "filter (\<lambda>m. msgType m = ''init'') (msg # msgs) =
        filter (\<lambda>m. msgType m = ''init'') msgs" by simp
    then show ?thesis unfolding worker_runtime_Cons k using Cons.IH by simp
  qed
qed

lemma worker_missing_target:
  assumes "ready rt" and "targetMissing rt"
  shows "(\<forall>m\<in>set requests. msgType m = ''process'') \<Longrightarrow>
    worker rt e requests =
      (rt, map (\<lambda>m. (err ''E_CONFIG_TARGET_MAX_BYTES_MISSING'' messageTargetMissing
                          (Some ''process_err'') None None, [])) requests)"
proof (induction requests)
  case Nil
  show ?case by simp
next
  case (Cons m ms)
  from Cons.prems have p: "msgType m = ''process''" by simp
  have "onmessage rt e m = (rt, err ''E_CONFIG_TARGET_MAX_BYTES_MISSING'' messageTargetMissing
                          (Some ''process_err'') None None, [])"
    unfolding onmessage_process[OF p] using assms by (simp add: processRequest_def)
  with Cons show ?case by simp
qed

text \<open>
  Claim C4, as amended. When \<^verbatim>\<open>target_max_bytes\<close> of the \<^verbatim>\<open>init\<close> message is not a
  finite number, or is 0, the acknowledgment is a success that carries the warning, the
  runtime is ready with a byte budget of \<^verbatim>\<open>null\<close> or 0 (nothing is put in its place), and
  a \<^verbatim>\<open>process\<close> request handled in that state, whatever the platform and the file, gets
  \<^verbatim>\<open>E_CONFIG_TARGET_MAX_BYTES_MISSING\<close> with no platform call made (no decode, render
  or encode) and leaves the state as it is; so does every request of any sequence of
  \<^verbatim>\<open>process\<close> requests that follows.
\<close>

theorem missing_target_fails_fast:
  assumes "msgType init = ''init''"
    and "\<not> isFiniteNumber (cfgTargetMaxBytes init) \<or> cfgTargetMaxBytes init = Number 0"
    and "msgType request = ''process''"
    and "rt = initRuntime rt0 init"
  shows "(\<exists>ack. onmessage rt0 e init = (rt, OkInit ack, []) \<and>
            warnings ack = [warningTargetMissing] \<and>
            (okTargetMaxBytes ack = None \<or> okTargetMaxBytes ack = Some 0)) \<and>
         ready rt \<and> (targetMaxBytes rt = None \<or> targetMaxBytes rt = Some 0) \<and>
         onmessage rt e' request =
           (rt, err ''E_CONFIG_TARGET_MAX_BYTES_MISSING'' messageTargetMissing
                  (Some ''process_err'') None None, []) \<and>
         ((\<forall>m\<in>set requests. msgType m = ''process'') \<longrightarrow>
            worker rt e' requests =
              (rt, map (\<lambda>m. (err ''E_CONFIG_TARGET_MAX_BYTES_MISSING'' messageTargetMissing
                                  (Some ''process_err'') None None, [])) requests))"
proof -
  have tm: "targetMaxBytes rt = None \<or> targetMaxBytes rt = Some 0"
    using assms(2) unfolding assms(4) initRuntime_targetMaxBytes by auto
  then have missing: "targetMissing rt" by (simp add: targetMissing_def)
  have rdy: "ready rt" unfolding assms(4) by (rule initRuntime_ready)
  have ack: "\<exists>ack. onmessage rt0 e init = (rt, OkInit ack, []) \<and>
            warnings ack = [warningTargetMissing] \<and>
            (okTargetMaxBytes ack = None \<or> okTargetMaxBytes ack = Some 0)"
    unfolding onmessage_init[OF assms(1)] assms(4)[symmetric]
    using missing tm by (simp add: initResponse_def)
  have req: "onmessage rt e' request =
           (rt, err ''E_CONFIG_TARGET_MAX_BYTES_MISSING'' messageTargetMissing
                  (Some ''process_err'') None None, [])"
    unfolding onmessage_process[OF assms(3)]
    using missing rdy by (simp add: processRequest_def)
  have all: "(\<forall>m\<in>set requests. msgType m = ''process'') \<longrightarrow>
            worker rt e' requests =
              (rt, map (\<lambda>m. (err ''E_CONFIG_TARGET_MAX_BYTES_MISSING'' messageTargetMissing
                                  (Some ''process_err'') None None, [])) requests)"
    using worker_missing_target[OF rdy missing] by blast
  show ?thesis by (intro conjI) (rule ack rdy tm req all)+
qed

lemma initRuntime_initMessage:
  "initRuntime RUNTIME_initial (initMessage Undefined targetMax) =
     RUNTIME_initial\<lparr>targetMaxBytes :=
        (if isFiniteNumber targetMax then Some (numberOf targetMax) else None), ready := True\<rparr>"
  by (simp add: initRuntime_def initMessage_def noOverrides_def RUNTIME_initial_def Let_def)

theorem missing_target_fails_fast_witness:
  "msgType (initMessage Undefined Undefined) = ''init'' \<and>
   \<not> isFiniteNumber (cfgTargetMaxBytes (initMessage Undefined Undefined)) \<and>
   msgType (processMessage ''r1'' (Some pngFile)) = ''process'' \<and>
   msgType (processMessage ''r2'' (Some heicFile)) = ''process'' \<and>
   noBudget = initRuntime RUNTIME_initial (initMessage Undefined Undefined) \<and>
   onmessage noBudget largeBlobs (processMessage ''r1'' (Some pngFile)) =
     (noBudget, err ''E_CONFIG_TARGET_MAX_BYTES_MISSING'' messageTargetMissing
        (Some ''process_err'') None None, []) \<and>
   worker noBudget largeBlobs
       [processMessage ''r1'' (Some pngFile), processMessage ''r2'' (Some heicFile)] =
     (noBudget,
      [(err ''E_CONFIG_TARGET_MAX_BYTES_MISSING'' messageTargetMissing
          (Some ''process_err'') None None, []),
       (err ''E_CONFIG_TARGET_MAX_BYTES_MISSING'' messageTargetMissing
          (Some ''process_err'') None None, [])])"
proof -
  have a: "msgType (initMessage Undefined Undefined) = ''init''"
    by (simp add: initMessage_def)
  have b: "\<not> isFiniteNumber (cfgTargetMaxBytes (initMessage Undefined Undefined))"
    by (simp add: initMessage_def)
  have c: "msgType (processMessage ''r1'' (Some pngFile)) = ''process''"
    and c2: "msgType (processMessage ''r2'' (Some heicFile)) = ''process''"
    by (simp_all add: processMessage_def)
  have d: "noBudget = initRuntime RUNTIME_initial (initMessage Undefined Undefined)"
    unfolding initRuntime_initMessage by (simp add: noBudget_def RUNTIME_initial_def)
  note t = missing_target_fails_fast[OF a disjI1[OF b] c d, of largeBlobs largeBlobs
      "[processMessage ''r1'' (Some pngFile), processMessage ''r2'' (Some heicFile)]"]
  from t have e: "onmessage noBudget largeBlobs (processMessage ''r1'' (Some pngFile)) =
     (noBudget, err ''E_CONFIG_TARGET_MAX_BYTES_MISSING'' messageTargetMissing
        (Some ''process_err'') None None, [])"
    by blast
  have "\<forall>m\<in>set [processMessage ''r1'' (Some pngFile), processMessage ''r2'' (Some heicFile)].
      msgType m = ''process''"
    using c c2 by simp
  with t have "worker noBudget largeBlobs
       [processMessage ''r1'' (Some pngFile), processMessage ''r2'' (Some heicFile)] =
     (noBudget, map (\<lambda>m. (err ''E_CONFIG_TARGET_MAX_BYTES_MISSING'' messageTargetMissing
          (Some ''process_err'') None None, []))
        [processMessage ''r1'' (Some pngFile), processMessage ''r2'' (Some heicFile)])"
    by blast
  then have f: "worker noBudget largeBlobs
       [processMessage ''r1'' (Some pngFile), processMessage ''r2'' (Some heicFile)] =
     (noBudget,
      [(err ''E_CONFIG_TARGET_MAX_BYTES_MISSING'' messageTargetMissing
          (Some ''process_err'') None None, []),
       (err ''E_CONFIG_TARGET_MAX_BYTES_MISSING'' messageTargetMissing
          (Some ''process_err'') None None, [])])"
    by (simp only: list.map)
  show ?thesis by (intro conjI) (rule a b c c2 d e f)+
qed

text \<open>
  Claim C4 as stated fails for a byte budget that is finite and negative: \<^verbatim>\<open>init\<close>
  gives no warning, and a \<^verbatim>\<open>process\<close> request passes the gate, decodes the file and
  ends in the error that \<^verbatim>\<open>renderResizedJpeg\<close> throws for a budget that is not positive.
\<close>

theorem negative_target_counterexample:
  "msgType (initMessage Undefined (Number (- 1))) = ''init'' \<and>
   cfgTargetMaxBytes (initMessage Undefined (Number (- 1))) = Number (- 1) \<and>
   onmessage RUNTIME_initial largeBlobs (initMessage Undefined (Number (- 1))) =
     (negativeBudget,
      OkInit \<lparr>okMaxLongSidePx = 2560, okTargetMaxBytes = Some (- 1), hasHeicWasm = False,
              hasWebCodecsImageDecoder = False, warnings = []\<rparr>, []) \<and>
   onmessage negativeBudget largeBlobs (processMessage ''r1'' (Some pngFile)) =
     (negativeBudget,
      err ''E_WORKER_EXCEPTION'' ''Unhandled worker exception'' None None
        (Some ''Invalid targetMaxBytes''),
      [Decode ''native_from-image''])"
proof (intro conjI)
  show "msgType (initMessage Undefined (Number (- 1))) = ''init''"
    by (simp add: initMessage_def)
  show "cfgTargetMaxBytes (initMessage Undefined (Number (- 1))) = Number (- 1)"
    by (simp add: initMessage_def)
  have m: "msgType (initMessage Undefined (Number (- 1))) = ''init''"
    by (simp add: initMessage_def)
  show "onmessage RUNTIME_initial largeBlobs (initMessage Undefined (Number (- 1))) =
     (negativeBudget,
      OkInit \<lparr>okMaxLongSidePx = 2560, okTargetMaxBytes = Some (- 1), hasHeicWasm = False,
              hasWebCodecsImageDecoder = False, warnings = []\<rparr>, [])"
    unfolding onmessage_init[OF m] initRuntime_initMessage
    by (simp add: negativeBudget_def initResponse_def targetMissing_def RUNTIME_initial_def
          largeBlobs_def)
  have p: "msgType (processMessage ''r1'' (Some pngFile)) = ''process''"
    by (simp add: processMessage_def)
  show "onmessage negativeBudget largeBlobs (processMessage ''r1'' (Some pngFile)) =
     (negativeBudget,
      err ''E_WORKER_EXCEPTION'' ''Unhandled worker exception'' None None
        (Some ''Invalid targetMaxBytes''),
      [Decode ''native_from-image''])"
    unfolding onmessage_process[OF p]
    by (simp add: processRequest_def processMessage_def inferMime_pngFile isHeicLike_def
          negativeBudget_def RUNTIME_initial_def targetMissing_def bitmapFromNonHeic_def
          largeBlobs_def processDecoded_def renderResizedJpeg_def)
qed

lemma processDecoded_ok:
  assumes "processDecoded rt e rid file mime decoded evs = (OkProcess ok, evs')"
  shows "\<exists>B. targetMaxBytes rt = Some B \<and> 0 < B \<and>
           outBestEffortOverLimit (debugOutput ok) = (B < real (normalizedBytes ok)) \<and>
           outBytes (debugOutput ok) = normalizedBytes ok \<and>
           debugLimitTargetMaxBytes ok = Some B"
proof -
  let ?o = "if decodedOrientation decoded = 0 then 1 else decodedOrientation decoded"
  let ?t = "case targetMaxBytes rt of None \<Rightarrow> Null | Some b \<Rightarrow> Number b"
  let ?call = "renderResizedJpeg rt e (decodedBitmap decoded) ?o (Number (maxLongSidePx rt)) ?t"
  from assms obtain r revs where call: "?call = Inr (r, revs)"
    by (cases ?call) (auto simp: processDecoded_def Let_def err_def)
  from renderResizedJpeg_run[OF call] obtain B s0 where
    B: "?t = Number B" "0 < B" and
    run: "resizeLoop rt e (decodedBitmap decoded) ?o B
            (orientedSize (bitmapWidth (decodedBitmap decoded))
               (bitmapHeight (decodedBitmap decoded)) ?o) s0 0 [] = (r, revs)"
    by blast
  from B(1) have tm: "targetMaxBytes rt = Some B" by (cases "targetMaxBytes rt") auto
  from resizeLoop_result[OF run] have
    flag: "case bestEffortOverLimit r of None \<Rightarrow> real (resBlobSize r) \<le> B
           | Some b \<Rightarrow> b = (B < real (resBlobSize r))" by simp
  from assms call have ok: "normalizedBytes ok = resBlobSize r"
    "outBytes (debugOutput ok) = resBlobSize r"
    "outBestEffortOverLimit (debugOutput ok) =
       (case bestEffortOverLimit r of Some b \<Rightarrow> b | None \<Rightarrow> False)"
    "debugLimitTargetMaxBytes ok = targetMaxBytes rt"
    by (auto simp: processDecoded_def Let_def)
  from flag have "outBestEffortOverLimit (debugOutput ok) = (B < real (normalizedBytes ok))"
    unfolding ok by (cases "bestEffortOverLimit r") auto
  with tm B(2) ok show ?thesis by simp
qed

text \<open>
  Claim C10. In a successful response to a \<^verbatim>\<open>process\<close> request the flag
  \<^verbatim>\<open>debug.output.bestEffortOverLimit\<close> is true exactly when the normalized JPEG has
  more bytes than the configured \<^verbatim>\<open>targetMaxBytes\<close> (a positive number then); when the
  flag is false the output is within the budget.
\<close>

theorem bestEffortOverLimit_iff_over_budget:
  assumes "onmessage rt e msg = (rt', OkProcess ok, evs)"
  shows "\<exists>B. targetMaxBytes rt = Some B \<and> 0 < B \<and>
           (outBestEffortOverLimit (debugOutput ok) \<longleftrightarrow> B < real (normalizedBytes ok)) \<and>
           (\<not> outBestEffortOverLimit (debugOutput ok) \<longrightarrow> real (normalizedBytes ok) \<le> B) \<and>
           outBytes (debugOutput ok) = normalizedBytes ok \<and>
           debugLimitTargetMaxBytes ok = Some B \<and> rt' = rt"
proof -
  from assms have p: "msgType msg = ''process''" and rt: "rt' = rt"
    and req: "processRequest rt e msg = (OkProcess ok, evs)"
    by (auto simp: onmessage_def Let_def initResponse_def err_def split: if_splits)
  from req obtain rid fl mime decoded evs0 where
    "processDecoded rt e rid fl mime decoded evs0 = (OkProcess ok, evs)"
    by (auto simp: processRequest_def Let_def err_def
             split: if_splits option.splits prod.splits sum.splits)
  from processDecoded_ok[OF this] rt show ?thesis by auto
qed

lemma process_png_ok:
  "\<exists>ok evs. onmessage budget500k largeBlobs (processMessage ''r1'' (Some pngFile)) =
       (budget500k, OkProcess ok, evs) \<and> normalizedBytes ok = 1000 \<and>
       okRequestId ok = ''r1''"
proof -
  have p: "msgType (processMessage ''r1'' (Some pngFile)) = ''process''"
    by (simp add: processMessage_def)
  show ?thesis
    unfolding onmessage_process[OF p]
    by (simp add: processRequest_def processMessage_def inferMime_pngFile isHeicLike_def
          budget500k_def RUNTIME_initial_def targetMissing_def bitmapFromNonHeic_def
          largeBlobs_def processDecoded_def renderResizedJpeg_def smallBitmap_def
          orientedSize_def resizeLoop.simps qualityLoop.simps Let_def)
qed

theorem bestEffortOverLimit_iff_over_budget_witness:
  "\<exists>ok evs. onmessage budget500k largeBlobs (processMessage ''r1'' (Some pngFile)) =
       (budget500k, OkProcess ok, evs) \<and> normalizedBytes ok = 1000 \<and>
       targetMaxBytes budget500k = Some 500000 \<and>
       \<not> outBestEffortOverLimit (debugOutput ok) \<and> real (normalizedBytes ok) \<le> 500000"
proof -
  from process_png_ok obtain ok evs where
    run: "onmessage budget500k largeBlobs (processMessage ''r1'' (Some pngFile)) =
       (budget500k, OkProcess ok, evs)" and n: "normalizedBytes ok = 1000"
    by blast
  have tm: "targetMaxBytes budget500k = Some 500000"
    by (simp add: budget500k_def)
  from bestEffortOverLimit_iff_over_budget[OF run] tm n
  have "\<not> outBestEffortOverLimit (debugOutput ok) \<and> real (normalizedBytes ok) \<le> 500000"
    by auto
  with run n tm show ?thesis by blast
qed

lemma messageHeicFailed_suffix: "\<exists>text. messageHeicFailed = text @ ''JPEG/PNG.''"
  unfolding messageHeicFailed_def by (metis append.assoc)

text \<open>
  Claim C5. A \<^verbatim>\<open>process\<close> request for a HEIC-like file, in a ready worker with a byte
  budget and no external decoder (no handle, or one without \<^verbatim>\<open>decodeToRGBA\<close>): when
  \<^verbatim>\<open>ImageDecoder\<close> is undefined the response is \<^verbatim>\<open>E_HEIC_CONVERT_FAILED\<close>, with the
  request identifier and a message that ends in \<^verbatim>\<open>JPEG/PNG.\<close> (it tells the user to
  choose a photo in JPEG/PNG). A failure of the \<^verbatim>\<open>ImageDecoder\<close> strategy is swallowed:
  without an external decoder the outcome is the same error, and with one the result of
  \<^verbatim>\<open>bitmapFromHeic\<close> is that of the external decoder.
\<close>

theorem heic_unavailable:
  assumes "msgType request = ''process''" and "ready rt" and "\<not> targetMissing rt"
    and "msgFile request = Some heic" and "isHeicLike (inferMime heic)"
    and "heicWasm rt = None \<or> (\<exists>h. heicWasm rt = Some h \<and> decodeToRGBA h = None)"
  shows "(imageDecoder e = None \<longrightarrow>
            onmessage rt e request =
              (rt, err ''E_HEIC_CONVERT_FAILED'' messageHeicFailed (Some ''process_err'')
                     (Some (msgRequestId request))
                     (Some ''HEIC decode not available (no WebCodecs ImageDecoder and no WASM decoder provided)''),
               [])) \<and>
         (\<exists>text. messageHeicFailed = text @ ''JPEG/PNG.'') \<and>
         (\<forall>decode. imageDecoder e = Some decode \<and>
             decode heic (if inferMime heic \<noteq> [] then inferMime heic else ''image/heic'') = None \<longrightarrow>
            onmessage rt e request =
              (rt, err ''E_HEIC_CONVERT_FAILED'' messageHeicFailed (Some ''process_err'')
                     (Some (msgRequestId request))
                     (Some ''HEIC decode not available (no WebCodecs ImageDecoder and no WASM decoder provided)''),
               [Decode ''webcodecs_imagedecoder''])) \<and>
         (\<forall>rt' decode h wasm. imageDecoder e = Some decode \<and>
             decode heic (if inferMime heic \<noteq> [] then inferMime heic else ''image/heic'') = None \<and>
             heicWasm rt' = Some h \<and> decodeToRGBA h = Some wasm \<longrightarrow>
            bitmapFromHeic rt' e heic =
              (wasmDecode e wasm heic, [Decode ''webcodecs_imagedecoder'', Decode ''wasm_rgba'']))"
proof -
  have nowasm: "(case heicWasm rt of None \<Rightarrow> None | Some h \<Rightarrow> decodeToRGBA h) = None"
    using assms(6) by auto
  have a: "imageDecoder e = None \<longrightarrow>
            onmessage rt e request =
              (rt, err ''E_HEIC_CONVERT_FAILED'' messageHeicFailed (Some ''process_err'')
                     (Some (msgRequestId request))
                     (Some ''HEIC decode not available (no WebCodecs ImageDecoder and no WASM decoder provided)''),
               [])"
    unfolding onmessage_process[OF assms(1)]
    using assms(2-5) nowasm
    by (simp add: processRequest_def bitmapFromHeic_def Let_def)
  have c: "\<forall>decode. imageDecoder e = Some decode \<and>
             decode heic (if inferMime heic \<noteq> [] then inferMime heic else ''image/heic'') = None \<longrightarrow>
            onmessage rt e request =
              (rt, err ''E_HEIC_CONVERT_FAILED'' messageHeicFailed (Some ''process_err'')
                     (Some (msgRequestId request))
                     (Some ''HEIC decode not available (no WebCodecs ImageDecoder and no WASM decoder provided)''),
               [Decode ''webcodecs_imagedecoder''])"
    unfolding onmessage_process[OF assms(1)]
    using assms(2-5) nowasm
    by (simp add: processRequest_def bitmapFromHeic_def Let_def)
  have d: "\<forall>rt' decode h wasm. imageDecoder e = Some decode \<and>
             decode heic (if inferMime heic \<noteq> [] then inferMime heic else ''image/heic'') = None \<and>
             heicWasm rt' = Some h \<and> decodeToRGBA h = Some wasm \<longrightarrow>
            bitmapFromHeic rt' e heic =
              (wasmDecode e wasm heic, [Decode ''webcodecs_imagedecoder'', Decode ''wasm_rgba''])"
    by (simp add: bitmapFromHeic_def Let_def)
  show ?thesis by (intro conjI) (rule a messageHeicFailed_suffix c d)+
qed

theorem heic_unavailable_witness:
  "msgType (processMessage ''r1'' (Some heicFile)) = ''process'' \<and> ready budget500k \<and>
   \<not> targetMissing budget500k \<and> msgFile (processMessage ''r1'' (Some heicFile)) = Some heicFile \<and>
   isHeicLike (inferMime heicFile) \<and> heicWasm budget500k = None \<and>
   imageDecoder largeBlobs = None \<and>
   onmessage budget500k largeBlobs (processMessage ''r1'' (Some heicFile)) =
     (budget500k,
      err ''E_HEIC_CONVERT_FAILED'' messageHeicFailed (Some ''process_err'') (Some ''r1'')
        (Some ''HEIC decode not available (no WebCodecs ImageDecoder and no WASM decoder provided)''),
      []) \<and>
   imageDecoder failingImageDecoder = Some (\<lambda>file mime. None) \<and>
   heicWasm withWasm = Some exampleDecoder \<and>
   bitmapFromHeic withWasm failingImageDecoder heicFile =
     (Inr \<lparr>decodedBitmap = \<lparr>bitmapWidth = 2, bitmapHeight = 1, bitmapPixels = 7\<rparr>,
           decodedOrientation = 6, orientationMode = ''wasm_rgba''\<rparr>,
      [Decode ''webcodecs_imagedecoder'', Decode ''wasm_rgba''])"
proof -
  have a: "msgType (processMessage ''r1'' (Some heicFile)) = ''process''"
    by (simp add: processMessage_def)
  have b: "ready budget500k" by (simp add: budget500k_def)
  have c: "\<not> targetMissing budget500k" by (simp add: budget500k_def targetMissing_def)
  have d: "msgFile (processMessage ''r1'' (Some heicFile)) = Some heicFile"
    by (simp add: processMessage_def)
  have e: "isHeicLike (inferMime heicFile)"
    unfolding inferMime_heicFile by (simp add: isHeicLike_def)
  have f: "heicWasm budget500k = None" by (simp add: budget500k_def RUNTIME_initial_def)
  have g: "imageDecoder largeBlobs = None" by (simp add: largeBlobs_def)
  have rid: "msgRequestId (processMessage ''r1'' (Some heicFile)) = ''r1''"
    by (simp add: processMessage_def)
  note t = heic_unavailable[OF a b c d e disjI1[OF f]]
  from t[of largeBlobs] g rid
  have h: "onmessage budget500k largeBlobs (processMessage ''r1'' (Some heicFile)) =
     (budget500k,
      err ''E_HEIC_CONVERT_FAILED'' messageHeicFailed (Some ''process_err'') (Some ''r1'')
        (Some ''HEIC decode not available (no WebCodecs ImageDecoder and no WASM decoder provided)''),
      [])"
    by simp
  have i: "imageDecoder failingImageDecoder = Some (\<lambda>file mime. None)"
    by (simp add: failingImageDecoder_def)
  have j: "heicWasm withWasm = Some exampleDecoder" by (simp add: withWasm_def)
  have k: "decodeToRGBA exampleDecoder = Some (\<lambda>bytes. Inr (Some examplePayload))"
    by (simp add: exampleDecoder_def)
  from t[of failingImageDecoder] i j k
  have "bitmapFromHeic withWasm failingImageDecoder heicFile =
      (wasmDecode failingImageDecoder (\<lambda>bytes. Inr (Some examplePayload)) heicFile,
       [Decode ''webcodecs_imagedecoder'', Decode ''wasm_rgba''])"
    by blast
  then have l: "bitmapFromHeic withWasm failingImageDecoder heicFile =
     (Inr \<lparr>decodedBitmap = \<lparr>bitmapWidth = 2, bitmapHeight = 1, bitmapPixels = 7\<rparr>,
           decodedOrientation = 6, orientationMode = ''wasm_rgba''\<rparr>,
      [Decode ''webcodecs_imagedecoder'', Decode ''wasm_rgba''])"
    by (simp add: wasmDecode_def examplePayload_def failingImageDecoder_def largeBlobs_def
          Let_def)
  show ?thesis by (intro conjI) (rule a b c d e f g h i j l)+
qed

text \<open>
  Claim C8 at four failing requests, each with the request identifier \<^verbatim>\<open>r1\<close>: the
  responses for a worker that is not initialized, for a missing byte budget and for an
  exception of the pipeline carry no request identifier; the response for a missing file
  does.
\<close>

theorem process_errors_without_requestId:
  "msgRequestId (processMessage ''r1'' (Some pngFile)) = ''r1'' \<and>
   onmessage RUNTIME_initial largeBlobs (processMessage ''r1'' (Some pngFile)) =
     (RUNTIME_initial,
      Err \<lparr>code = ''E_NOT_INITIALIZED'',
           message = ''Worker is not initialized. Call init() first.'',
           errType = Some ''process_err'', errRequestId = None, detail = None\<rparr>, []) \<and>
   onmessage noBudget largeBlobs (processMessage ''r1'' (Some pngFile)) =
     (noBudget,
      Err \<lparr>code = ''E_CONFIG_TARGET_MAX_BYTES_MISSING'', message = messageTargetMissing,
           errType = Some ''process_err'', errRequestId = None, detail = None\<rparr>, []) \<and>
   onmessage negativeBudget largeBlobs (processMessage ''r1'' (Some pngFile)) =
     (negativeBudget,
      Err \<lparr>code = ''E_WORKER_EXCEPTION'', message = ''Unhandled worker exception'',
           errType = None, errRequestId = None, detail = Some ''Invalid targetMaxBytes''\<rparr>,
      [Decode ''native_from-image'']) \<and>
   onmessage budget500k largeBlobs (processMessage ''r1'' None) =
     (budget500k,
      Err \<lparr>code = ''E_NO_FILE'', message = ''No file provided'',
           errType = Some ''process_err'', errRequestId = Some ''r1'', detail = None\<rparr>, [])"
proof -
  have p: "msgType (processMessage ''r1'' f) = ''process''" for f
    by (simp add: processMessage_def)
  show ?thesis
    unfolding onmessage_process[OF p]
    by (simp add: processRequest_def processMessage_def inferMime_pngFile isHeicLike_def
          budget500k_def noBudget_def negativeBudget_def RUNTIME_initial_def targetMissing_def
          bitmapFromNonHeic_def largeBlobs_def processDecoded_def renderResizedJpeg_def
          err_def Let_def)
qed

text \<open>
  Claim C9, as amended. Only an \<^verbatim>\<open>init\<close> message writes \<^verbatim>\<open>RUNTIME\<close>: a message of any
  other type, a \<^verbatim>\<open>process\<close> request among them, leaves every field as it is, and an
  \<^verbatim>\<open>init\<close> message leaves the runtime that its assignments give. So a sequence of
  messages without an \<^verbatim>\<open>init\<close> leaves the runtime unchanged, and after any sequence
  the runtime is what its \<^verbatim>\<open>init\<close> messages alone would leave.
\<close>

theorem only_init_writes_runtime:
  "(msgType msg \<noteq> ''init'' \<longrightarrow> fst (onmessage rt e msg) = rt) \<and>
   (msgType msg = ''init'' \<longrightarrow> fst (onmessage rt e msg) = initRuntime rt msg) \<and>
   ((\<forall>m\<in>set msgs. msgType m \<noteq> ''init'') \<longrightarrow> fst (worker rt e msgs) = rt) \<and>
   fst (worker rt e msgs) = fst (worker rt e (filter (\<lambda>m. msgType m = ''init'') msgs))"
proof (intro conjI impI)
  assume "msgType msg \<noteq> ''init''"
  then show "fst (onmessage rt e msg) = rt" by (rule onmessage_keeps_runtime)
next
  assume "msgType msg = ''init''"
  then show "fst (onmessage rt e msg) = initRuntime rt msg" by (simp add: onmessage_init)
next
  assume "\<forall>m\<in>set msgs. msgType m \<noteq> ''init''"
  then show "fst (worker rt e msgs) = rt" by (rule worker_keeps_runtime)
next
  show "fst (worker rt e msgs) = fst (worker rt e (filter (\<lambda>m. msgType m = ''init'') msgs))"
    by (rule worker_runtime_inits)
qed

theorem only_init_writes_runtime_witness:
  "msgType (processMessage ''r1'' (Some pngFile)) \<noteq> ''init'' \<and>
   msgType (processMessage ''r2'' None) \<noteq> ''init'' \<and>
   fst (onmessage budget500k largeBlobs (processMessage ''r1'' (Some pngFile))) = budget500k \<and>
   fst (worker budget500k largeBlobs
          [processMessage ''r1'' (Some pngFile), processMessage ''r2'' None]) = budget500k \<and>
   msgType (initMessage Undefined (Number 500000)) = ''init'' \<and>
   fst (onmessage RUNTIME_initial largeBlobs (initMessage Undefined (Number 500000))) = budget500k"
proof -
  have a: "msgType (processMessage ''r1'' (Some pngFile)) \<noteq> ''init''"
    and a2: "msgType (processMessage ''r2'' None) \<noteq> ''init''"
    by (simp_all add: processMessage_def)
  have b: "msgType (initMessage Undefined (Number 500000)) = ''init''"
    by (simp add: initMessage_def)
  note t = only_init_writes_runtime[of "processMessage ''r1'' (Some pngFile)" budget500k largeBlobs
      "[processMessage ''r1'' (Some pngFile), processMessage ''r2'' None]"]
  from t a
  have c: "fst (onmessage budget500k largeBlobs (processMessage ''r1'' (Some pngFile))) = budget500k"
    by blast
  have "\<forall>m\<in>set [processMessage ''r1'' (Some pngFile), processMessage ''r2'' None].
      msgType m \<noteq> ''init''"
    using a a2 by simp
  with t have c2: "fst (worker budget500k largeBlobs
          [processMessage ''r1'' (Some pngFile), processMessage ''r2'' None]) = budget500k"
    by blast
  from only_init_writes_runtime[of "initMessage Undefined (Number 500000)" RUNTIME_initial
      largeBlobs] b
  have "fst (onmessage RUNTIME_initial largeBlobs (initMessage Undefined (Number 500000))) =
      initRuntime RUNTIME_initial (initMessage Undefined (Number 500000))"
    by blast
  then have d: "fst (onmessage RUNTIME_initial largeBlobs (initMessage Undefined (Number 500000)))
      = budget500k"
    unfolding initRuntime_initMessage by (simp add: budget500k_def)
  show ?thesis by (intro conjI) (rule a a2 b c c2 d)+
qed

text \<open>
  Claim C9 as stated fails for a second \<^verbatim>\<open>init\<close> message: handled after the first one
  has completed, it sets the limits anew.
\<close>

theorem second_init_counterexample:
  "fst (onmessage RUNTIME_initial largeBlobs (initMessage Undefined (Number 500000))) = budget500k \<and>
   ready budget500k \<and> maxLongSidePx budget500k = 2560 \<and>
   targetMaxBytes budget500k = Some 500000 \<and>
   maxLongSidePx (fst (onmessage budget500k largeBlobs (initMessage (Number 1000) (Number 9)))) = 1000 \<and>
   targetMaxBytes (fst (onmessage budget500k largeBlobs (initMessage (Number 1000) (Number 9)))) = Some 9 \<and>
   fst (onmessage budget500k largeBlobs (initMessage (Number 1000) (Number 9))) \<noteq> budget500k"
proof -
  have i: "msgType (initMessage a b) = ''init''" for a b
    by (simp add: initMessage_def)
  have first: "fst (onmessage RUNTIME_initial largeBlobs (initMessage Undefined (Number 500000)))
      = budget500k"
    unfolding onmessage_init[OF i] fst_conv initRuntime_initMessage by (simp add: budget500k_def)
  have m: "maxLongSidePx (fst (onmessage budget500k largeBlobs
      (initMessage (Number 1000) (Number 9)))) = 1000"
    unfolding onmessage_init[OF i] fst_conv initRuntime_maxLongSidePx
    by (simp add: initMessage_def)
  have t: "targetMaxBytes (fst (onmessage budget500k largeBlobs
      (initMessage (Number 1000) (Number 9)))) = Some 9"
    unfolding onmessage_init[OF i] fst_conv initRuntime_targetMaxBytes
    by (simp add: initMessage_def)
  have b: "ready budget500k" "maxLongSidePx budget500k = 2560"
    "targetMaxBytes budget500k = Some 500000"
    by (simp_all add: budget500k_def RUNTIME_initial_def)
  from m b(2) have ne: "fst (onmessage budget500k largeBlobs
      (initMessage (Number 1000) (Number 9))) \<noteq> budget500k"
    by auto
  show ?thesis by (intro conjI) (rule first b m t ne)+
qed

end
